(* ===== verification/Prelude.thy ===== *)
theory Prelude
  imports Complex_Main "HOL-Library.Word" "HOL-Library.AList"
    "HOL-Library.Multiset"
begin

section \<open>Prelude: the Python values and control flow the components share\<close>

text \<open>
  What every component of the model uses: byte strings, the exceptions the backend raises,
  computations that may raise, the slices and dictionaries of Python, the stable sort behind
  \<^verbatim>\<open>sorted(..., key=...)\<close>, and the byte source behind \<^verbatim>\<open>os.urandom\<close>.
  A Python \<^verbatim>\<open>str\<close> is modelled by the list of the bytes of its UTF-8 encoding, so
  \<^verbatim>\<open>s.encode()\<close> is a plain conversion of characters to bytes.
\<close>

named_theorems res_simps \<open>how raising computations compose\<close>
named_theorems dict_simps \<open>lookups in updated dictionaries\<close>

subsection \<open>Bytes and strings\<close>

type_synonym byte = "8 word"
type_synonym bytes = "byte list"

definition byte_of_char :: "char \<Rightarrow> byte" where
  "byte_of_char c = word_of_nat (of_char c)"

lemma unat_byte_of_char [simp]: "unat (byte_of_char c) = of_char c"
  by (simp add: byte_of_char_def unat_of_nat)

lemma byte_of_char_inject [simp]: "byte_of_char c = byte_of_char d \<longleftrightarrow> c = d"
  by (metis of_char_eq_iff unat_byte_of_char)

definition encode :: "string \<Rightarrow> bytes" where
  "encode s = map byte_of_char s"

lemma encode_simps [simp]:
  "encode [] = []"
  "encode (c # s) = byte_of_char c # encode s"
  "encode (s @ t) = encode s @ encode t"
  "length (encode s) = length s"
  by (simp_all add: encode_def)

lemma encode_inject [simp]: "encode s = encode t \<longleftrightarrow> s = t"
  unfolding encode_def by (rule inj_map_eq_map) (simp add: inj_def)

subsection \<open>Exceptions\<close>

text \<open>
  The reasons the backend puts into the text of its \<^verbatim>\<open>ValueError\<close>s, with the values the
  text quotes, and the exceptions themselves. \<open>ZstdError\<close> is the exception class of the
  \<^verbatim>\<open>zstandard\<close> package, which is not a \<^verbatim>\<open>ValueError\<close>.
\<close>

datatype reason =
    DataTooShort nat
  | UnsupportedVersion byte
  | AuthenticationFailed
  | BadKeyLength nat
  | ChunkHashMismatch int string string
  | MerkleRootMismatch string string
  | IntegrityFailed string string
  | PipelineIntegrityFailed string string
  | NegativeCount
  | InvalidLiteral string
  | NotInList

datatype exn =
    ValueError reason
  | ZstdError
  | KeyError string
  | IndexError
  | TypeError
  | AttributeError
  | OverflowError
  | OSError
  | FileNotFoundError string
  | HTTPException nat string

type_synonym 'a res = "exn + 'a"

text \<open>\<open>bindr\<close> is the sequencing of statements: the first exception ends the run.\<close>

definition bindr :: "'a res \<Rightarrow> ('a \<Rightarrow> 'b res) \<Rightarrow> 'b res" where
  "bindr r f = (case r of Inl e \<Rightarrow> Inl e | Inr a \<Rightarrow> f a)"

lemma bindr_simps [simp, res_simps]:
  "bindr (Inl e) f = Inl e"
  "bindr (Inr a) f = f a"
  by (simp_all add: bindr_def)

lemma bindr_eq_Inr [res_simps]: "bindr r f = Inr b \<longleftrightarrow> (\<exists>a. r = Inr a \<and> f a = Inr b)"
  by (cases r) simp_all

lemma bindr_eq_Inl [res_simps]:
  "bindr r f = Inl e \<longleftrightarrow> r = Inl e \<or> (\<exists>a. r = Inr a \<and> f a = Inl e)"
  by (cases r) simp_all

text \<open>A loop that computes one value per element, in order, and stops at the first exception.\<close>

fun mapr :: "('a \<Rightarrow> 'b res) \<Rightarrow> 'a list \<Rightarrow> 'b list res" where
  "mapr f [] = Inr []"
| "mapr f (x # xs) = bindr (f x) (\<lambda>y. bindr (mapr f xs) (\<lambda>ys. Inr (y # ys)))"

lemma mapr_Inr_iff [res_simps]:
  "mapr f xs = Inr ys \<longleftrightarrow> list_all2 (\<lambda>x y. f x = Inr y) xs ys"
proof (induction xs arbitrary: ys)
  case Nil
  then show ?case by auto
next
  case (Cons x xs)
  then show ?case by (cases ys) (auto simp: bindr_eq_Inr)
qed

lemma mapr_Inr_length: "mapr f xs = Inr ys \<Longrightarrow> length ys = length xs"
  by (auto simp: mapr_Inr_iff dest: list_all2_lengthD)

lemma mapr_Inl_ex: "mapr f xs = Inl e \<Longrightarrow> \<exists>x \<in> set xs. f x = Inl e"
  by (induction xs) (auto simp: bindr_eq_Inl)

lemma mapr_cong [fundef_cong]:
  "xs = ys \<Longrightarrow> (\<And>x. x \<in> set ys \<Longrightarrow> f x = g x) \<Longrightarrow> mapr f xs = mapr g ys"
  by (induction ys arbitrary: xs) auto

lemma mapr_total: "(\<And>x. x \<in> set xs \<Longrightarrow> f x = Inr (g x)) \<Longrightarrow> mapr f xs = Inr (map g xs)"
  by (induction xs) auto

lemma mapr_append:
  "mapr f (xs @ ys) = bindr (mapr f xs) (\<lambda>as. bindr (mapr f ys) (\<lambda>bs. Inr (as @ bs)))"
proof (induction xs)
  case Nil
  show ?case by (cases "mapr f ys") simp_all
next
  case (Cons x xs)
  then show ?case
    by (cases "f x"; cases "mapr f xs"; cases "mapr f ys") simp_all
qed

text \<open>A list of values, each paired with something computed from it.\<close>

lemma fst_tagged: "map fst (map (\<lambda>e. (e, f e)) xs) = xs"
  by (induction xs) simp_all

lemma snd_tagged: "map snd (map (\<lambda>e. (e, f e)) xs) = map f xs"
  by (induction xs) simp_all

subsection \<open>Truthiness, slices and slice assignment\<close>

text \<open>\<^verbatim>\<open>if password:\<close> is false both for \<^verbatim>\<open>None\<close> and for the empty string.\<close>

fun truthy :: "string option \<Rightarrow> bool" where
  "truthy None = False"
| "truthy (Some s) = (s \<noteq> [])"

text \<open>\<^verbatim>\<open>xs[a:b]\<close> for natural bounds, and \<^verbatim>\<open>xs[:k]\<close> for any integer.\<close>

definition py_slice :: "nat \<Rightarrow> nat \<Rightarrow> 'a list \<Rightarrow> 'a list" where
  "py_slice a b xs = drop a (take b xs)"

definition prefix_to :: "int \<Rightarrow> 'a list \<Rightarrow> 'a list" where
  "prefix_to k xs = (if 0 \<le> k then take (nat k) xs else take (nat (int (length xs) + k)) xs)"

lemma prefix_to_of_nat [simp]: "prefix_to (int k) xs = take k xs"
  by (simp add: prefix_to_def)

lemma set_prefix_to: "set (prefix_to k xs) \<subseteq> set xs"
  by (auto simp: prefix_to_def dest: in_set_takeD)

lemma distinct_prefix_to: "distinct xs \<Longrightarrow> distinct (prefix_to k xs)"
  by (simp add: prefix_to_def)

text \<open>\<^verbatim>\<open>str.strip()\<close>: of the white space of Unicode only the ASCII part is stripped here.\<close>

definition is_space :: "char \<Rightarrow> bool" where
  "is_space c \<longleftrightarrow> (let n = of_char c :: nat in n = 32 \<or> (9 \<le> n \<and> n \<le> 13) \<or> (28 \<le> n \<and> n \<le> 31))"

definition strip :: "string \<Rightarrow> string" where
  "strip s = rev (dropWhile is_space (rev (dropWhile is_space s)))"

text \<open>
  \<^verbatim>\<open>buf[a:b] = data\<close> on a \<^verbatim>\<open>bytearray\<close> replaces the slice by the data, whatever the
  two lengths are: the buffer grows when the slice reaches past its end.
\<close>

definition slice_assign :: "nat \<Rightarrow> nat \<Rightarrow> 'a list \<Rightarrow> 'a list \<Rightarrow> 'a list" where
  "slice_assign a b data buf = take a buf @ data @ drop (max a b) buf"

lemma take_slice_assign:
  "a \<le> length buf \<Longrightarrow> take (a + length data) (slice_assign a b data buf) = take a buf @ data"
  by (simp add: slice_assign_def)

lemma length_slice_assign:
  "a \<le> length buf \<Longrightarrow> a + length data \<le> length (slice_assign a b data buf)"
  by (simp add: slice_assign_def)

subsection \<open>Dictionaries\<close>

text \<open>
  A Python dictionary keeps the order of first insertion, and several components depend on
  it (\<^verbatim>\<open>list(peers.keys())[:k]\<close>): it is an association list. Assignment to an existing
  key keeps its place, a new key goes to the end.
\<close>

type_synonym ('k, 'v) dict = "('k \<times> 'v) list"

abbreviation (input) dict_get :: "('k, 'v) dict \<Rightarrow> 'k \<Rightarrow> 'v option" where
  "dict_get \<equiv> map_of"

abbreviation (input) dict_set :: "'k \<Rightarrow> 'v \<Rightarrow> ('k, 'v) dict \<Rightarrow> ('k, 'v) dict" where
  "dict_set \<equiv> AList.update"

abbreviation (input) dict_del :: "'k \<Rightarrow> ('k, 'v) dict \<Rightarrow> ('k, 'v) dict" where
  "dict_del \<equiv> AList.delete"

abbreviation (input) dict_keys :: "('k, 'v) dict \<Rightarrow> 'k list" where
  "dict_keys \<equiv> map fst"

definition dict_ok :: "('k, 'v) dict \<Rightarrow> bool" where
  "dict_ok d \<longleftrightarrow> distinct (dict_keys d)"

lemma dict_get_set [simp, dict_simps]:
  "dict_get (dict_set k v d) k' = (if k' = k then Some v else dict_get d k')"
  by (simp add: update_conv)

lemma dict_get_del [simp, dict_simps]:
  "dict_get (dict_del k d) k' = (if k' = k then None else dict_get d k')"
  by (simp add: delete_conv)

lemma dict_ok_set [intro]: "dict_ok d \<Longrightarrow> dict_ok (dict_set k v d)"
  by (simp add: dict_ok_def distinct_update)

lemma dict_ok_del [intro]: "dict_ok d \<Longrightarrow> dict_ok (dict_del k d)"
  by (simp add: dict_ok_def distinct_delete)

lemma dict_ok_Nil [simp]: "dict_ok []"
  by (simp add: dict_ok_def)

lemma dict_ok_filter [intro]: "dict_ok d \<Longrightarrow> dict_ok (filter P d)"
  by (simp add: dict_ok_def distinct_map_filter)

lemma dict_get_filter:
  "dict_ok d \<Longrightarrow> dict_get (filter P d) k =
     (case dict_get d k of None \<Rightarrow> None | Some v \<Rightarrow> if P (k, v) then Some v else None)"
  by (induction d) (auto simp: dict_ok_def map_of_eq_None_iff split: option.splits)

lemma dict_get_SomeD: "dict_get d k = Some v \<Longrightarrow> (k, v) \<in> set d"
  by (rule map_of_SomeD)

lemma dict_ok_get: "dict_ok d \<Longrightarrow> (k, v) \<in> set d \<Longrightarrow> dict_get d k = Some v"
  by (simp add: dict_ok_def)

subsection \<open>Sorting\<close>

text \<open>
  \<^verbatim>\<open>sorted(xs, key=f)\<close> is stable, as \<open>sort_key\<close> is. On lists whose keys are distinct the
  result depends on the elements only, not on their order.
\<close>

lemma sort_key_perm:
  "mset xs = mset ys \<Longrightarrow> distinct (map f xs) \<Longrightarrow> sort_key f xs = sort_key f ys"
  by (rule sort_key_eq_sort_key) (auto simp: distinct_map)

lemma sort_key_sorted_id: "sorted (map f xs) \<Longrightarrow> sort_key f xs = xs"
  by (induction xs) (simp_all add: insort_is_Cons)

subsection \<open>Randomness\<close>

text \<open>
  \<^verbatim>\<open>os.urandom(n)\<close> reads the next \<open>n\<close> bytes of an arbitrary infinite source: the state is the
  source and the position in it. Every theorem holds for every source.
\<close>

type_synonym rng = "(nat \<Rightarrow> byte) \<times> nat"

definition urandom :: "nat \<Rightarrow> rng \<Rightarrow> bytes \<times> rng" where
  "urandom n r = (map (fst r) [snd r ..< snd r + n], (fst r, snd r + n))"

lemma length_urandom [simp]: "length (fst (urandom n r)) = n"
  by (simp add: urandom_def)

lemma urandom_length: "urandom n r = (bs, r') \<Longrightarrow> length bs = n"
  by (auto simp: urandom_def)

end
