(* ===== verification/External.thy ===== *)
theory External
  imports Prelude
begin

section \<open>The cryptographic and compression libraries the backend calls\<close>

text \<open>
  The backend calls \<^verbatim>\<open>hashlib\<close> (SHA-256, PBKDF2), \<^verbatim>\<open>Crypto.Cipher.AES\<close> (AES-GCM)
  and \<^verbatim>\<open>zstandard\<close>. Their code is not part of the repository, so they are a record of
  functions that every definition using them takes as an argument; nothing about them is
  built in. What the backend relies on is the predicate \<open>lib_ok\<close>, each clause a documented
  behaviour of the library; theorems that need it say so. \<open>ref_lib\<close> is a small executable
  instance that satisfies \<open>lib_ok\<close> and lets the theorems be run on concrete inputs.
\<close>

record lib =
  sha256 :: "bytes \<Rightarrow> string"
  pbkdf2 :: "bytes \<Rightarrow> bytes \<Rightarrow> nat \<Rightarrow> nat \<Rightarrow> bytes"
  gcm_encrypt :: "bytes \<Rightarrow> bytes \<Rightarrow> bytes \<Rightarrow> bytes \<times> bytes"
  gcm_decrypt :: "bytes \<Rightarrow> bytes \<Rightarrow> bytes \<Rightarrow> bytes \<Rightarrow> bytes option"
  zstd_compress :: "bytes \<Rightarrow> bytes"
  zstd_decompress :: "bytes \<Rightarrow> bytes option"

text \<open>
  \<open>sha256\<close> is the hexadecimal digest; \<open>pbkdf2 password salt iterations dklen\<close>;
  \<open>gcm_encrypt key nonce plaintext\<close> is the pair of \<^verbatim>\<open>encrypt_and_digest\<close>;
  \<open>gcm_decrypt key nonce ciphertext tag\<close> is \<open>None\<close> where \<^verbatim>\<open>decrypt_and_verify\<close>
  raises \<^verbatim>\<open>ValueError\<close>; \<open>zstd_decompress\<close> is \<open>None\<close> where it raises \<^verbatim>\<open>ZstdError\<close>.
\<close>

definition aes_key_sizes :: "nat list" where
  "aes_key_sizes = [16, 24, 32]"

definition lib_ok :: "lib \<Rightarrow> bool" where
  "lib_ok L \<longleftrightarrow>
     (\<forall>b. length (sha256 L b) = 64) \<and>
     (\<forall>pw salt n dk. length (pbkdf2 L pw salt n dk) = dk) \<and>
     (\<forall>k n p. length k \<in> set aes_key_sizes \<longrightarrow>
        length (snd (gcm_encrypt L k n p)) = 16 \<and>
        length (fst (gcm_encrypt L k n p)) = length p \<and>
        gcm_decrypt L k n (fst (gcm_encrypt L k n p)) (snd (gcm_encrypt L k n p)) = Some p) \<and>
     (\<forall>b. zstd_decompress L (zstd_compress L b) = Some b)"

named_theorems lib_laws \<open>what the libraries promise\<close>

lemma sha256_length [lib_laws]: "lib_ok L \<Longrightarrow> length (sha256 L b) = 64"
  by (simp add: lib_ok_def)

lemma pbkdf2_length [lib_laws]: "lib_ok L \<Longrightarrow> length (pbkdf2 L pw salt n dk) = dk"
  by (simp add: lib_ok_def)

lemma gcm_tag_length [lib_laws]:
  "lib_ok L \<Longrightarrow> length k \<in> set aes_key_sizes \<Longrightarrow> length (snd (gcm_encrypt L k n p)) = 16"
  by (simp add: lib_ok_def)

lemma gcm_text_length [lib_laws]:
  "lib_ok L \<Longrightarrow> length k \<in> set aes_key_sizes \<Longrightarrow>
   length (fst (gcm_encrypt L k n p)) = length p"
  by (simp add: lib_ok_def)

lemma gcm_roundtrip [lib_laws]:
  "lib_ok L \<Longrightarrow> length k \<in> set aes_key_sizes \<Longrightarrow>
   gcm_decrypt L k n (fst (gcm_encrypt L k n p)) (snd (gcm_encrypt L k n p)) = Some p"
  by (simp add: lib_ok_def)

lemma zstd_roundtrip [lib_laws]: "lib_ok L \<Longrightarrow> zstd_decompress L (zstd_compress L b) = Some b"
  by (simp add: lib_ok_def)

text \<open>
  SHA-256 has collisions, as every function from all byte strings to digests of one length has. Where a theorem
  rests on the digests, its conclusion says among which inputs it needs them to differ: always finitely
  many, the byte strings that are hashed in the runs it is about.
\<close>

definition collision_in :: "lib \<Rightarrow> bytes set \<Rightarrow> bool" where
  "collision_in L X \<longleftrightarrow> (\<exists>a \<in> X. \<exists>b \<in> X. a \<noteq> b \<and> sha256 L a = sha256 L b)"

lemma sha256_eq_cases: "sha256 L a = sha256 L b \<Longrightarrow> a \<in> X \<Longrightarrow> b \<in> X \<Longrightarrow> a = b \<or> collision_in L X"
  by (auto simp: collision_in_def)

lemma collision_mono: "collision_in L X \<Longrightarrow> X \<subseteq> Y \<Longrightarrow> collision_in L Y"
  by (auto simp: collision_in_def)

lemma no_collision_few [simp]: "\<not> collision_in L {}" "\<not> collision_in L {a}"
  by (auto simp: collision_in_def)

lemma collision_two: "collision_in L {a, b} \<longleftrightarrow> a \<noteq> b \<and> sha256 L a = sha256 L b"
  by (auto simp: collision_in_def)

subsection \<open>An executable instance\<close>

definition hex_digit :: "nat \<Rightarrow> char" where
  "hex_digit n = ''0123456789abcdef'' ! (n mod 16)"

fun hex_of :: "bytes \<Rightarrow> string" where
  "hex_of [] = []"
| "hex_of (b # bs) = hex_digit (unat b div 16) # hex_digit (unat b) # hex_of bs"

fun fold_bytes :: "bytes \<Rightarrow> bytes \<Rightarrow> bytes" where
  "fold_bytes acc [] = acc"
| "fold_bytes acc (b # bs) = fold_bytes (tl acc @ [5 * hd acc + b + 1]) bs"

definition ref_tag :: "bytes \<Rightarrow> bytes \<Rightarrow> bytes \<Rightarrow> bytes" where
  "ref_tag k n c = map (\<lambda>i. k ! i + sum_list n + sum_list c) [0..<16]"

definition ref_lib :: lib where
  "ref_lib = \<lparr>
     sha256 = (\<lambda>b. take 64 (hex_of (fold_bytes [0, 0] b) @ replicate 64 (CHR ''0''))),
     pbkdf2 = (\<lambda>pw salt n dk. take dk (pw @ salt @ replicate dk 0)),
     gcm_encrypt = (\<lambda>k n p. (p, ref_tag k n p)),
     gcm_decrypt = (\<lambda>k n c t. if t = ref_tag k n c then Some c else None),
     zstd_compress = (\<lambda>b. 40 # b),
     zstd_decompress = (\<lambda>b. case b of [] \<Rightarrow> None | x # r \<Rightarrow> if x = 40 then Some r else None)\<rparr>"

lemma ref_lib_ok: "lib_ok ref_lib"
  by (auto simp: lib_ok_def ref_lib_def ref_tag_def min_def)

end
