(* ===== verification/Crypto.thy ===== *)
theory Crypto
  imports External
begin

section \<open>Chunk encryption (backend/file\_engine/crypto.py)\<close>

text \<open>
  The chunk format \<open>version(1) salt(16) nonce(12) tag(16) ciphertext\<close>, key derivation,
  encryption and decryption of one chunk, the worker functions and the parallel batches, in
  the order of the source. Worker processes draw their nonces from the system's random source;
  the model lets the batch draw them in submission order from one arbitrary source.
\<close>

definition VERSION :: byte where "VERSION = 1"
definition PBKDF2_ITERATIONS :: nat where "PBKDF2_ITERATIONS = 100000"
definition SALT_SIZE :: nat where "SALT_SIZE = 16"
definition KEY_SIZE :: nat where "KEY_SIZE = 32"
definition NONCE_SIZE :: nat where "NONCE_SIZE = 12"
definition TAG_SIZE :: nat where "TAG_SIZE = 16"
definition HEADER_SIZE :: nat where "HEADER_SIZE = 1 + SALT_SIZE + NONCE_SIZE + TAG_SIZE"

lemmas size_defs =
  SALT_SIZE_def KEY_SIZE_def NONCE_SIZE_def TAG_SIZE_def HEADER_SIZE_def VERSION_def

subsection \<open>Key derivation and one chunk\<close>

definition derive_key :: "lib \<Rightarrow> string \<Rightarrow> bytes option \<Rightarrow> rng \<Rightarrow> (bytes \<times> bytes) \<times> rng" where
  "derive_key L password salt r =
     (let (salt', r') = (case salt of None \<Rightarrow> urandom SALT_SIZE r | Some s \<Rightarrow> (s, r))
      in ((pbkdf2 L (encode password) salt' PBKDF2_ITERATIONS KEY_SIZE, salt'), r'))"

text \<open>\<^verbatim>\<open>derive_key(password, salt)\<close> with a salt draws no randomness.\<close>

definition key_for :: "lib \<Rightarrow> string \<Rightarrow> bytes \<Rightarrow> bytes" where
  "key_for L password salt = pbkdf2 L (encode password) salt PBKDF2_ITERATIONS KEY_SIZE"

text \<open>\<^verbatim>\<open>AES.new\<close> rejects keys that are not 16, 24 or 32 bytes long.\<close>

definition aes_new :: "bytes \<Rightarrow> unit res" where
  "aes_new key =
     (if length key \<in> set aes_key_sizes then Inr () else Inl (ValueError (BadKeyLength (length key))))"

definition encrypt_with_key :: "lib \<Rightarrow> bytes \<Rightarrow> bytes \<Rightarrow> bytes \<Rightarrow> rng \<Rightarrow> bytes res \<times> rng" where
  "encrypt_with_key L data key salt r =
     (let (nonce, r') = urandom NONCE_SIZE r
      in (bindr (aes_new key) (\<lambda>_.
            let (ciphertext, tag) = gcm_encrypt L key nonce data
            in Inr ([VERSION] @ salt @ nonce @ tag @ ciphertext)), r'))"

definition encrypt :: "lib \<Rightarrow> bytes \<Rightarrow> string \<Rightarrow> rng \<Rightarrow> bytes res \<times> rng" where
  "encrypt L data password r =
     (let ((key, salt), r') = derive_key L password None r
      in encrypt_with_key L data key salt r')"

definition decrypt_with_key :: "lib \<Rightarrow> bytes \<Rightarrow> bytes \<Rightarrow> bytes res" where
  "decrypt_with_key L encrypted key =
     (if length encrypted < HEADER_SIZE then Inl (ValueError (DataTooShort (length encrypted)))
      else if encrypted ! 0 \<noteq> VERSION then Inl (ValueError (UnsupportedVersion (encrypted ! 0)))
      else
        let off = 1 + SALT_SIZE;
            nonce = py_slice off (off + NONCE_SIZE) encrypted;
            off = off + NONCE_SIZE;
            tag = py_slice off (off + TAG_SIZE) encrypted;
            off = off + TAG_SIZE;
            ciphertext = drop off encrypted
        in bindr (aes_new key) (\<lambda>_.
             case gcm_decrypt L key nonce ciphertext tag of
               None \<Rightarrow> Inl (ValueError AuthenticationFailed)
             | Some data \<Rightarrow> Inr data))"

definition decrypt :: "lib \<Rightarrow> bytes \<Rightarrow> string \<Rightarrow> bytes res" where
  "decrypt L encrypted password =
     (if length encrypted < HEADER_SIZE then Inl (ValueError (DataTooShort (length encrypted)))
      else if encrypted ! 0 \<noteq> VERSION then Inl (ValueError (UnsupportedVersion (encrypted ! 0)))
      else decrypt_with_key L encrypted (key_for L password (py_slice 1 (1 + SALT_SIZE) encrypted)))"

subsection \<open>Worker functions\<close>

definition zdecompress :: "lib \<Rightarrow> bytes \<Rightarrow> bytes res" where
  "zdecompress L b = (case zstd_decompress L b of None \<Rightarrow> Inl ZstdError | Some d \<Rightarrow> Inr d)"

definition hashed :: "lib \<Rightarrow> bytes res \<times> rng \<Rightarrow> (bytes \<times> string) res \<times> rng" where
  "hashed L x = (bindr (fst x) (\<lambda>ct. Inr (ct, sha256 L ct)), snd x)"

definition worker_encrypt :: "lib \<Rightarrow> bytes \<Rightarrow> string \<Rightarrow> rng \<Rightarrow> (bytes \<times> string) res \<times> rng" where
  "worker_encrypt L chunk password r = hashed L (encrypt L chunk password r)"

definition worker_encrypt_keyed ::
    "lib \<Rightarrow> bytes \<Rightarrow> bytes \<Rightarrow> bytes \<Rightarrow> rng \<Rightarrow> (bytes \<times> string) res \<times> rng" where
  "worker_encrypt_keyed L chunk key salt r =
     hashed L (encrypt_with_key L (zstd_compress L chunk) key salt r)"

definition worker_decrypt_keyed :: "lib \<Rightarrow> bytes \<Rightarrow> bytes \<Rightarrow> bytes res" where
  "worker_decrypt_keyed L chunk key = bindr (decrypt_with_key L chunk key) (zdecompress L)"

definition worker_encrypt_keyed_nocompress ::
    "lib \<Rightarrow> bytes \<Rightarrow> bytes \<Rightarrow> bytes \<Rightarrow> rng \<Rightarrow> (bytes \<times> string) res \<times> rng" where
  "worker_encrypt_keyed_nocompress L chunk key salt r = hashed L (encrypt_with_key L chunk key salt r)"

definition worker_decrypt_keyed_nocompress :: "lib \<Rightarrow> bytes \<Rightarrow> bytes \<Rightarrow> bytes res" where
  "worker_decrypt_keyed_nocompress L chunk key = decrypt_with_key L chunk key"

subsection \<open>Parallel batches\<close>

text \<open>
  All chunks are submitted, then the results are collected in submission order, so the first
  failing chunk decides the exception; a failing worker does not stop the ones behind it,
  which still draw their nonces.
\<close>

fun encrypt_all :: "lib \<Rightarrow> bytes \<Rightarrow> bytes \<Rightarrow> bytes list \<Rightarrow> rng \<Rightarrow> (bytes \<times> string) list res \<times> rng" where
  "encrypt_all L key salt [] r = (Inr [], r)"
| "encrypt_all L key salt (c # cs) r =
     (let (x, r1) = worker_encrypt_keyed L c key salt r;
          (xs, r2) = encrypt_all L key salt cs r1
      in (bindr x (\<lambda>y. bindr xs (\<lambda>ys. Inr (y # ys))), r2))"

definition encrypt_chunks_parallel ::
    "lib \<Rightarrow> bytes list \<Rightarrow> string \<Rightarrow> rng \<Rightarrow> (bytes \<times> string) list res \<times> rng" where
  "encrypt_chunks_parallel L chunks password r =
     (let ((key, salt), r') = derive_key L password None r
      in encrypt_all L key salt chunks r')"

definition decrypt_chunks_parallel :: "lib \<Rightarrow> bytes list \<Rightarrow> string \<Rightarrow> bool \<Rightarrow> bytes list res" where
  "decrypt_chunks_parallel L chunks password compressed =
     (if chunks = [] then Inr []
      else
        let first_salt = py_slice 1 (1 + SALT_SIZE) (hd chunks);
            key = key_for L password first_salt;
            worker = (if compressed then worker_decrypt_keyed L else worker_decrypt_keyed_nocompress L)
        in mapr (\<lambda>chunk. worker chunk key) chunks)"

definition hash_chunks_parallel :: "lib \<Rightarrow> bytes list \<Rightarrow> string list" where
  "hash_chunks_parallel L chunks = map (sha256 L) chunks"

subsection \<open>Integrity helpers\<close>

text \<open>
  \<^verbatim>\<open>except ValueError\<close> catches every exception \<open>decrypt\<close> can raise (\<open>decrypt_raises\<close>
  below); any other exception would go through.
\<close>

definition verify_integrity :: "lib \<Rightarrow> bytes \<Rightarrow> string \<Rightarrow> bool res" where
  "verify_integrity L encrypted password =
     (case decrypt L encrypted password of
        Inr _ \<Rightarrow> Inr True
      | Inl (ValueError _) \<Rightarrow> Inr False
      | Inl e \<Rightarrow> Inl e)"

record tamper_report =
  original_ok :: bool
  tampered_detected :: bool

definition tampered_copy :: "bytes \<Rightarrow> bytes" where
  "tampered_copy e = e[HEADER_SIZE + 1 := xor (e ! (HEADER_SIZE + 1)) 255]"

definition tamper_test :: "lib \<Rightarrow> bytes \<Rightarrow> string \<Rightarrow> tamper_report res" where
  "tamper_test L encrypted password =
     bindr (verify_integrity L encrypted password) (\<lambda>ok.
       if length encrypted > HEADER_SIZE + 1
       then bindr (verify_integrity L (tampered_copy encrypted) password) (\<lambda>ok'.
              Inr \<lparr>original_ok = ok, tampered_detected = (\<not> ok')\<rparr>)
       else Inr \<lparr>original_ok = ok, tampered_detected = False\<rparr>)"

subsection \<open>Layout of an encrypted chunk\<close>

text \<open>
  \<open>seal\<close> is the chunk that encryption produces with a given nonce: the specification of the
  binary format in the module's documentation.
\<close>

definition seal :: "lib \<Rightarrow> bytes \<Rightarrow> bytes \<Rightarrow> bytes \<Rightarrow> bytes \<Rightarrow> bytes" where
  "seal L key salt nonce data =
     [VERSION] @ salt @ nonce @ snd (gcm_encrypt L key nonce data) @ fst (gcm_encrypt L key nonce data)"

named_theorems crypto_simps \<open>encryption and decryption of one chunk\<close>

lemma key_for_length: "lib_ok L \<Longrightarrow> length (key_for L pw salt) = 32"
  by (simp add: key_for_def KEY_SIZE_def pbkdf2_length)

lemma key_for_size [crypto_simps]: "lib_ok L \<Longrightarrow> length (key_for L pw salt) \<in> set aes_key_sizes"
  by (simp add: key_for_length aes_key_sizes_def)

lemma derive_key_fresh:
  "derive_key L pw None r =
     ((key_for L pw (fst (urandom SALT_SIZE r)), fst (urandom SALT_SIZE r)), snd (urandom SALT_SIZE r))"
  by (simp add: derive_key_def key_for_def split: prod.splits)

lemma derive_key_given: "derive_key L pw (Some s) r = ((key_for L pw s, s), r)"
  by (simp add: derive_key_def key_for_def)

lemma encrypt_with_key_seal:
  "length key \<in> set aes_key_sizes \<Longrightarrow>
   encrypt_with_key L data key salt r =
     (Inr (seal L key salt (fst (urandom NONCE_SIZE r)) data), snd (urandom NONCE_SIZE r))"
  by (simp add: encrypt_with_key_def aes_new_def seal_def split: prod.splits)

lemma seal_length:
  assumes "lib_ok L" and "length key \<in> set aes_key_sizes"
    and "length salt = SALT_SIZE" and "length nonce = NONCE_SIZE"
  shows "length (seal L key salt nonce data) = HEADER_SIZE + length data"
  using assms by (simp add: seal_def size_defs lib_laws)

lemma seal_salt:
  "length salt = SALT_SIZE \<Longrightarrow> py_slice 1 (1 + SALT_SIZE) (seal L key salt nonce data) = salt"
  by (simp add: seal_def py_slice_def)

lemma seal_fields:
  assumes "length salt = SALT_SIZE" and "length nonce = NONCE_SIZE"
    and "length (snd (gcm_encrypt L key nonce data)) = TAG_SIZE"
  shows "seal L key salt nonce data ! 0 = VERSION"
    and "py_slice (1 + SALT_SIZE) (1 + SALT_SIZE + NONCE_SIZE) (seal L key salt nonce data) = nonce"
    and "py_slice (1 + SALT_SIZE + NONCE_SIZE) (1 + SALT_SIZE + NONCE_SIZE + TAG_SIZE)
           (seal L key salt nonce data) = snd (gcm_encrypt L key nonce data)"
    and "drop (1 + SALT_SIZE + NONCE_SIZE + TAG_SIZE) (seal L key salt nonce data)
           = fst (gcm_encrypt L key nonce data)"
  using assms by (simp_all add: seal_def py_slice_def)

lemma decrypt_with_key_seal [crypto_simps]:
  assumes "lib_ok L" and "length key \<in> set aes_key_sizes"
    and "length salt = SALT_SIZE" and "length nonce = NONCE_SIZE"
  shows "decrypt_with_key L (seal L key salt nonce data) key = Inr data"
proof -
  have "length (snd (gcm_encrypt L key nonce data)) = TAG_SIZE"
    using assms by (simp add: TAG_SIZE_def gcm_tag_length)
  note fields = seal_fields [OF assms(3,4) this]
  show ?thesis
    using assms
    by (simp add: decrypt_with_key_def seal_length fields [simplified] aes_new_def gcm_roundtrip Let_def)
qed

lemma decrypt_seal [crypto_simps]:
  assumes "lib_ok L" and "length salt = SALT_SIZE" and "length nonce = NONCE_SIZE"
  shows "decrypt L (seal L (key_for L pw salt) salt nonce data) pw = Inr data"
proof -
  have "length (snd (gcm_encrypt L (key_for L pw salt) nonce data)) = TAG_SIZE"
    using assms by (simp add: TAG_SIZE_def gcm_tag_length key_for_size)
  note fields = seal_fields [OF assms(2,3) this]
  show ?thesis
    using assms
    by (simp add: decrypt_def seal_length fields [simplified] seal_salt [simplified] crypto_simps)
qed

lemma zdecompress_compress [crypto_simps]: "lib_ok L \<Longrightarrow> zdecompress L (zstd_compress L b) = Inr b"
  by (simp add: zdecompress_def zstd_roundtrip)

subsection \<open>Exceptions\<close>

lemma decrypt_with_key_raises: "decrypt_with_key L e key = Inl x \<Longrightarrow> \<exists>m. x = ValueError m"
  by (auto simp: decrypt_with_key_def aes_new_def Let_def res_simps split: if_splits option.splits)

lemma decrypt_raises: "decrypt L e pw = Inl x \<Longrightarrow> \<exists>m. x = ValueError m"
  by (auto simp: decrypt_def split: if_splits dest: decrypt_with_key_raises)

lemma verify_integrity_total:
  "verify_integrity L e pw = Inr (case decrypt L e pw of Inl _ \<Rightarrow> False | Inr _ \<Rightarrow> True)"
  by (auto simp: verify_integrity_def split: sum.splits exn.splits dest: decrypt_raises)

text \<open>What an accepted chunk is: a complete header whose tag the cipher verified.\<close>

lemma decrypt_with_key_accepts:
  "decrypt_with_key L e key = Inr data \<longleftrightarrow>
     HEADER_SIZE \<le> length e \<and> e ! 0 = VERSION \<and> length key \<in> set aes_key_sizes \<and>
     gcm_decrypt L key (py_slice 17 29 e) (drop 45 e) (py_slice 29 45 e) = Some data"
  by (auto simp: decrypt_with_key_def aes_new_def Let_def size_defs res_simps split: option.splits)

end
