(* ===== verification/Merkle.thy ===== *)
theory Merkle
  imports Crypto
begin

section \<open>Merkle trees over chunk hashes (backend/file\_engine/chunker.py, lines 60 to 107)\<close>

text \<open>
  Root, inclusion proof and proof check over a list of hexadecimal chunk hashes. An inner node
  is the digest of the concatenated child digests; a level of odd length pairs its last node
  with itself. The proof check is shown complete for every index; root and proof are shown to
  bind the leaves, up to a SHA-256 collision among the inputs of the nodes, for lists of one length.
\<close>

definition node_hash :: "lib \<Rightarrow> string \<Rightarrow> string \<Rightarrow> string" where
  "node_hash L left right = sha256 L (encode (left @ right))"

text \<open>One pass of the \<^verbatim>\<open>for i in range(0, len(level), 2)\<close> loop.\<close>

fun next_level :: "lib \<Rightarrow> string list \<Rightarrow> string list" where
  "next_level L [] = []"
| "next_level L [x] = [node_hash L x x]"
| "next_level L (x # y # r) = node_hash L x y # next_level L r"

lemma length_next_level: "length (next_level L xs) = (length xs + 1) div 2"
  by (induction L xs rule: next_level.induct) auto

text \<open>The \<^verbatim>\<open>while len(level) > 1\<close> loop; the caller has excluded the empty list.\<close>

function climb :: "lib \<Rightarrow> string list \<Rightarrow> string" where
  "climb L level = (if 1 < length level then climb L (next_level L level) else hd level)"
  by pat_completeness auto
termination
  by (relation "measure (\<lambda>(L, level). length level)") (auto simp: length_next_level)

declare climb.simps [simp del]

definition compute_merkle_root :: "lib \<Rightarrow> string list \<Rightarrow> string" where
  "compute_merkle_root L hashes =
     (if hashes = [] then sha256 L []
      else if length hashes = 1 then hashes ! 0
      else climb L hashes)"

lemma climb_single [simp]: "climb L [x] = x"
  by (simp add: climb.simps)

lemma climb_step: "1 < length level \<Longrightarrow> climb L level = climb L (next_level L level)"
  by (simp add: climb.simps [of L level])

lemma merkle_root_climb: "hashes \<noteq> [] \<Longrightarrow> compute_merkle_root L hashes = climb L hashes"
  by (cases hashes) (auto simp: compute_merkle_root_def climb.simps)

subsection \<open>Inclusion proofs\<close>

record proof_step =
  ps_hash :: string
  ps_position :: string

text \<open>
  The steps one level appends: the loop looks at every pair, \<open>i\<close> is the position of the
  first element of the rest. The index is an arbitrary integer, as in the source.
\<close>

fun level_steps :: "int \<Rightarrow> int \<Rightarrow> string list \<Rightarrow> proof_step list" where
  "level_steps idx i [] = []"
| "level_steps idx i [x] =
     (if i = idx then [\<lparr>ps_hash = x, ps_position = ''right''\<rparr>]
      else if i + 1 = idx then [\<lparr>ps_hash = x, ps_position = ''left''\<rparr>]
      else [])"
| "level_steps idx i (x # y # r) =
     (if i = idx then [\<lparr>ps_hash = y, ps_position = ''right''\<rparr>]
      else if i + 1 = idx then [\<lparr>ps_hash = x, ps_position = ''left''\<rparr>]
      else []) @ level_steps idx (i + 2) r"

function proof_climb :: "lib \<Rightarrow> string list \<Rightarrow> int \<Rightarrow> proof_step list" where
  "proof_climb L level idx =
     (if 1 < length level
      then level_steps idx 0 level @ proof_climb L (next_level L level) (idx div 2)
      else [])"
  by pat_completeness auto
termination
  by (relation "measure (\<lambda>(L, level, idx). length level)") (auto simp: length_next_level)

declare proof_climb.simps [simp del]

definition compute_merkle_proof :: "lib \<Rightarrow> string list \<Rightarrow> int \<Rightarrow> proof_step list" where
  "compute_merkle_proof L hashes index =
     (if length hashes \<le> 1 then [] else proof_climb L hashes index)"

definition proof_apply :: "lib \<Rightarrow> proof_step \<Rightarrow> string \<Rightarrow> string" where
  "proof_apply L step current =
     (if ps_position step = ''right'' then sha256 L (encode (current @ ps_hash step))
      else sha256 L (encode (ps_hash step @ current)))"

definition verify_merkle_proof :: "lib \<Rightarrow> string \<Rightarrow> proof_step list \<Rightarrow> string \<Rightarrow> bool" where
  "verify_merkle_proof L chunk_hash prf merkle_root = (fold (proof_apply L) prf chunk_hash = merkle_root)"

lemma proof_climb_step:
  "1 < length level \<Longrightarrow>
   proof_climb L level idx = level_steps idx 0 level @ proof_climb L (next_level L level) (idx div 2)"
  by (simp add: proof_climb.simps [of L level])

lemma proof_climb_short: "length level \<le> 1 \<Longrightarrow> proof_climb L level idx = []"
  by (simp add: proof_climb.simps)

lemma compute_merkle_proof_climb: "compute_merkle_proof L hashes idx = proof_climb L hashes idx"
  by (simp add: compute_merkle_proof_def proof_climb_short)

subsection \<open>Completeness of the proof check\<close>

text \<open>
  The level contributes exactly one step, which takes the hash at the index to the hash of
  its pair on the next level.
\<close>

lemma level_steps_outside: "idx < i \<Longrightarrow> level_steps idx i xs = []"
  by (induction idx i xs rule: level_steps.induct) auto

lemma level_steps_pair:
  assumes "i \<le> idx" and "idx < i + int (length xs)"
  shows "fold (proof_apply L) (level_steps idx i xs) (xs ! nat (idx - i))
         = next_level L xs ! nat ((idx - i) div 2)"
  using assms
proof (induction idx i xs rule: level_steps.induct)
  case (1 idx i)
  then show ?case by simp
next
  case (2 idx i x)
  then have "idx = i" by simp
  then show ?case by (simp add: proof_apply_def node_hash_def)
next
  case (3 idx i x y r)
  consider "idx = i" | "idx = i + 1" | "i + 2 \<le> idx" using "3.prems"(1) by linarith
  then show ?case
  proof cases
    case 1
    then show ?thesis by (simp add: proof_apply_def node_hash_def level_steps_outside)
  next
    case 2
    then show ?thesis by (simp add: proof_apply_def node_hash_def level_steps_outside)
  next
    case 3
    define d where "d = nat (idx - (i + 2))"
    have d: "idx - i = int d + 2" using 3 by (simp add: d_def)
    have "nat (idx - i) = Suc (Suc d)" using d by simp
    moreover have "nat ((idx - i) div 2) = Suc (nat ((idx - (i + 2)) div 2))"
      using d 3 by (simp add: d_def)
    moreover have "fold (proof_apply L) (level_steps idx (i + 2) r) (r ! d)
        = next_level L r ! nat ((idx - (i + 2)) div 2)"
      using "3.IH" "3.prems" 3 by (simp add: d_def)
    ultimately show ?thesis using 3 by simp
  qed
qed

lemma proof_climb_complete:
  "i < length level \<Longrightarrow> fold (proof_apply L) (proof_climb L level (int i)) (level ! i) = climb L level"
proof (induction "length level" arbitrary: level i rule: less_induct)
  case less
  show ?case
  proof (cases "1 < length level")
    case True
    let ?next = "next_level L level"
    have i2: "i div 2 < length ?next"
      using less.prems by (simp add: length_next_level)
    have "fold (proof_apply L) (level_steps (int i) 0 level) (level ! i) = ?next ! (i div 2)"
      using level_steps_pair [of 0 "int i" level L] less.prems
      by (simp add: nat_div_distrib)
    moreover have "fold (proof_apply L) (proof_climb L ?next (int (i div 2))) (?next ! (i div 2))
        = climb L ?next"
      using less.hyps [of ?next "i div 2"] True i2 by (simp add: length_next_level)
    ultimately show ?thesis
      using True by (simp add: proof_climb_step climb_step zdiv_int)
  next
    case False
    with less.prems show ?thesis
      by (cases level) (auto simp: proof_climb_short)
  qed
qed

lemma level_steps_length:
  "i \<le> idx \<Longrightarrow> idx < i + int (length xs) \<Longrightarrow> length (level_steps idx i xs) = 1"
  by (induction idx i xs rule: level_steps.induct) (auto simp: level_steps_outside)

subsection \<open>Binding\<close>

text \<open>
  The digests of a level all have one length (64 hexadecimal characters), so a concatenation of
  two of them splits in one way only, and equal inner nodes have equal children unless the two
  concatenations collide.
\<close>

definition hex_hashes :: "string list \<Rightarrow> bool" where
  "hex_hashes hs \<longleftrightarrow> (\<forall>h \<in> set hs. length h = 64)"

lemma hex_hashes_simps [simp]:
  "hex_hashes []"
  "hex_hashes (h # hs) \<longleftrightarrow> length h = 64 \<and> hex_hashes hs"
  "hex_hashes (hs @ hs') \<longleftrightarrow> hex_hashes hs \<and> hex_hashes hs'"
  by (auto simp: hex_hashes_def)

text \<open>The byte strings hashed for one level, and for the whole tree.\<close>

fun level_inputs :: "string list \<Rightarrow> bytes set" where
  "level_inputs [] = {}"
| "level_inputs [x] = {encode (x @ x)}"
| "level_inputs (x # y # r) = insert (encode (x @ y)) (level_inputs r)"

function tree_inputs :: "lib \<Rightarrow> string list \<Rightarrow> bytes set" where
  "tree_inputs L level = (if 1 < length level then level_inputs level \<union> tree_inputs L (next_level L level) else {})"
  by pat_completeness auto
termination
  by (relation "measure (\<lambda>(L, level). length level)") (auto simp: length_next_level)

declare tree_inputs.simps [simp del]

lemma tree_inputs_step: "1 < length level \<Longrightarrow> tree_inputs L level = level_inputs level \<union> tree_inputs L (next_level L level)"
  by (simp add: tree_inputs.simps [of L level])

lemma node_hash_bind:
  assumes "node_hash L l r = node_hash L l' r'" and "length l = length l'"
    and "encode (l @ r) \<in> X" and "encode (l' @ r') \<in> X"
  shows "(l = l' \<and> r = r') \<or> collision_in L X"
  using sha256_eq_cases [of L "encode (l @ r)" "encode (l' @ r')" X] assms
  by (auto simp: node_hash_def simp flip: encode_simps(3))

lemma hex_hashes_next_level: "lib_ok L \<Longrightarrow> hex_hashes (next_level L xs)"
  by (induction L xs rule: next_level.induct) (auto simp: node_hash_def lib_laws)

lemma next_level_bind:
  "length xs = length ys \<Longrightarrow> hex_hashes xs \<Longrightarrow> hex_hashes ys \<Longrightarrow> level_inputs xs \<subseteq> X \<Longrightarrow> level_inputs ys \<subseteq> X \<Longrightarrow>
   next_level L xs = next_level L ys \<Longrightarrow> xs = ys \<or> collision_in L X"
proof (induction L xs arbitrary: ys rule: next_level.induct)
  case (1 L)
  then show ?case by simp
next
  case (2 L x)
  then obtain y where "ys = [y]" by (cases ys) auto
  with "2.prems" show ?case using node_hash_bind [of L x x y y X] by auto
next
  case (3 L x y r)
  then obtain x' y' r' where ys: "ys = x' # y' # r'"
    by (cases ys; cases "tl ys") auto
  with "3.prems" have "node_hash L x y = node_hash L x' y'" and "length x = length x'" by simp_all
  then show ?case
    using "3.IH" [of r'] "3.prems" node_hash_bind [of L x y x' y' X] by (auto simp: ys)
qed

lemma climb_bind:
  assumes "lib_ok L"
  shows "length xs = length ys \<Longrightarrow> xs \<noteq> [] \<Longrightarrow> hex_hashes xs \<Longrightarrow> hex_hashes ys \<Longrightarrow>
     tree_inputs L xs \<subseteq> X \<Longrightarrow> tree_inputs L ys \<subseteq> X \<Longrightarrow> climb L xs = climb L ys \<Longrightarrow> xs = ys \<or> collision_in L X"
proof (induction "length xs" arbitrary: xs ys rule: less_induct)
  case less
  show ?case
  proof (cases "1 < length xs")
    case True
    then have parts: "level_inputs xs \<subseteq> X" "level_inputs ys \<subseteq> X" "tree_inputs L (next_level L xs) \<subseteq> X"
      "tree_inputs L (next_level L ys) \<subseteq> X"
      using less.prems by (simp_all add: tree_inputs_step)
    have "next_level L xs = next_level L ys \<or> collision_in L X"
    proof (rule less.hyps)
      show "length (next_level L xs) < length xs" using True by (simp add: length_next_level)
      show "length (next_level L xs) = length (next_level L ys)"
        using less.prems by (simp add: length_next_level)
      show "next_level L xs \<noteq> []"
        using True length_next_level [of L xs] by auto
      show "climb L (next_level L xs) = climb L (next_level L ys)"
        using less.prems True by (simp add: climb_step)
    qed (simp_all add: hex_hashes_next_level assms parts)
    then show ?thesis using next_level_bind [OF _ _ _ parts(1,2)] less.prems by blast
  next
    case False
    with less.prems obtain x y where "xs = [x]" and "ys = [y]"
      by (cases xs; cases ys) auto
    with less.prems show ?thesis by simp
  qed
qed

text \<open>Two proofs of the same shape that end in the same root agree throughout.\<close>

lemma proof_apply_length: "lib_ok L \<Longrightarrow> length (proof_apply L s h) = 64"
  by (simp add: proof_apply_def lib_laws)

text \<open>The byte strings hashed while a proof is checked.\<close>

definition step_input :: "proof_step \<Rightarrow> string \<Rightarrow> bytes" where
  "step_input s h = encode (if ps_position s = ''right'' then h @ ps_hash s else ps_hash s @ h)"

fun proof_inputs :: "lib \<Rightarrow> proof_step list \<Rightarrow> string \<Rightarrow> bytes set" where
  "proof_inputs L [] h = {}"
| "proof_inputs L (s # p) h = insert (step_input s h) (proof_inputs L p (proof_apply L s h))"

lemma proof_apply_bind:
  assumes "proof_apply L s h = proof_apply L s' h'" and "ps_position s = ps_position s'"
    and "length h = 64" and "length h' = 64" and "length (ps_hash s) = 64" and "length (ps_hash s') = 64"
    and "step_input s h \<in> X" and "step_input s' h' \<in> X"
  shows "(h = h' \<and> ps_hash s = ps_hash s') \<or> collision_in L X"
  using node_hash_bind [of L h "ps_hash s" h' "ps_hash s'" X]
    node_hash_bind [of L "ps_hash s" h "ps_hash s'" h' X] assms
  by (auto simp: proof_apply_def node_hash_def step_input_def split: if_splits)

lemma proof_fold_bind:
  assumes "lib_ok L"
  shows "map ps_position p = map ps_position p' \<Longrightarrow>
     hex_hashes (h # map ps_hash p) \<Longrightarrow> hex_hashes (h' # map ps_hash p') \<Longrightarrow>
     proof_inputs L p h \<subseteq> X \<Longrightarrow> proof_inputs L p' h' \<subseteq> X \<Longrightarrow>
     fold (proof_apply L) p h = fold (proof_apply L) p' h' \<Longrightarrow>
     (h = h' \<and> map ps_hash p = map ps_hash p') \<or> collision_in L X"
proof (induction p arbitrary: p' h h')
  case Nil
  then show ?case by simp
next
  case (Cons s p)
  then obtain s' q where p': "p' = s' # q" and pos: "ps_position s = ps_position s'"
    by (cases p') auto
  have "(proof_apply L s h = proof_apply L s' h' \<and> map ps_hash p = map ps_hash q) \<or> collision_in L X"
    using Cons.prems by (intro Cons.IH) (auto simp: p' proof_apply_length assms)
  then show ?case
    using proof_apply_bind [OF _ pos] Cons.prems by (auto simp: p')
qed

lemma level_steps_hashes: "hex_hashes xs \<Longrightarrow> hex_hashes (map ps_hash (level_steps idx i xs))"
  by (induction idx i xs rule: level_steps.induct) auto

lemma proof_climb_hashes:
  "lib_ok L \<Longrightarrow> hex_hashes level \<Longrightarrow> hex_hashes (map ps_hash (proof_climb L level idx))"
proof (induction L level idx rule: proof_climb.induct)
  case (1 L level idx)
  then show ?case
    by (cases "1 < length level")
      (simp_all add: proof_climb_step proof_climb_short level_steps_hashes hex_hashes_next_level)
qed

lemma next_level_repeat_last:
  "odd (length xs) \<Longrightarrow> next_level L (xs @ [last xs]) = next_level L xs"
  by (induction L xs rule: next_level.induct) (auto split: if_splits)

subsection \<open>Properties\<close>

text \<open>
  C5. For every list of chunk hashes and every index into it, the proof that
  \<^verbatim>\<open>compute_merkle_proof\<close> builds is accepted by \<^verbatim>\<open>verify_merkle_proof\<close> for the hash at
  that index against the root that \<^verbatim>\<open>compute_merkle_root\<close> returns.
\<close>

theorem merkle_proof_complete:
  assumes "i < length hashes"
  shows "verify_merkle_proof L (hashes ! i) (compute_merkle_proof L hashes (int i))
           (compute_merkle_root L hashes)"
proof -
  have "hashes \<noteq> []" using assms by auto
  then show ?thesis
    using proof_climb_complete [OF assms, of L]
    by (simp add: verify_merkle_proof_def compute_merkle_proof_climb merkle_root_climb)
qed

theorem merkle_proof_complete_witness:
  "verify_merkle_proof ref_lib ([''a'', ''b'', ''c''] ! 2)
     (compute_merkle_proof ref_lib [''a'', ''b'', ''c''] (int 2))
     (compute_merkle_root ref_lib [''a'', ''b'', ''c''])"
  by (rule merkle_proof_complete) simp

text \<open>
  C6. A proof with the shape of the genuine one (the same left/right pattern) that is accepted
  for a hash at index \<open>i\<close> is a proof for the hash that the list holds there: the checked hash
  and every sibling hash are the genuine ones, unless two of the strings hashed in the two checks collide.
\<close>

theorem merkle_proof_sound:
  assumes "lib_ok L" and "hex_hashes hashes" and "i < length hashes"
    and "hex_hashes (h # map ps_hash p)"
    and "map ps_position p = map ps_position (compute_merkle_proof L hashes (int i))"
    and "verify_merkle_proof L h p (compute_merkle_root L hashes)"
  shows "(h = hashes ! i \<and> map ps_hash p = map ps_hash (compute_merkle_proof L hashes (int i)))
         \<or> collision_in L (proof_inputs L p h \<union> proof_inputs L (compute_merkle_proof L hashes (int i)) (hashes ! i))"
proof (rule proof_fold_bind)
  show "fold (proof_apply L) p h = fold (proof_apply L) (compute_merkle_proof L hashes (int i)) (hashes ! i)"
    using assms(3,6) proof_climb_complete [OF assms(3), of L]
    by (cases hashes) (auto simp: verify_merkle_proof_def compute_merkle_proof_climb merkle_root_climb)
  show "hex_hashes (hashes ! i # map ps_hash (compute_merkle_proof L hashes (int i)))"
    using proof_climb_hashes [OF assms(1,2)] assms(2,3)
    by (simp add: compute_merkle_proof_climb hex_hashes_def)
qed (use assms in simp_all)

theorem merkle_proof_sound_witness:
  "replicate 64 (CHR ''b'') = [replicate 64 (CHR ''a''), replicate 64 (CHR ''b'')] ! 1 \<and>
    map ps_hash [\<lparr>ps_hash = replicate 64 (CHR ''a''), ps_position = ''left''\<rparr>] =
    map ps_hash (compute_merkle_proof ref_lib [replicate 64 (CHR ''a''), replicate 64 (CHR ''b'')] (int 1))"
proof -
  let ?p = "[\<lparr>ps_hash = replicate 64 (CHR ''a''), ps_position = ''left''\<rparr>]"
  let ?hs = "[replicate 64 (CHR ''a''), replicate 64 (CHR ''b'')]"
  have genuine: "compute_merkle_proof ref_lib ?hs (int 1) = ?p"
    by (simp add: compute_merkle_proof_climb proof_climb_step proof_climb_short)
  have accepted: "verify_merkle_proof ref_lib (replicate 64 (CHR ''b'')) ?p (compute_merkle_root ref_lib ?hs)"
    by (simp add: verify_merkle_proof_def proof_apply_def merkle_root_climb climb_step node_hash_def)
  show ?thesis
    using merkle_proof_sound [OF ref_lib_ok, of ?hs 1 "replicate 64 (CHR ''b'')" ?p] accepted genuine by simp
qed

text \<open>
  C7. Two lists of chunk hashes of one length with the same Merkle root are the same list,
  unless two of the strings hashed in the two trees collide: the root commits to every chunk and to the order of the chunks.
\<close>

theorem merkle_root_binding:
  assumes "lib_ok L" and "length xs = length ys" and "hex_hashes xs" and "hex_hashes ys"
    and "compute_merkle_root L xs = compute_merkle_root L ys"
  shows "xs = ys \<or> collision_in L (tree_inputs L xs \<union> tree_inputs L ys)"
proof (cases "xs = []")
  case False
  then have "ys \<noteq> []" using assms(2) by auto
  with False show ?thesis
    using climb_bind [of L xs ys] assms by (simp add: merkle_root_climb)
qed (use assms in simp)

text \<open>
  Two lists that differ in their second hash and have one root in the small instance, whose hash function is easy to
  collide: the theorem finds the colliding strings. And two lists of which it shows that their roots differ.
\<close>

theorem merkle_root_binding_witness:
  "collision_in ref_lib
     (tree_inputs ref_lib [replicate 64 (CHR ''a''), replicate 61 (CHR ''a'') @ ''eaf''] \<union>
      tree_inputs ref_lib [replicate 64 (CHR ''a''), replicate 61 (CHR ''a'') @ ''faa'']) \<and>
   compute_merkle_root ref_lib [replicate 64 (CHR ''a''), replicate 64 (CHR ''a'')] \<noteq>
     compute_merkle_root ref_lib [replicate 64 (CHR ''a''), replicate 63 (CHR ''a'') @ ''b'']"
proof (intro conjI notI)
  let ?xs = "[replicate 64 (CHR ''a''), replicate 61 (CHR ''a'') @ ''eaf'']"
    and ?ys = "[replicate 64 (CHR ''a''), replicate 61 (CHR ''a'') @ ''faa'']"
  have "compute_merkle_root ref_lib ?xs = compute_merkle_root ref_lib ?ys" by code_simp
  from merkle_root_binding [OF ref_lib_ok _ _ _ this]
  show "collision_in ref_lib (tree_inputs ref_lib ?xs \<union> tree_inputs ref_lib ?ys)" by simp
next
  let ?xs = "[replicate 64 (CHR ''a''), replicate 64 (CHR ''a'')]" and ?ys = "[replicate 64 (CHR ''a''), replicate 63 (CHR ''a'') @ ''b'']"
  assume "compute_merkle_root ref_lib ?xs = compute_merkle_root ref_lib ?ys"
  moreover have "replicate 64 (CHR ''a'') \<noteq> replicate 63 (CHR ''a'') @ ''b''" by code_simp
  ultimately have "collision_in ref_lib (tree_inputs ref_lib ?xs \<union> tree_inputs ref_lib ?ys)"
    using merkle_root_binding [OF ref_lib_ok, of ?xs ?ys] by simp
  moreover have "tree_inputs ref_lib ?xs \<union> tree_inputs ref_lib ?ys =
      {encode (replicate 64 (CHR ''a'') @ replicate 64 (CHR ''a'')), encode (replicate 64 (CHR ''a'') @ replicate 63 (CHR ''a'') @ ''b'')}"
    by (auto simp: tree_inputs.simps)
  moreover have "sha256 ref_lib (encode (replicate 64 (CHR ''a'') @ replicate 64 (CHR ''a''))) \<noteq>
      sha256 ref_lib (encode (replicate 64 (CHR ''a'') @ replicate 63 (CHR ''a'') @ ''b''))" by code_simp
  ultimately show False by (simp add: collision_two)
qed

text \<open>
  The root does not commit to the number of chunks: repeating the last hash of a list of odd
  length (three or more) gives a longer list with the same root.
\<close>

theorem merkle_root_repeat_last:
  assumes "odd (length xs)" and "1 < length xs"
  shows "compute_merkle_root L (xs @ [last xs]) = compute_merkle_root L xs"
proof -
  have xs: "xs \<noteq> []" using assms(2) by auto
  then have "compute_merkle_root L (xs @ [last xs]) = climb L (next_level L (xs @ [last xs]))"
    using climb_step [of "xs @ [last xs]" L] by (simp add: merkle_root_climb Suc_le_eq)
  also have "\<dots> = climb L (next_level L xs)"
    using assms(1) by (simp add: next_level_repeat_last)
  also have "\<dots> = compute_merkle_root L xs"
    using climb_step [OF assms(2), of L] xs by (simp add: merkle_root_climb)
  finally show ?thesis .
qed

theorem merkle_root_repeat_last_witness:
  "compute_merkle_root ref_lib ([''a'', ''b'', ''c''] @ [last [''a'', ''b'', ''c'']])
   = compute_merkle_root ref_lib [''a'', ''b'', ''c'']"
  by (rule merkle_root_repeat_last) simp_all

end
