(* ===== verification/Manifest.thy ===== *)
theory Manifest
  imports Merkle
begin

section \<open>File manifests (backend/file\_engine/chunker.py, lines 33 to 57 and 110 to 176)\<close>

text \<open>
  The two data classes, their conversion to and from the dictionary that travels over HTTP and
  into the database, and the choice of the chunk size. The dictionary is modelled key by key:
  a field of \<open>manifest_dict\<close> is \<open>None\<close> where the key is absent. Values have the types the data
  classes annotate; dictionaries that carry another JSON type under a key are outside the model.
\<close>

definition DEFAULT_CHUNK_SIZE :: int where "DEFAULT_CHUNK_SIZE = 262144"

definition CHUNK_256KB :: int where "CHUNK_256KB = 262144"
definition CHUNK_1MB :: int where "CHUNK_1MB = 1048576"
definition CHUNK_4MB :: int where "CHUNK_4MB = 4194304"
definition TIER_50MB :: int where "TIER_50MB = 50 * 1024 * 1024"
definition TIER_500MB :: int where "TIER_500MB = 500 * 1024 * 1024"

lemmas tier_defs = CHUNK_256KB_def CHUNK_1MB_def CHUNK_4MB_def TIER_50MB_def TIER_500MB_def

definition get_optimal_chunk_size :: "int \<Rightarrow> int" where
  "get_optimal_chunk_size file_size_bytes =
     (if file_size_bytes < TIER_50MB then CHUNK_256KB
      else if file_size_bytes < TIER_500MB then CHUNK_1MB
      else CHUNK_4MB)"

subsection \<open>The data classes\<close>

record chunk_info =
  ci_index :: int
  ci_hash :: string
  ci_size :: int
  ci_encrypted :: bool

record file_manifest =
  original_filename :: string
  original_size :: int
  file_hash :: string
  chunk_size :: int
  merkle_root :: string
  compression :: string
  chunks :: "chunk_info list"

text \<open>The constructor call with its defaults.\<close>

definition new_manifest :: "string \<Rightarrow> int \<Rightarrow> string \<Rightarrow> int \<Rightarrow> file_manifest" where
  "new_manifest name sz fh cs =
     \<lparr>original_filename = name, original_size = sz, file_hash = fh, chunk_size = cs,
      merkle_root = [], compression = [], chunks = []\<rparr>"

record chunk_dict =
  cd_index :: "int option"
  cd_chunk_hash :: "string option"
  cd_size :: "int option"
  cd_encrypted :: "bool option"

record manifest_dict =
  md_version :: "int option"
  md_file_hash :: "string option"
  md_original_filename :: "string option"
  md_original_size :: "int option"
  md_chunk_size :: "int option"
  md_merkle_root :: "string option"
  md_compression :: "string option"
  md_chunk_count :: "int option"
  md_chunks :: "chunk_dict list option"

definition chunk_to_dict :: "chunk_info \<Rightarrow> chunk_dict" where
  "chunk_to_dict c =
     \<lparr>cd_index = Some (ci_index c), cd_chunk_hash = Some (ci_hash c),
      cd_size = Some (ci_size c), cd_encrypted = Some (ci_encrypted c)\<rparr>"

definition to_dict :: "file_manifest \<Rightarrow> manifest_dict" where
  "to_dict m =
     \<lparr>md_version = Some 2,
      md_file_hash = Some (file_hash m),
      md_original_filename = Some (original_filename m),
      md_original_size = Some (original_size m),
      md_chunk_size = Some (chunk_size m),
      md_merkle_root = Some (merkle_root m),
      md_compression = Some (compression m),
      md_chunk_count = Some (int (length (chunks m))),
      md_chunks = Some (map chunk_to_dict (chunks m))\<rparr>"

text \<open>\<^verbatim>\<open>d[k]\<close> raises \<^verbatim>\<open>KeyError\<close> on an absent key; \<^verbatim>\<open>d.get(k, v)\<close> is \<open>get_or\<close>.\<close>

definition item :: "string \<Rightarrow> 'a option \<Rightarrow> 'a res" where
  "item key v = (case v of None \<Rightarrow> Inl (KeyError key) | Some x \<Rightarrow> Inr x)"

definition get_or :: "'a \<Rightarrow> 'a option \<Rightarrow> 'a" where
  "get_or dflt v = (case v of None \<Rightarrow> dflt | Some x \<Rightarrow> x)"

lemma item_simps [simp, res_simps]:
  "item key None = Inl (KeyError key)" "item key (Some x) = Inr x"
  "item key v = Inr y \<longleftrightarrow> v = Some y"
  by (auto simp: item_def split: option.splits)

lemma get_or_simps [simp]: "get_or d None = d" "get_or d (Some x) = x"
  by (simp_all add: get_or_def)

definition chunk_from_dict :: "chunk_dict \<Rightarrow> chunk_info res" where
  "chunk_from_dict c =
     bindr (item ''index'' (cd_index c)) (\<lambda>i.
     bindr (item ''chunk_hash'' (cd_chunk_hash c)) (\<lambda>h.
     bindr (item ''size'' (cd_size c)) (\<lambda>s.
     Inr \<lparr>ci_index = i, ci_hash = h, ci_size = s, ci_encrypted = get_or False (cd_encrypted c)\<rparr>)))"

definition from_dict :: "lib \<Rightarrow> manifest_dict \<Rightarrow> file_manifest res" where
  "from_dict L d =
     bindr (item ''original_filename'' (md_original_filename d)) (\<lambda>name.
     bindr (item ''original_size'' (md_original_size d)) (\<lambda>size.
     bindr (item ''file_hash'' (md_file_hash d)) (\<lambda>fh.
     bindr (mapr chunk_from_dict (get_or [] (md_chunks d))) (\<lambda>cs.
       let root = get_or [] (md_merkle_root d);
           m = \<lparr>original_filename = name, original_size = size, file_hash = fh,
                chunk_size = get_or DEFAULT_CHUNK_SIZE (md_chunk_size d),
                merkle_root = root, compression = get_or [] (md_compression d), chunks = cs\<rparr>
       in Inr (if root = [] \<and> cs \<noteq> []
               then m\<lparr>merkle_root := compute_merkle_root L (map ci_hash cs)\<rparr>
               else m)))))"

definition verify_chunk :: "file_manifest \<Rightarrow> int \<Rightarrow> string \<Rightarrow> bool" where
  "verify_chunk m index chunk_data_hash =
     (if index < 0 \<or> index \<ge> int (length (chunks m)) then False
      else ci_hash (chunks m ! nat index) = chunk_data_hash)"

definition get_merkle_proof :: "lib \<Rightarrow> file_manifest \<Rightarrow> int \<Rightarrow> proof_step list" where
  "get_merkle_proof L m index = compute_merkle_proof L (map ci_hash (chunks m)) index"

subsection \<open>Round trips\<close>

lemma chunk_from_to_dict [simp]: "chunk_from_dict (chunk_to_dict c) = Inr c"
  by (simp add: chunk_from_dict_def chunk_to_dict_def)

lemma chunks_from_to_dict [simp]: "mapr chunk_from_dict (map chunk_to_dict cs) = Inr cs"
  by (induction cs) simp_all

text \<open>The manifest that a reader of the dictionary sees: an empty Merkle root is filled in.\<close>

definition with_root :: "lib \<Rightarrow> file_manifest \<Rightarrow> file_manifest" where
  "with_root L m =
     (if merkle_root m = [] \<and> chunks m \<noteq> []
      then m\<lparr>merkle_root := compute_merkle_root L (map ci_hash (chunks m))\<rparr> else m)"

lemma from_to_dict: "from_dict L (to_dict m) = Inr (with_root L m)"
  by (simp add: from_dict_def to_dict_def with_root_def Let_def)

lemma with_root_fields [simp]:
  "original_filename (with_root L m) = original_filename m"
  "original_size (with_root L m) = original_size m"
  "file_hash (with_root L m) = file_hash m"
  "chunk_size (with_root L m) = chunk_size m"
  "compression (with_root L m) = compression m"
  "chunks (with_root L m) = chunks m"
  by (simp_all add: with_root_def)

lemma from_dict_raises: "from_dict L d = Inl e \<Longrightarrow> \<exists>k. e = KeyError k"
  by (auto simp: from_dict_def chunk_from_dict_def Let_def res_simps item_def
      dest!: mapr_Inl_ex split: option.splits if_splits)

text \<open>The fields a successful read copies from the dictionary.\<close>

lemma from_dict_Inr:
  assumes "from_dict L d = Inr m"
  shows "md_file_hash d = Some (file_hash m)" "md_original_size d = Some (original_size m)"
    "md_original_filename d = Some (original_filename m)"
    "compression m = get_or [] (md_compression d)"
    "mapr chunk_from_dict (get_or [] (md_chunks d)) = Inr (chunks m)"
  using assms by (auto simp: from_dict_def Let_def bindr_eq_Inr split: if_splits)

lemma get_optimal_chunk_size_values:
  "get_optimal_chunk_size n \<in> {CHUNK_256KB, CHUNK_1MB, CHUNK_4MB}"
  by (simp add: get_optimal_chunk_size_def)

lemma get_optimal_chunk_size_pos [simp]: "0 < get_optimal_chunk_size n"
  by (simp add: get_optimal_chunk_size_def tier_defs)

lemma get_optimal_chunk_size_mono: "m \<le> n \<Longrightarrow> get_optimal_chunk_size m \<le> get_optimal_chunk_size n"
  by (auto simp: get_optimal_chunk_size_def tier_defs)

end
