(* ===== verification/Codec.thy ===== *)
theory Codec
  imports Crypto
begin

section \<open>Chunk codecs: what the two directions of the file engine promise each other\<close>

text \<open>
  The chunker turns a raw chunk into stored bytes (compress, then possibly encrypt with a fresh
  nonce) and the merger turns stored bytes back. The locale \<open>chunk_codec\<close> is that interface:
  \<open>enc c n raw\<close> is the stored form under context \<open>c\<close> and nonce \<open>n\<close>, \<open>dec c\<close> the way back, and
  the law says that a stored chunk opens to what went in. Its lemmas are about whole batches
  and are used for the four codecs of the code, which are its interpretations.
\<close>

locale chunk_codec =
  fixes ok :: "'c \<Rightarrow> bool"
    and nonce_ok :: "'n \<Rightarrow> bool"
    and enc :: "'c \<Rightarrow> 'n \<Rightarrow> bytes \<Rightarrow> bytes"
    and dec :: "'c \<Rightarrow> bytes \<Rightarrow> bytes res"
  assumes dec_enc: "ok c \<Longrightarrow> nonce_ok n \<Longrightarrow> dec c (enc c n raw) = Inr raw"
begin

lemma dec_all:
  "ok c \<Longrightarrow> length ns = length raws \<Longrightarrow> \<forall>n \<in> set ns. nonce_ok n \<Longrightarrow>
   mapr (dec c) (map2 (enc c) ns raws) = Inr raws"
proof (induction ns arbitrary: raws)
  case Nil
  then show ?case by simp
next
  case (Cons n ns)
  then show ?case by (cases raws) (simp_all add: dec_enc)
qed

lemma dec_all_via:
  assumes "ok c" and "length ns = length raws" and "\<forall>n \<in> set ns. nonce_ok n"
    and "\<And>e. e \<in> set (map2 (enc c) ns raws) \<Longrightarrow> f e = dec c e"
  shows "mapr f (map2 (enc c) ns raws) = Inr raws"
proof -
  have "mapr f (map2 (enc c) ns raws) = mapr (dec c) (map2 (enc c) ns raws)"
    by (rule mapr_cong [OF refl]) (rule assms(4))
  then show ?thesis using dec_all [OF assms(1-3)] by (rule trans)
qed

lemma enc_inj:
  "ok c \<Longrightarrow> nonce_ok n \<Longrightarrow> nonce_ok n' \<Longrightarrow> enc c n a = enc c n' b \<Longrightarrow> a = b"
  using dec_enc [of c n a] dec_enc [of c n' b] by simp

end

subsection \<open>The codecs of the code\<close>

text \<open>Unencrypted: \<^verbatim>\<open>compressor.compress\<close> and \<^verbatim>\<open>decompressor.decompress\<close>.\<close>

definition plain_enc :: "lib \<Rightarrow> unit \<Rightarrow> bytes \<Rightarrow> bytes" where
  "plain_enc L n raw = zstd_compress L raw"

interpretation plain: chunk_codec lib_ok "\<lambda>_. True" plain_enc zdecompress
  by unfold_locales (simp add: plain_enc_def crypto_simps)

text \<open>Encrypted with one key for the file: \<open>worker_encrypt_keyed\<close> and \<open>worker_decrypt_keyed\<close>.\<close>

definition keyed_ok :: "lib \<times> bytes \<times> bytes \<Rightarrow> bool" where
  "keyed_ok = (\<lambda>(L, key, salt). lib_ok L \<and> length key \<in> set aes_key_sizes \<and> length salt = SALT_SIZE)"

definition nonce_size_ok :: "bytes \<Rightarrow> bool" where
  "nonce_size_ok n \<longleftrightarrow> length n = NONCE_SIZE"

definition keyed_enc :: "lib \<times> bytes \<times> bytes \<Rightarrow> bytes \<Rightarrow> bytes \<Rightarrow> bytes" where
  "keyed_enc = (\<lambda>(L, key, salt) n raw. seal L key salt n (zstd_compress L raw))"

definition keyed_dec :: "lib \<times> bytes \<times> bytes \<Rightarrow> bytes \<Rightarrow> bytes res" where
  "keyed_dec = (\<lambda>(L, key, salt) e. worker_decrypt_keyed L e key)"

interpretation keyed: chunk_codec keyed_ok nonce_size_ok keyed_enc keyed_dec
  by unfold_locales
    (auto simp: keyed_ok_def keyed_enc_def keyed_dec_def nonce_size_ok_def worker_decrypt_keyed_def
      crypto_simps)

text \<open>The same without compression, for files from before compression was introduced.\<close>

definition keyed_raw_enc :: "lib \<times> bytes \<times> bytes \<Rightarrow> bytes \<Rightarrow> bytes \<Rightarrow> bytes" where
  "keyed_raw_enc = (\<lambda>(L, key, salt) n raw. seal L key salt n raw)"

definition keyed_raw_dec :: "lib \<times> bytes \<times> bytes \<Rightarrow> bytes \<Rightarrow> bytes res" where
  "keyed_raw_dec = (\<lambda>(L, key, salt) e. worker_decrypt_keyed_nocompress L e key)"

interpretation keyed_raw: chunk_codec keyed_ok nonce_size_ok keyed_raw_enc keyed_raw_dec
  by unfold_locales
    (auto simp: keyed_ok_def keyed_raw_enc_def keyed_raw_dec_def nonce_size_ok_def
      worker_decrypt_keyed_nocompress_def crypto_simps)

text \<open>Encrypted chunk by chunk with a fresh salt: \<open>encrypt\<close> and \<open>decrypt\<close>.\<close>

definition password_ok :: "lib \<times> string \<Rightarrow> bool" where
  "password_ok = (\<lambda>(L, pw). lib_ok L)"

definition salt_nonce_ok :: "bytes \<times> bytes \<Rightarrow> bool" where
  "salt_nonce_ok = (\<lambda>(salt, n). length salt = SALT_SIZE \<and> length n = NONCE_SIZE)"

definition password_enc :: "lib \<times> string \<Rightarrow> bytes \<times> bytes \<Rightarrow> bytes \<Rightarrow> bytes" where
  "password_enc = (\<lambda>(L, pw) (salt, n) raw. seal L (key_for L pw salt) salt n raw)"

definition password_dec :: "lib \<times> string \<Rightarrow> bytes \<Rightarrow> bytes res" where
  "password_dec = (\<lambda>(L, pw) e. decrypt L e pw)"

interpretation password: chunk_codec password_ok salt_nonce_ok password_enc password_dec
  by unfold_locales
    (auto simp: password_ok_def salt_nonce_ok_def password_enc_def password_dec_def crypto_simps)

lemma keyed_ok_for: "lib_ok L \<Longrightarrow> length salt = SALT_SIZE \<Longrightarrow> keyed_ok (L, key_for L pw salt, salt)"
  by (simp add: keyed_ok_def key_for_size)

lemma encrypt_fresh:
  assumes "lib_ok L"
  shows "encrypt L data pw r =
    (let (s, r1) = urandom SALT_SIZE r; (n, r2) = urandom NONCE_SIZE r1
     in (Inr (seal L (key_for L pw s) s n data), r2))"
  using assms
  by (simp add: encrypt_def derive_key_fresh encrypt_with_key_seal key_for_size split: prod.splits)

lemma encrypt_password_enc:
  assumes "lib_ok L"
  shows "\<exists>n. salt_nonce_ok n \<and> fst (encrypt L data pw r) = Inr (password_enc (L, pw) n data)"
  using assms
  by (intro exI [of _ "(fst (urandom SALT_SIZE r), fst (urandom NONCE_SIZE (snd (urandom SALT_SIZE r))))"])
    (simp add: encrypt_def derive_key_fresh encrypt_with_key_seal key_for_size salt_nonce_ok_def
      password_enc_def)

lemma encrypt_all_keyed:
  assumes "keyed_ok (L, key, salt)"
  shows "\<exists>nonces r'. length nonces = length cs \<and> (\<forall>n \<in> set nonces. nonce_size_ok n) \<and>
     encrypt_all L key salt cs r =
       (Inr (map (\<lambda>e. (e, sha256 L e)) (map2 (keyed_enc (L, key, salt)) nonces cs)), r')"
proof (induction cs arbitrary: r)
  case Nil
  show ?case by simp
next
  case (Cons c cs)
  let ?n = "fst (urandom NONCE_SIZE r)"
  obtain nonces r' where IH: "length nonces = length cs" "\<forall>n \<in> set nonces. nonce_size_ok n"
    "encrypt_all L key salt cs (snd (urandom NONCE_SIZE r)) =
       (Inr (map (\<lambda>e. (e, sha256 L e)) (map2 (keyed_enc (L, key, salt)) nonces cs)), r')"
    using Cons.IH by blast
  have "worker_encrypt_keyed L c key salt r =
      (Inr (keyed_enc (L, key, salt) ?n c, sha256 L (keyed_enc (L, key, salt) ?n c)),
       snd (urandom NONCE_SIZE r))"
    using assms
    by (simp add: worker_encrypt_keyed_def hashed_def encrypt_with_key_seal keyed_ok_def keyed_enc_def)
  with IH show ?case
    by (intro exI [of _ "?n # nonces"] exI [of _ r']) (simp add: nonce_size_ok_def)
qed

subsection \<open>Properties\<close>

text \<open>
  C8. Encrypting a chunk under a password and decrypting the result under the same password
  gives the chunk back, for every random source; the ciphertext is 45 bytes longer than the chunk.
\<close>

theorem encrypt_decrypt_roundtrip:
  assumes "lib_ok L"
  shows "\<exists>ct. fst (encrypt L data pw r) = Inr ct \<and> length ct = HEADER_SIZE + length data \<and>
           decrypt L ct pw = Inr data"
proof -
  obtain n where n: "salt_nonce_ok n" "fst (encrypt L data pw r) = Inr (password_enc (L, pw) n data)"
    using encrypt_password_enc [OF assms] by blast
  moreover have "decrypt L (password_enc (L, pw) n data) pw = Inr data"
    using password.dec_enc [of "(L, pw)" n data] assms n(1) by (simp add: password_ok_def password_dec_def)
  moreover have "length (password_enc (L, pw) n data) = HEADER_SIZE + length data"
    using assms n(1)
    by (auto simp: password_enc_def salt_nonce_ok_def seal_length key_for_size split: prod.splits)
  ultimately show ?thesis by blast
qed

theorem encrypt_decrypt_roundtrip_witness:
  "\<exists>ct. fst (encrypt ref_lib [1, 2, 3] ''pw'' (\<lambda>i. of_nat i, 0)) = Inr ct \<and>
     length ct = HEADER_SIZE + length [1, 2, 3 :: byte] \<and> decrypt ref_lib ct ''pw'' = Inr [1, 2, 3]"
  by (rule encrypt_decrypt_roundtrip [OF ref_lib_ok])

text \<open>
  The parallel batch: what \<^verbatim>\<open>encrypt_chunks_parallel\<close> returns for a list of chunks is,
  per chunk and in order, a ciphertext and its SHA-256, and \<^verbatim>\<open>decrypt_chunks_parallel\<close>, which
  derives the key once from the salt of the first chunk, recovers the whole list.
\<close>

theorem parallel_batch_roundtrip:
  assumes "lib_ok L"
  shows "\<exists>out. fst (encrypt_chunks_parallel L cs pw r) = Inr out \<and>
           map snd out = map (sha256 L) (map fst out) \<and>
           decrypt_chunks_parallel L (map fst out) pw True = Inr cs"
proof -
  let ?salt = "fst (urandom SALT_SIZE r)"
  let ?c = "(L, key_for L pw ?salt, ?salt)"
  have ok: "keyed_ok ?c" using assms by (simp add: keyed_ok_for)
  obtain nonces r' where ns: "length nonces = length cs" "\<forall>n \<in> set nonces. nonce_size_ok n"
    and out: "encrypt_all L (key_for L pw ?salt) ?salt cs (snd (urandom SALT_SIZE r)) =
       (Inr (map (\<lambda>e. (e, sha256 L e)) (map2 (keyed_enc ?c) nonces cs)), r')"
    using encrypt_all_keyed [OF ok] by blast
  let ?out = "map (\<lambda>e. (e, sha256 L e)) (map2 (keyed_enc ?c) nonces cs)"
  have cts: "map fst ?out = map2 (keyed_enc ?c) nonces cs" by (rule fst_tagged)
  have "decrypt_chunks_parallel L (map fst ?out) pw True = Inr cs"
  proof (cases cs)
    case Nil
    then show ?thesis by (simp add: decrypt_chunks_parallel_def)
  next
    case (Cons c cs')
    then obtain n ns' where n: "nonces = n # ns'" using ns(1) by (cases nonces) auto
    have "py_slice 1 (1 + SALT_SIZE) (keyed_enc ?c n c) = ?salt"
      by (simp add: keyed_enc_def seal_salt [simplified])
    then have "decrypt_chunks_parallel L (map2 (keyed_enc ?c) nonces cs) pw True =
        mapr (keyed_dec ?c) (map2 (keyed_enc ?c) nonces cs)"
      by (simp add: decrypt_chunks_parallel_def keyed_dec_def Cons n Let_def)
    then show ?thesis using keyed.dec_all [OF ok ns] by (simp only: cts)
  qed
  moreover have "fst (encrypt_chunks_parallel L cs pw r) = Inr ?out"
    by (simp add: encrypt_chunks_parallel_def derive_key_fresh out)
  ultimately show ?thesis
    by (intro exI [of _ ?out] conjI) (simp_all only: cts snd_tagged)
qed

theorem parallel_batch_roundtrip_witness:
  "\<exists>out. fst (encrypt_chunks_parallel ref_lib [[1, 2], [3]] ''pw'' (\<lambda>i. of_nat i, 7)) = Inr out \<and>
     map snd out = map (sha256 ref_lib) (map fst out) \<and>
     decrypt_chunks_parallel ref_lib (map fst out) ''pw'' True = Inr [[1, 2], [3]]"
  by (rule parallel_batch_roundtrip [OF ref_lib_ok])

end
