(* ===== verification/Chunker.thy ===== *)
theory Chunker
  imports Manifest Codec
begin

section \<open>Chunking and merging (backend/file\_engine/chunker.py, lines 179 to 482)\<close>

text \<open>
  Reading a file chunk by chunk, the streaming file hash, the two chunkers and the two mergers.
  A file system is a map from paths to contents; \<^verbatim>\<open>hashlib\<close>'s incremental hasher is the
  bytes fed to it so far, which is what the library documents for repeated updates.
\<close>

type_synonym filesys = "string \<Rightarrow> bytes option"

text \<open>\<^verbatim>\<open>Path(p).name\<close> for the path of a regular file.\<close>

definition path_name :: "string \<Rightarrow> string" where
  "path_name p = rev (takeWhile (\<lambda>c. c \<noteq> CHR ''/'') (rev p))"

subsection \<open>Reading in blocks\<close>

text \<open>\<^verbatim>\<open>f.read(n)\<close>: at most \<open>n\<close> bytes, or the rest of the file when \<open>n\<close> is negative.\<close>

definition fread :: "int \<Rightarrow> bytes \<Rightarrow> bytes \<times> bytes" where
  "fread n rest = (if n < 0 then (rest, []) else (take (nat n) rest, drop (nat n) rest))"

lemma fread_append: "fread n rest = (c, rest') \<Longrightarrow> rest = c @ rest'"
  by (auto simp: fread_def split: if_splits)

lemma fread_shrinks: "fread n rest = (c, rest') \<Longrightarrow> c \<noteq> [] \<Longrightarrow> length rest' < length rest"
  by (drule fread_append) simp

function stream_chunks :: "int \<Rightarrow> int \<Rightarrow> bytes \<Rightarrow> (int \<times> bytes) list" where
  "stream_chunks n idx rest =
     (let (chunk, rest') = fread n rest
      in if chunk = [] then [] else (idx, chunk) # stream_chunks n (idx + 1) rest')"
  by pat_completeness auto
termination
  by (relation "measure (\<lambda>(n, idx, rest). length rest)") (auto dest: fread_shrinks [OF sym])

declare stream_chunks.simps [simp del]

text \<open>The non-blocking reader collects the same pairs in a list.\<close>

function async_read_file_chunks :: "int \<Rightarrow> int \<Rightarrow> (int \<times> bytes) list \<Rightarrow> bytes \<Rightarrow> (int \<times> bytes) list" where
  "async_read_file_chunks n idx results rest =
     (let (chunk, rest') = fread n rest
      in if chunk = [] then results
         else async_read_file_chunks n (idx + 1) (results @ [(idx, chunk)]) rest')"
  by pat_completeness auto
termination
  by (relation "measure (\<lambda>(n, idx, results, rest). length rest)") (auto dest: fread_shrinks [OF sym])

declare async_read_file_chunks.simps [simp del]

text \<open>\<open>acc\<close> is what \<^verbatim>\<open>h.update\<close> has been fed.\<close>

function hash_blocks :: "lib \<Rightarrow> bytes \<Rightarrow> bytes \<Rightarrow> string" where
  "hash_blocks L acc rest =
     (let (block, rest') = fread 65536 rest
      in if block = [] then sha256 L acc else hash_blocks L (acc @ block) rest')"
  by pat_completeness auto
termination
  by (relation "measure (\<lambda>(L, acc, rest). length rest)") (auto dest: fread_shrinks [OF sym])

declare hash_blocks.simps [simp del]

definition streaming_file_hash :: "lib \<Rightarrow> bytes \<Rightarrow> string" where
  "streaming_file_hash L content = hash_blocks L [] content"

subsection \<open>The chunker\<close>

type_synonym keysalt = "(bytes \<times> bytes) option"

definition make_chunk :: "lib \<Rightarrow> int \<Rightarrow> bytes \<Rightarrow> bool \<Rightarrow> chunk_info" where
  "make_chunk L idx chunk_bytes enc =
     \<lparr>ci_index = idx, ci_hash = sha256 L chunk_bytes, ci_size = int (length chunk_bytes),
      ci_encrypted = enc\<rparr>"

text \<open>
  The loop of \<^verbatim>\<open>chunk_file\<close>: compress, encrypt under the file's key if there is one, record
  the chunk. Its result pairs each \<^verbatim>\<open>ChunkInfo\<close> with the stored bytes.
\<close>

fun chunk_loop :: "lib \<Rightarrow> keysalt \<Rightarrow> (int \<times> bytes) list \<Rightarrow> rng \<Rightarrow> (chunk_info \<times> bytes) list res \<times> rng" where
  "chunk_loop L ks [] r = (Inr [], r)"
| "chunk_loop L ks ((idx, raw_bytes) # rest) r =
     (let compressed = zstd_compress L raw_bytes;
          (chunk_bytes, r1) =
            (case ks of Some (key, salt) \<Rightarrow> encrypt_with_key L compressed key salt r
             | None \<Rightarrow> (Inr compressed, r))
      in case chunk_bytes of
           Inl e \<Rightarrow> (Inl e, r1)
         | Inr b \<Rightarrow>
             let (xs, r2) = chunk_loop L ks rest r1
             in (bindr xs (\<lambda>ys. Inr ((make_chunk L idx b (ks \<noteq> None), b) # ys)), r2))"

definition chunk_file ::
    "lib \<Rightarrow> filesys \<Rightarrow> string \<Rightarrow> int \<Rightarrow> string option \<Rightarrow> rng \<Rightarrow> (file_manifest \<times> bytes list) res \<times> rng" where
  "chunk_file L fs file_path csize password r =
     (case fs file_path of
        None \<Rightarrow> (Inl (FileNotFoundError file_path), r)
      | Some content \<Rightarrow>
          let manifest = new_manifest (path_name file_path) (int (length content))
                           (streaming_file_hash L content) csize;
              (ks, r1) = (if truthy password
                          then let (k, r') = derive_key L (the password) None r in (Some k, r')
                          else (None, r));
              (out, r2) = chunk_loop L ks (stream_chunks csize 0 content) r1
          in (bindr out (\<lambda>xs.
                Inr (manifest\<lparr>chunks := map fst xs,
                              merkle_root := compute_merkle_root L (map (ci_hash \<circ> fst) xs),
                              compression := ''zstd''\<rparr>,
                     map snd xs)), r2))"

text \<open>
  \<^verbatim>\<open>chunk_file_streaming\<close> is a generator: it yields the manifest object, which grows between
  the yields, with the index and the bytes of the newest chunk. Every chunk is encrypted with a
  key and salt of its own, nothing is compressed, and the Merkle root is set after the last
  yield. The model returns the yields and the final manifest or the exception.
\<close>

fun streaming_loop ::
    "lib \<Rightarrow> string option \<Rightarrow> file_manifest \<Rightarrow> (int \<times> bytes) list \<Rightarrow> rng \<Rightarrow>
     (file_manifest \<times> int \<times> bytes) list \<times> file_manifest res \<times> rng" where
  "streaming_loop L password m [] r =
     ([], Inr (m\<lparr>merkle_root := compute_merkle_root L (map ci_hash (chunks m))\<rparr>), r)"
| "streaming_loop L password m ((idx, raw_bytes) # rest) r =
     (let (chunk_bytes, r1) =
            (if truthy password then encrypt L raw_bytes (the password) r else (Inr raw_bytes, r))
      in case chunk_bytes of
           Inl e \<Rightarrow> ([], Inl e, r1)
         | Inr b \<Rightarrow>
             let m' = m\<lparr>chunks := chunks m @ [make_chunk L idx b (truthy password)]\<rparr>;
                 (ys, fin, r2) = streaming_loop L password m' rest r1
             in ((m', idx, b) # ys, fin, r2))"

definition chunk_file_streaming ::
    "lib \<Rightarrow> filesys \<Rightarrow> string \<Rightarrow> int \<Rightarrow> string option \<Rightarrow> rng \<Rightarrow>
     (file_manifest \<times> int \<times> bytes) list \<times> file_manifest res \<times> rng" where
  "chunk_file_streaming L fs file_path csize password r =
     (case fs file_path of
        None \<Rightarrow> ([], Inl (FileNotFoundError file_path), r)
      | Some content \<Rightarrow>
          streaming_loop L password
            (new_manifest (path_name file_path) (int (length content))
               (streaming_file_hash L content) csize)
            (stream_chunks csize 0 content) r)"

subsection \<open>The mergers\<close>

text \<open>\<^verbatim>\<open>sorted(zip(manifest.chunks, chunk_data_list), key=lambda x: x[0].index)\<close>\<close>

definition ordered_chunks :: "file_manifest \<Rightarrow> bytes list \<Rightarrow> (chunk_info \<times> bytes) list" where
  "ordered_chunks m data = sort_key (\<lambda>x. ci_index (fst x)) (zip (chunks m) data)"

fun check_hashes :: "lib \<Rightarrow> (chunk_info \<times> bytes) list \<Rightarrow> string list res" where
  "check_hashes L [] = Inr []"
| "check_hashes L ((info, data) # rest) =
     (if sha256 L data \<noteq> ci_hash info
      then Inl (ValueError (ChunkHashMismatch (ci_index info) (ci_hash info) (sha256 L data)))
      else bindr (check_hashes L rest) (\<lambda>hs. Inr (sha256 L data # hs)))"

text \<open>The key derived once from the salt of the first chunk, if that chunk is encrypted.\<close>

definition file_key :: "lib \<Rightarrow> string option \<Rightarrow> (chunk_info \<times> bytes) list \<Rightarrow> bytes option" where
  "file_key L password ordered =
     (if truthy password \<and> ordered \<noteq> [] \<and> ci_encrypted (fst (hd ordered))
      then Some (key_for L (the password) (py_slice 1 (1 + SALT_SIZE) (snd (hd ordered))))
      else None)"

definition open_chunk ::
    "lib \<Rightarrow> string option \<Rightarrow> bytes option \<Rightarrow> bool \<Rightarrow> chunk_info \<times> bytes \<Rightarrow> bytes res" where
  "open_chunk L password dec_key use_zstd = (\<lambda>(info, data).
     bindr (if ci_encrypted info \<and> truthy password
            then (case dec_key of Some k \<Rightarrow> decrypt_with_key L data k
                  | None \<Rightarrow> decrypt L data (the password))
            else Inr data)
       (\<lambda>d. if use_zstd then zdecompress L d else Inr d))"

fun fill_buffer ::
    "(chunk_info \<times> bytes \<Rightarrow> bytes res) \<Rightarrow> (chunk_info \<times> bytes) list \<Rightarrow> bytes \<Rightarrow> nat \<Rightarrow> (bytes \<times> nat) res" where
  "fill_buffer opn [] buffer offset = Inr (buffer, offset)"
| "fill_buffer opn (x # rest) buffer offset =
     bindr (opn x) (\<lambda>d.
       fill_buffer opn rest (slice_assign offset (offset + length d) d buffer) (offset + length d))"

definition merge_chunks :: "lib \<Rightarrow> file_manifest \<Rightarrow> bytes list \<Rightarrow> string option \<Rightarrow> bytes res" where
  "merge_chunks L m data password =
     (let ordered = ordered_chunks m data
      in bindr (check_hashes L ordered) (\<lambda>received_hashes.
         if merkle_root m \<noteq> [] \<and> compute_merkle_root L received_hashes \<noteq> merkle_root m
         then Inl (ValueError (MerkleRootMismatch (merkle_root m) (compute_merkle_root L received_hashes)))
         else if original_size m < 0 then Inl (ValueError NegativeCount)
         else
           let opn = open_chunk L password (file_key L password ordered) (compression m = ''zstd'')
           in bindr (fill_buffer opn ordered (replicate (nat (original_size m)) 0) 0) (\<lambda>(buffer, offset).
                let result = take offset buffer
                in if sha256 L result \<noteq> file_hash m
                   then Inl (ValueError (IntegrityFailed (file_hash m) (sha256 L result)))
                   else Inr result)))"

text \<open>
  Writing to disk: the output file holds what was written before an exception. The hasher is
  updated with the same data, so its state is the content of the file.
\<close>

fun write_chunks ::
    "(chunk_info \<times> bytes \<Rightarrow> bytes res) \<Rightarrow> (chunk_info \<times> bytes) list \<Rightarrow> bytes \<Rightarrow> unit res \<times> bytes" where
  "write_chunks opn [] written = (Inr (), written)"
| "write_chunks opn (x # rest) written =
     (case opn x of Inl e \<Rightarrow> (Inl e, written) | Inr d \<Rightarrow> write_chunks opn rest (written @ d))"

definition merge_chunks_to_disk ::
    "lib \<Rightarrow> file_manifest \<Rightarrow> bytes list \<Rightarrow> string \<Rightarrow> string option \<Rightarrow> filesys \<Rightarrow> string res \<times> filesys" where
  "merge_chunks_to_disk L m data output_path password fs =
     (let ordered = ordered_chunks m data;
          opn = open_chunk L password (file_key L password ordered) (compression m = ''zstd'');
          (outcome, written) = write_chunks opn ordered [];
          fs' = fs(output_path \<mapsto> written)
      in case outcome of
           Inl e \<Rightarrow> (Inl e, fs')
         | Inr _ \<Rightarrow>
             if sha256 L written \<noteq> file_hash m
             then (Inl (ValueError (IntegrityFailed (file_hash m) (sha256 L written))),
                   fs'(output_path := None))
             else (Inr output_path, fs'))"

subsection \<open>What reading in blocks delivers\<close>

lemma stream_chunks_Nil [simp]: "stream_chunks n idx [] = []"
  by (simp add: stream_chunks.simps fread_def)

lemma fread_empty_iff: "n \<noteq> 0 \<Longrightarrow> fst (fread n rest) = [] \<longleftrightarrow> rest = []"
  by (auto simp: fread_def)

lemma stream_chunks_step:
  "n \<noteq> 0 \<Longrightarrow> rest \<noteq> [] \<Longrightarrow>
   stream_chunks n idx rest = (idx, fst (fread n rest)) # stream_chunks n (idx + 1) (snd (fread n rest))"
  using fread_empty_iff [of n rest]
  by (cases "fread n rest") (simp add: stream_chunks.simps [of n idx rest])

lemma stream_chunks_concat: "n \<noteq> 0 \<Longrightarrow> concat (map snd (stream_chunks n idx rest)) = rest"
proof (induction n idx rest rule: stream_chunks.induct)
  case (1 n idx rest)
  show ?case
  proof (cases "rest = []")
    case False
    obtain c rest' where fr: "fread n rest = (c, rest')" by fastforce
    with False "1.prems" have "c \<noteq> []" using fread_empty_iff [of n rest] by simp
    then have "concat (map snd (stream_chunks n (idx + 1) rest')) = rest'"
      using "1.IH" [OF fr [symmetric] refl] "1.prems" by simp
    with False "1.prems" fr show ?thesis
      by (simp add: stream_chunks_step fread_append [OF fr])
  qed simp
qed

lemma stream_chunks_index:
  "map fst (stream_chunks n idx rest) = map (\<lambda>k. idx + int k) [0..<length (stream_chunks n idx rest)]"
proof (induction n idx rest rule: stream_chunks.induct)
  case (1 n idx rest)
  obtain c rest' where fr: "fread n rest = (c, rest')" by fastforce
  show ?case
  proof (cases "c = []")
    case True
    then show ?thesis by (simp add: stream_chunks.simps [of n idx rest] fr)
  next
    case False
    have IH: "map fst (stream_chunks n (idx + 1) rest') =
        map (\<lambda>k. idx + int (Suc k)) [0..<length (stream_chunks n (idx + 1) rest')]"
      using "1.IH" [OF fr [symmetric] refl False] by (simp add: algebra_simps)
    have "stream_chunks n idx rest = (idx, c) # stream_chunks n (idx + 1) rest'"
      using False by (simp add: stream_chunks.simps [of n idx rest] fr)
    then show ?thesis
      by (simp add: IH upt_conv_Cons map_Suc_upt [symmetric] comp_def del: upt_Suc)
  qed
qed

lemma stream_chunks_sizes:
  assumes "0 < n" and "(i, c) \<in> set (stream_chunks n idx rest)"
  shows "c \<noteq> [] \<and> int (length c) \<le> n"
  using assms
proof (induction n idx rest rule: stream_chunks.induct)
  case (1 n idx rest)
  obtain d rest' where fr: "fread n rest = (d, rest')" by fastforce
  show ?case
  proof (cases "d = []")
    case True
    with "1.prems" show ?thesis by (simp add: stream_chunks.simps [of n idx rest] fr)
  next
    case False
    have "length d \<le> nat n" using fr "1.prems"(1) by (auto simp: fread_def split: if_splits)
    with "1.IH" [OF fr [symmetric] refl False] "1.prems" False show ?thesis
      by (auto simp: stream_chunks.simps [of n idx rest] fr)
  qed
qed

lemma async_read_stream: "async_read_file_chunks n idx results rest = results @ stream_chunks n idx rest"
proof (induction n idx results rest rule: async_read_file_chunks.induct)
  case (1 n idx results rest)
  obtain c rest' where fr: "fread n rest = (c, rest')" by fastforce
  show ?case
    using "1.IH" [OF fr [symmetric] refl]
    by (simp add: async_read_file_chunks.simps [of n idx results rest]
        stream_chunks.simps [of n idx rest] fr)
qed

lemma hash_blocks_sha: "hash_blocks L acc rest = sha256 L (acc @ rest)"
proof (induction L acc rest rule: hash_blocks.induct)
  case (1 L acc rest)
  obtain c rest' where fr: "fread 65536 rest = (c, rest')" by fastforce
  show ?case
  proof (cases "c = []")
    case True
    then have "rest = []" using fread_empty_iff [of 65536 rest] fr by simp
    then show ?thesis by (simp add: hash_blocks.simps [of L acc "[]"] fread_def)
  next
    case False
    then show ?thesis
      using "1.IH" [OF fr [symmetric] refl False]
      by (simp add: hash_blocks.simps [of L acc rest] fr) (simp add: fread_append [OF fr])
  qed
qed

lemma streaming_file_hash_sha [simp]: "streaming_file_hash L content = sha256 L content"
  by (simp add: streaming_file_hash_def hash_blocks_sha)

subsection \<open>What the mergers compute\<close>

lemma fill_buffer_concat:
  "offset \<le> length buffer \<Longrightarrow>
   bindr (fill_buffer opn xs buffer offset) (\<lambda>(b, n). Inr (take n b)) =
   bindr (mapr opn xs) (\<lambda>ds. Inr (take offset buffer @ concat ds))"
proof (induction xs arbitrary: buffer offset)
  case Nil
  then show ?case by simp
next
  case (Cons x xs)
  show ?case
  proof (cases "opn x")
    case (Inr d)
    have "bindr (fill_buffer opn xs (slice_assign offset (offset + length d) d buffer) (offset + length d))
            (\<lambda>(b, n). Inr (take n b)) =
          bindr (mapr opn xs) (\<lambda>ds. Inr ((take offset buffer @ d) @ concat ds))"
      using Cons.IH [of "offset + length d" "slice_assign offset (offset + length d) d buffer"]
        length_slice_assign [OF Cons.prems, of d] take_slice_assign [OF Cons.prems, of d]
      by simp
    then show ?thesis using Inr by (cases "mapr opn xs") simp_all
  qed simp
qed

lemma write_chunks_Inr:
  "mapr opn xs = Inr ds \<Longrightarrow> write_chunks opn xs w = (Inr (), w @ concat ds)"
  by (induction xs arbitrary: w ds) (auto simp: bindr_eq_Inr)

lemma write_chunks_Inl: "mapr opn xs = Inl e \<Longrightarrow> fst (write_chunks opn xs w) = Inl e"
  by (induction xs arbitrary: w) (auto simp: bindr_eq_Inl)

lemma check_hashes_Inr:
  "check_hashes L xs = Inr hs \<longleftrightarrow>
     (\<forall>(info, data) \<in> set xs. sha256 L data = ci_hash info) \<and> hs = map (sha256 L \<circ> snd) xs"
proof (induction xs arbitrary: hs)
  case (Cons x xs)
  then show ?case by (cases x) (auto simp: bindr_eq_Inr)
qed auto

definition chunk_opener ::
    "lib \<Rightarrow> file_manifest \<Rightarrow> bytes list \<Rightarrow> string option \<Rightarrow> chunk_info \<times> bytes \<Rightarrow> bytes res" where
  "chunk_opener L m data password =
     open_chunk L password (file_key L password (ordered_chunks m data)) (compression m = ''zstd'')"

text \<open>The buffer of \<^verbatim>\<open>merge_chunks\<close> is the concatenation of the opened chunks.\<close>

lemma merge_chunks_concat:
  "merge_chunks L m data password =
     bindr (check_hashes L (ordered_chunks m data)) (\<lambda>hs.
       if merkle_root m \<noteq> [] \<and> compute_merkle_root L hs \<noteq> merkle_root m
       then Inl (ValueError (MerkleRootMismatch (merkle_root m) (compute_merkle_root L hs)))
       else if original_size m < 0 then Inl (ValueError NegativeCount)
       else bindr (mapr (chunk_opener L m data password) (ordered_chunks m data)) (\<lambda>ds.
              if sha256 L (concat ds) \<noteq> file_hash m
              then Inl (ValueError (IntegrityFailed (file_hash m) (sha256 L (concat ds))))
              else Inr (concat ds)))"
proof -
  let ?xs = "ordered_chunks m data" and ?opn = "chunk_opener L m data password"
  let ?fin = "\<lambda>result. if sha256 L result \<noteq> file_hash m
      then Inl (ValueError (IntegrityFailed (file_hash m) (sha256 L result))) else Inr result"
  have "bindr (fill_buffer ?opn ?xs buf 0) (\<lambda>(b, n). ?fin (take n b))
      = bindr (bindr (fill_buffer ?opn ?xs buf 0) (\<lambda>(b, n). Inr (take n b))) ?fin" for buf
    by (cases "fill_buffer ?opn ?xs buf 0") auto
  also have "\<dots> buf = bindr (mapr ?opn ?xs) (\<lambda>ds. ?fin (concat ds))" for buf
    using fill_buffer_concat [of 0 buf ?opn ?xs] by (cases "mapr ?opn ?xs") simp_all
  finally have fill: "bindr (fill_buffer ?opn ?xs buf 0) (\<lambda>(b, n). ?fin (take n b))
      = bindr (mapr ?opn ?xs) (\<lambda>ds. ?fin (concat ds))" for buf .
  show ?thesis
    unfolding merge_chunks_def Let_def chunk_opener_def [symmetric] fill ..
qed

lemma merge_to_disk_concat:
  "merge_chunks_to_disk L m data out password fs =
     (case mapr (chunk_opener L m data password) (ordered_chunks m data) of
        Inl e \<Rightarrow> (Inl e, fs(out \<mapsto> snd (write_chunks (chunk_opener L m data password) (ordered_chunks m data) [])))
      | Inr ds \<Rightarrow>
          if sha256 L (concat ds) \<noteq> file_hash m
          then (Inl (ValueError (IntegrityFailed (file_hash m) (sha256 L (concat ds)))), fs(out := None))
          else (Inr out, fs(out \<mapsto> concat ds)))"
proof (cases "mapr (chunk_opener L m data password) (ordered_chunks m data)")
  case (Inl e)
  then show ?thesis
    using write_chunks_Inl [OF Inl, of "[]"]
    by (cases "write_chunks (chunk_opener L m data password) (ordered_chunks m data) []")
      (simp add: merge_chunks_to_disk_def chunk_opener_def)
next
  case (Inr ds)
  then show ?thesis
    using write_chunks_Inr [OF Inr, of "[]"]
    by (simp add: merge_chunks_to_disk_def chunk_opener_def)
qed

subsection \<open>What the chunker stores\<close>

text \<open>
  \<open>opens_to L ks es raws\<close>: the stored chunks \<open>es\<close> open, in order, to the raw chunks under the
  file's key (or without one), and carry the file's salt.
\<close>

definition opens_to :: "lib \<Rightarrow> keysalt \<Rightarrow> bytes list \<Rightarrow> bytes list \<Rightarrow> bool" where
  "opens_to L ks es raws \<longleftrightarrow> length es = length raws \<and>
     (case ks of
        None \<Rightarrow> mapr (zdecompress L) es = Inr raws
      | Some (key, salt) \<Rightarrow>
          mapr (\<lambda>e. worker_decrypt_keyed L e key) es = Inr raws \<and>
          (\<forall>e \<in> set es. py_slice 1 (1 + SALT_SIZE) e = salt))"

definition tagged :: "lib \<Rightarrow> bool \<Rightarrow> int list \<Rightarrow> bytes list \<Rightarrow> (chunk_info \<times> bytes) list" where
  "tagged L enc idx es = map2 (\<lambda>i e. (make_chunk L i e enc, e)) idx es"

lemma tagged_simps [simp]:
  "tagged L enc [] es = []"
  "tagged L enc idx [] = []"
  "tagged L enc (i # idx) (e # es) = (make_chunk L i e enc, e) # tagged L enc idx es"
  by (simp_all add: tagged_def)

lemma tagged_parts:
  "length idx = length es \<Longrightarrow> map snd (tagged L enc idx es) = es"
  "length idx = length es \<Longrightarrow> map (ci_index \<circ> fst) (tagged L enc idx es) = idx"
  "length idx = length es \<Longrightarrow> map (ci_hash \<circ> fst) (tagged L enc idx es) = map (sha256 L) es"
  by (induction idx es rule: list_induct2) (simp_all add: make_chunk_def)

lemma mapr_tagged:
  "length idx = length es \<Longrightarrow>
   (\<And>i e. e \<in> set es \<Longrightarrow> f (make_chunk L i e enc, e) = g e) \<Longrightarrow>
   mapr f (tagged L enc idx es) = mapr g es"
  by (induction idx es rule: list_induct2) simp_all

lemma chunk_loop_plain:
  assumes "lib_ok L"
  shows "\<exists>es. opens_to L None es (map snd items) \<and>
     chunk_loop L None items r = (Inr (tagged L False (map fst items) es), r)"
proof (intro exI conjI)
  let ?es = "map2 (plain_enc L) (replicate (length items) ()) (map snd items)"
  show "opens_to L None ?es (map snd items)"
    using plain.dec_all [OF assms, of "replicate (length items) ()" "map snd items"]
    by (simp add: opens_to_def)
  show "chunk_loop L None items r = (Inr (tagged L False (map fst items) ?es), r)"
    by (induction items) (auto simp: plain_enc_def Let_def)
qed

lemma chunk_loop_keyed:
  assumes "keyed_ok (L, key, salt)"
  shows "\<exists>ns r'. length ns = length items \<and> (\<forall>n \<in> set ns. nonce_size_ok n) \<and>
     chunk_loop L (Some (key, salt)) items r =
       (Inr (tagged L True (map fst items) (map2 (keyed_enc (L, key, salt)) ns (map snd items))), r')"
proof (induction items arbitrary: r)
  case Nil
  show ?case by simp
next
  case (Cons x items)
  let ?n = "fst (urandom NONCE_SIZE r)"
  obtain ns r' where IH: "length ns = length items" "\<forall>n \<in> set ns. nonce_size_ok n"
    "chunk_loop L (Some (key, salt)) items (snd (urandom NONCE_SIZE r)) =
       (Inr (tagged L True (map fst items) (map2 (keyed_enc (L, key, salt)) ns (map snd items))), r')"
    using Cons.IH by blast
  have "encrypt_with_key L (zstd_compress L (snd x)) key salt r =
      (Inr (keyed_enc (L, key, salt) ?n (snd x)), snd (urandom NONCE_SIZE r))"
    using assms by (simp add: encrypt_with_key_seal keyed_ok_def keyed_enc_def)
  with IH show ?case
    by (intro exI [of _ "?n # ns"] exI [of _ r']) (cases x, simp add: nonce_size_ok_def)
qed

lemma chunk_loop_stored:
  assumes "lib_ok L" and "\<And>key salt. ks = Some (key, salt) \<Longrightarrow> keyed_ok (L, key, salt)"
  shows "\<exists>es r'. opens_to L ks es (map snd items) \<and>
     chunk_loop L ks items r = (Inr (tagged L (ks \<noteq> None) (map fst items) es), r')"
proof (cases ks)
  case None
  then show ?thesis using chunk_loop_plain [OF assms(1)] by fastforce
next
  case (Some p)
  then obtain key salt where ks: "ks = Some (key, salt)" by (cases p) auto
  note ok = assms(2) [OF ks]
  obtain ns r' where ns: "length ns = length items" "\<forall>n \<in> set ns. nonce_size_ok n"
    and loop: "chunk_loop L ks items r =
       (Inr (tagged L True (map fst items) (map2 (keyed_enc (L, key, salt)) ns (map snd items))), r')"
    using chunk_loop_keyed [OF ok] ks by blast
  have "opens_to L ks (map2 (keyed_enc (L, key, salt)) ns (map snd items)) (map snd items)"
    using keyed.dec_all [OF ok, of ns "map snd items"] ns ok
    by (auto simp: opens_to_def ks keyed_dec_def keyed_enc_def keyed_ok_def seal_salt [simplified])
  then show ?thesis using loop ks by auto
qed

text \<open>The file's key and salt: derived from the random source if there is a password.\<close>

definition fresh_keysalt :: "lib \<Rightarrow> string option \<Rightarrow> rng \<Rightarrow> keysalt" where
  "fresh_keysalt L password r =
     (if truthy password
      then Some (key_for L (the password) (fst (urandom SALT_SIZE r)), fst (urandom SALT_SIZE r))
      else None)"

lemma fresh_keysalt_ok:
  "lib_ok L \<Longrightarrow> fresh_keysalt L password r = Some (key, salt) \<Longrightarrow> keyed_ok (L, key, salt)"
  by (auto simp: fresh_keysalt_def keyed_ok_for split: if_splits)

definition chunked_manifest ::
    "lib \<Rightarrow> string \<Rightarrow> bytes \<Rightarrow> int \<Rightarrow> bool \<Rightarrow> bytes list \<Rightarrow> file_manifest" where
  "chunked_manifest L path content csize enc es =
     (new_manifest (path_name path) (int (length content)) (sha256 L content) csize)
       \<lparr>chunks := map fst (tagged L enc (map fst (stream_chunks csize 0 content)) es),
        merkle_root := compute_merkle_root L (map (sha256 L) es),
        compression := ''zstd''\<rparr>"

lemma chunk_file_loop:
  "fs path = Some content \<Longrightarrow>
   chunk_file L fs path csize password r =
     (let (out, r2) = chunk_loop L (fresh_keysalt L password r) (stream_chunks csize 0 content)
                        (if truthy password then snd (urandom SALT_SIZE r) else r)
      in (bindr out (\<lambda>xs.
            Inr ((new_manifest (path_name path) (int (length content)) (sha256 L content) csize)
                   \<lparr>chunks := map fst xs,
                    merkle_root := compute_merkle_root L (map (ci_hash \<circ> fst) xs),
                    compression := ''zstd''\<rparr>,
                 map snd xs)), r2))"
  by (cases "truthy password") (simp_all add: chunk_file_def fresh_keysalt_def derive_key_fresh)

lemma chunk_file_stored:
  assumes "lib_ok L" and "fs path = Some content"
  shows "\<exists>es r'. opens_to L (fresh_keysalt L password r) es (map snd (stream_chunks csize 0 content)) \<and>
     chunk_file L fs path csize password r =
       (Inr (chunked_manifest L path content csize (truthy password) es, es), r')"
proof -
  let ?ks = "fresh_keysalt L password r" and ?items = "stream_chunks csize 0 content"
  let ?r = "if truthy password then snd (urandom SALT_SIZE r) else r"
  have "\<exists>es r'. opens_to L ?ks es (map snd ?items) \<and>
      chunk_loop L ?ks ?items ?r = (Inr (tagged L (?ks \<noteq> None) (map fst ?items) es), r')"
    by (rule chunk_loop_stored [OF assms(1)]) (rule fresh_keysalt_ok [OF assms(1)])
  then obtain es r' where es: "opens_to L ?ks es (map snd ?items)"
    and loop: "chunk_loop L ?ks ?items ?r = (Inr (tagged L (?ks \<noteq> None) (map fst ?items) es), r')"
    by blast
  have len: "length (map fst ?items) = length es" using es by (simp add: opens_to_def)
  have enc: "(?ks \<noteq> None) = truthy password" by (simp add: fresh_keysalt_def)
  have "chunk_file L fs path csize password r =
       (Inr (chunked_manifest L path content csize (truthy password) es, es), r')"
    unfolding chunk_file_loop [of fs path, OF assms(2)] loop enc chunked_manifest_def
    by (simp only: Let_def prod.case bindr_simps tagged_parts [OF len])
  with es show ?thesis by blast
qed

lemma open_tagged:
  assumes "opens_to L ks es raws" and "length idx = length es"
    and "ks = (if truthy password then Some (key_for L (the password) salt, salt) else None)"
  shows "mapr (open_chunk L password (file_key L password (tagged L (truthy password) idx es)) True)
           (tagged L (truthy password) idx es) = Inr raws"
proof -
  let ?xs = "tagged L (truthy password) idx es"
  consider "es = []" | "es \<noteq> []" "truthy password" | "es \<noteq> []" "\<not> truthy password" by blast
  then show ?thesis
  proof cases
    case 1
    then show ?thesis using assms(1) by (auto simp: opens_to_def split: option.splits)
  next
    case 2
    then have salts: "\<forall>e \<in> set es. py_slice 1 (1 + SALT_SIZE) e = salt"
      using assms(1,3) by (simp add: opens_to_def)
    have "file_key L password ?xs = Some (key_for L (the password) salt)"
      using 2 assms(2) salts by (cases idx; cases es) (simp_all add: file_key_def make_chunk_def)
    then have "mapr (open_chunk L password (file_key L password ?xs) True) ?xs
        = mapr (\<lambda>e. worker_decrypt_keyed L e (key_for L (the password) salt)) es"
      by (intro mapr_tagged [OF assms(2)])
        (simp add: open_chunk_def make_chunk_def worker_decrypt_keyed_def 2)
    then show ?thesis using assms(1,3) 2 by (simp add: opens_to_def)
  next
    case 3
    then have "mapr (open_chunk L password (file_key L password ?xs) True) ?xs = mapr (zdecompress L) es"
      by (intro mapr_tagged [OF assms(2)]) (simp add: open_chunk_def make_chunk_def)
    then show ?thesis using assms(1,3) 3 by (simp add: opens_to_def)
  qed
qed

end
