(* ===== verification/Merging.thy ===== *)
theory Merging
  imports Chunker
begin

section \<open>Chunking and merging: the properties of the file engine\<close>

text \<open>
  What the two chunkers and the two mergers of \<open>Chunker\<close> guarantee together: round trips under
  any order of delivery, integrity of whatever is merged, and what is left on disk after a
  failed merge.
\<close>

subsection \<open>Round trip\<close>

lemma stream_index_sorted:
  "sorted (map fst (stream_chunks n idx rest))" "distinct (map fst (stream_chunks n idx rest))"
  by (simp_all only: stream_chunks_index)
    (auto simp: sorted_iff_nth_mono distinct_map inj_on_def)

lemma zip_chunked:
  "length (stream_chunks csize 0 content) = length es \<Longrightarrow>
   zip (chunks (chunked_manifest L path content csize enc es)) es =
     tagged L enc (map fst (stream_chunks csize 0 content)) es"
  by (simp add: chunked_manifest_def new_manifest_def tagged_def zip_map1)
    (auto simp: zip_map_fst_snd intro!: nth_equalityI)

lemma ordered_of_perm:
  assumes "length (stream_chunks csize 0 content) = length es"
    and "mset (zip cs' data') = mset (zip (chunks (chunked_manifest L path content csize enc es)) es)"
  shows "ordered_chunks (m\<lparr>chunks := cs'\<rparr>) data' = tagged L enc (map fst (stream_chunks csize 0 content)) es"
proof -
  let ?idx = "map fst (stream_chunks csize 0 content)" and ?key = "\<lambda>x. ci_index (fst x)"
  have keys: "map ?key (tagged L enc ?idx es) = ?idx"
    using tagged_parts(2) [of ?idx es L enc] assms(1) by (simp add: comp_def)
  have "sort_key ?key (zip cs' data') = sort_key ?key (tagged L enc ?idx es)"
  proof (rule sort_key_perm)
    show "mset (zip cs' data') = mset (tagged L enc ?idx es)"
      using assms zip_chunked by simp
    then have "mset (map ?key (zip cs' data')) = mset (map ?key (tagged L enc ?idx es))"
      by simp
    then show "distinct (map ?key (zip cs' data'))"
      using keys stream_index_sorted(2) mset_eq_imp_distinct_iff by metis
  qed
  also have "\<dots> = tagged L enc ?idx es"
    by (rule sort_key_sorted_id) (simp only: keys stream_index_sorted)
  finally show ?thesis by (simp add: ordered_chunks_def)
qed

lemma merge_of_chunked:
  assumes es: "opens_to L (fresh_keysalt L password r) es (map snd (stream_chunks csize 0 content))"
    and "csize \<noteq> 0"
    and perm: "mset (zip cs' data') =
       mset (zip (chunks (chunked_manifest L path content csize (truthy password) es)) es)"
  shows "check_hashes L (ordered_chunks (m\<lparr>chunks := cs'\<rparr>) data') = Inr (map (sha256 L) es)"
    and "compression m = ''zstd'' \<Longrightarrow>
         bindr (mapr (chunk_opener L (m\<lparr>chunks := cs'\<rparr>) data' password)
                  (ordered_chunks (m\<lparr>chunks := cs'\<rparr>) data')) (\<lambda>ds. Inr (concat ds)) = Inr content"
proof -
  let ?idx = "map fst (stream_chunks csize 0 content)"
  have len: "length ?idx = length es" using es by (simp add: opens_to_def)
  have ord: "ordered_chunks (m\<lparr>chunks := cs'\<rparr>) data' = tagged L (truthy password) ?idx es"
    using ordered_of_perm [OF _ perm] len by simp
  have "\<forall>(info, data) \<in> set (tagged L (truthy password) ?idx es). sha256 L data = ci_hash info"
    by (auto simp: tagged_def make_chunk_def)
  then show "check_hashes L (ordered_chunks (m\<lparr>chunks := cs'\<rparr>) data') = Inr (map (sha256 L) es)"
    unfolding check_hashes_Inr ord
    using tagged_parts(1) [OF len, of L "truthy password"] by (metis map_map)
  show "bindr (mapr (chunk_opener L (m\<lparr>chunks := cs'\<rparr>) data' password)
          (ordered_chunks (m\<lparr>chunks := cs'\<rparr>) data')) (\<lambda>ds. Inr (concat ds)) = Inr content"
    if "compression m = ''zstd''"
    using open_tagged [OF es len, where salt = "fst (urandom SALT_SIZE r)" and password = password]
      stream_chunks_concat [OF assms(2), of 0 content] that
    by (simp add: chunk_opener_def ord fresh_keysalt_def)
qed

text \<open>What the chunker produced, merged in any order of arrival.\<close>

lemma chunk_file_merges:
  assumes "lib_ok L" and "fs path = Some content" and "csize \<noteq> 0"
    and "chunk_file L fs path csize password r = (Inr (m, data), r')"
    and perm: "mset (zip cs' data') = mset (zip (chunks m) data)"
  shows "merge_chunks L (m\<lparr>chunks := cs'\<rparr>) data' password = Inr content"
    and "merge_chunks_to_disk L (m\<lparr>chunks := cs'\<rparr>) data' out password gs = (Inr out, gs(out \<mapsto> content))"
proof -
  obtain es where es: "opens_to L (fresh_keysalt L password r) es (map snd (stream_chunks csize 0 content))"
    and m: "m = chunked_manifest L path content csize (truthy password) es" "data = es"
    using chunk_file_stored [of L fs path content password r csize, OF assms(1,2)] assms(4) by fastforce
  have p: "compression m = ''zstd''" "file_hash m = sha256 L content"
    "original_size m = int (length content)" "merkle_root m = compute_merkle_root L (map (sha256 L) es)"
    by (simp_all add: m chunked_manifest_def new_manifest_def)
  note perm' = perm [unfolded m]
  obtain ds where ds: "mapr (chunk_opener L (m\<lparr>chunks := cs'\<rparr>) data' password) (ordered_chunks (m\<lparr>chunks := cs'\<rparr>) data') = Inr ds"
    "concat ds = content"
    using merge_of_chunked(2) [OF es assms(3) perm', of m] p(1) by (auto simp: bindr_eq_Inr)
  then show "merge_chunks L (m\<lparr>chunks := cs'\<rparr>) data' password = Inr content"
    "merge_chunks_to_disk L (m\<lparr>chunks := cs'\<rparr>) data' out password gs = (Inr out, gs(out \<mapsto> content))"
    using merge_of_chunked(1) [OF es assms(3) perm', of m] p by (simp_all add: merge_chunks_concat merge_to_disk_concat)
qed

text \<open>
  C1. Chunking a file always succeeds, and merging what it produced gives the file back: with a
  password or without, for every chunk size but zero, for every random source, and in whatever
  order the pairs of chunk record and chunk bytes arrive. The in-memory merger returns the
  content, the disk merger writes it.
\<close>

theorem chunk_merge_roundtrip:
  assumes "lib_ok L" and "fs path = Some content" and "csize \<noteq> 0"
  shows "\<exists>m data. fst (chunk_file L fs path csize password r) = Inr (m, data) \<and>
     (\<forall>cs' data'. mset (zip cs' data') = mset (zip (chunks m) data) \<longrightarrow>
        merge_chunks L (m\<lparr>chunks := cs'\<rparr>) data' password = Inr content \<and>
        merge_chunks_to_disk L (m\<lparr>chunks := cs'\<rparr>) data' out password fs
          = (Inr out, fs(out \<mapsto> content)))"
proof -
  obtain m data r' where f: "chunk_file L fs path csize password r = (Inr (m, data), r')"
    using chunk_file_stored [of L fs path content password r csize, OF assms(1,2)] by blast
  then show ?thesis using chunk_file_merges [OF assms f] by auto
qed

theorem chunk_merge_roundtrip_witness:
  "\<exists>m data. fst (chunk_file ref_lib [''f'' \<mapsto> [1, 2, 3]] ''f'' 2 (Some ''pw'') (\<lambda>i. of_nat i, 0)) = Inr (m, data) \<and>
     (\<forall>cs' data'. mset (zip cs' data') = mset (zip (chunks m) data) \<longrightarrow>
        merge_chunks ref_lib (m\<lparr>chunks := cs'\<rparr>) data' (Some ''pw'') = Inr [1, 2, 3] \<and>
        merge_chunks_to_disk ref_lib (m\<lparr>chunks := cs'\<rparr>) data' ''o'' (Some ''pw'') [''f'' \<mapsto> [1, 2, 3]]
          = (Inr ''o'', [''f'' \<mapsto> [1, 2, 3]](''o'' \<mapsto> [1, 2, 3])))"
  by (rule chunk_merge_roundtrip [OF ref_lib_ok]) simp_all

subsection \<open>Integrity\<close>

lemma merge_chunks_hash: "merge_chunks L m data password = Inr out \<Longrightarrow> sha256 L out = file_hash m"
  by (auto simp: merge_chunks_concat bindr_eq_Inr split: if_splits)

lemma merge_to_disk_hash:
  "merge_chunks_to_disk L m data out password fs = (Inr p, fs') \<Longrightarrow>
   p = out \<and> (\<exists>content. fs' = fs(out \<mapsto> content) \<and> sha256 L content = file_hash m)"
  by (auto simp: merge_to_disk_concat split: sum.splits if_splits)

text \<open>
  C4. Nothing but the original file is ever delivered: if a merger accepts any chunks at all under
  a manifest whose file hash is the hash of a file (chunks from any peer, in any number, under
  any password, with any other manifest fields), then what it returns, or leaves on disk, is that
  file, or two named byte strings with one SHA-256 digest have been found.
\<close>

theorem merged_file_authentic:
  assumes "file_hash m = sha256 L content"
  shows "(\<forall>out. merge_chunks L m data password = Inr out \<longrightarrow> out = content \<or> collision_in L {out, content}) \<and>
     (\<forall>p fs'. merge_chunks_to_disk L m data path password fs = (Inr p, fs') \<longrightarrow>
        (\<exists>out. fs' p = Some out \<and> (out = content \<or> collision_in L {out, content})))"
  using assms by (fastforce simp: collision_two dest: merge_chunks_hash merge_to_disk_hash)

definition one_chunk_manifest :: file_manifest where
  "one_chunk_manifest = (new_manifest ''f'' 1 (sha256 ref_lib [7]) 1)\<lparr>chunks := [make_chunk ref_lib 0 [7] False]\<rparr>"

theorem merged_file_authentic_witness:
  "\<exists>out. merge_chunks ref_lib one_chunk_manifest [[7]] None = Inr out \<and> (out = [7] \<or> collision_in ref_lib {out, [7]})"
proof -
  have "merge_chunks ref_lib one_chunk_manifest [[7]] None = Inr [7]"
    by (simp add: merge_chunks_concat one_chunk_manifest_def new_manifest_def make_chunk_def
        ordered_chunks_def chunk_opener_def open_chunk_def)
  moreover have "file_hash one_chunk_manifest = sha256 ref_lib [7]"
    by (simp add: one_chunk_manifest_def new_manifest_def)
  ultimately show ?thesis
    using merged_file_authentic [of one_chunk_manifest ref_lib "[7]" "[[7]]" None] by blast
qed

subsection \<open>The two mergers compared\<close>

text \<open>
  C13. The disk merger accepts everything the in-memory merger accepts, with the same bytes: when
  \<^verbatim>\<open>merge_chunks\<close> returns a file, \<^verbatim>\<open>merge_chunks_to_disk\<close> writes exactly that file.
\<close>

theorem disk_merge_refines_memory_merge:
  assumes "merge_chunks L m data password = Inr content"
  shows "merge_chunks_to_disk L m data out password fs = (Inr out, fs(out \<mapsto> content))"
  using assms by (auto simp: merge_chunks_concat merge_to_disk_concat bindr_eq_Inr split: if_splits)

theorem disk_merge_refines_memory_merge_witness:
  "\<exists>m data. fst (chunk_file ref_lib [''f'' \<mapsto> [1, 2, 3]] ''f'' 2 (Some ''pw'') (\<lambda>i. of_nat i, 0)) = Inr (m, data) \<and>
     merge_chunks ref_lib m data (Some ''pw'') = Inr [1, 2, 3] \<and>
     merge_chunks_to_disk ref_lib m data ''o'' (Some ''pw'') Map.empty = (Inr ''o'', Map.empty(''o'' \<mapsto> [1, 2, 3]))"
proof -
  let ?fs = "[''f'' \<mapsto> [1, 2, 3 :: byte]]"
  have f: "?fs ''f'' = Some [1, 2, 3]" by simp
  obtain m data r' where c: "chunk_file ref_lib ?fs ''f'' 2 (Some ''pw'') (\<lambda>i. of_nat i, 0) = (Inr (m, data), r')"
    using chunk_file_stored [of ref_lib ?fs "''f''", OF ref_lib_ok f] by blast
  from chunk_file_merges(1) [OF ref_lib_ok f _ c refl]
  have merged: "merge_chunks ref_lib m data (Some ''pw'') = Inr [1, 2, 3]" by simp
  then show ?thesis using c disk_merge_refines_memory_merge [OF merged] by simp
qed

lemma sort_key_map: "sort_key f (map g xs) = map g (sort_key (f \<circ> g) xs)"
proof -
  have "insort_key f (g x) (map g ys) = map g (insort_key (f \<circ> g) x ys)" for x ys
    by (induction ys) simp_all
  then show ?thesis by (induction xs) simp_all
qed

lemma mapr_map: "mapr f (map g xs) = mapr (f \<circ> g) xs"
  by (induction xs) simp_all

lemma write_chunks_map: "write_chunks f (map g xs) w = write_chunks (f \<circ> g) xs w"
  by (induction xs arbitrary: w) (auto split: sum.splits)

definition rehash :: "(chunk_info \<Rightarrow> string) \<Rightarrow> chunk_info \<times> bytes \<Rightarrow> chunk_info \<times> bytes" where
  "rehash h x = ((fst x)\<lparr>ci_hash := h (fst x)\<rparr>, snd x)"

lemma ordered_rehash:
  "ordered_chunks (m\<lparr>chunks := map (\<lambda>c. c\<lparr>ci_hash := h c\<rparr>) (chunks m), merkle_root := x\<rparr>) data =
   map (rehash h) (ordered_chunks m data)"
proof -
  have "zip (map (\<lambda>c. c\<lparr>ci_hash := h c\<rparr>) (chunks m)) data = map (rehash h) (zip (chunks m) data)"
    by (rule nth_equalityI) (simp_all add: rehash_def)
  then show ?thesis by (simp add: ordered_chunks_def sort_key_map comp_def rehash_def)
qed

lemma file_key_rehash: "file_key L password (map (rehash h) xs) = file_key L password xs"
  by (cases xs) (simp_all add: file_key_def rehash_def)

lemma open_chunk_rehash: "open_chunk L password k z \<circ> rehash h = open_chunk L password k z"
  by (auto simp: open_chunk_def rehash_def fun_eq_iff split: option.splits)

text \<open>
  The disk merger looks at neither the chunk hashes nor the Merkle root of the manifest:
  replacing all of them changes nothing in its result. Its only integrity check is the hash of
  the whole file after the last chunk, whatever its log line says.
\<close>

theorem disk_merge_ignores_chunk_hashes:
  "merge_chunks_to_disk L
     (m\<lparr>chunks := map (\<lambda>c. c\<lparr>ci_hash := h c\<rparr>) (chunks m), merkle_root := x\<rparr>) data out password fs
   = merge_chunks_to_disk L m data out password fs"
  unfolding merge_chunks_to_disk_def ordered_rehash file_key_rehash write_chunks_map
    open_chunk_rehash Let_def
  by (simp split: prod.splits sum.splits)

subsection \<open>What a failed merge leaves behind\<close>

lemma open_chunk_raises:
  "open_chunk L password k z x = Inl e \<Longrightarrow> e \<noteq> ValueError (IntegrityFailed a b)"
  by (auto simp: open_chunk_def zdecompress_def decrypt_def decrypt_with_key_def aes_new_def Let_def
      res_simps split: prod.splits if_splits option.splits)

text \<open>
  After a failed merge to disk the output file is gone exactly when the failure was the final
  file hash: a chunk that does not decrypt or decompress ends the merge with the partial output
  still on disk, for the caller to remove.
\<close>

theorem disk_merge_failure_cleanup:
  assumes "merge_chunks_to_disk L m data out password fs = (Inl e, fs')"
  shows "fs' out = None \<longleftrightarrow> (\<exists>a b. e = ValueError (IntegrityFailed a b))"
proof (cases "mapr (chunk_opener L m data password) (ordered_chunks m data)")
  case (Inl x)
  then obtain y where "open_chunk L password (file_key L password (ordered_chunks m data))
      (compression m = ''zstd'') y = Inl x"
    by (auto dest: mapr_Inl_ex simp: chunk_opener_def)
  with Inl assms show ?thesis
    by (auto simp: merge_to_disk_concat dest: open_chunk_raises)
next
  case (Inr ds)
  with assms show ?thesis by (auto simp: merge_to_disk_concat split: if_splits)
qed

theorem disk_merge_failure_cleanup_witness:
  "(Map.empty(''o'' \<mapsto> ([] :: bytes))) ''o'' = None \<longleftrightarrow> (\<exists>a b. ZstdError = ValueError (IntegrityFailed a b))"
  by (rule disk_merge_failure_cleanup [of ref_lib
        "(new_manifest ''f'' 0 ''h'' 1)\<lparr>chunks := [make_chunk ref_lib 0 [0] False], compression := ''zstd''\<rparr>"
        "[[0]]" "''o''" None Map.empty ZstdError "Map.empty(''o'' \<mapsto> [])"])
    (simp add: merge_chunks_to_disk_def ordered_chunks_def new_manifest_def make_chunk_def open_chunk_def
      zdecompress_def ref_lib_def)

subsection \<open>The streaming chunker\<close>

text \<open>
  \<^verbatim>\<open>chunk_file_streaming\<close> stores the same records, under a key and salt per chunk. Its yields
  determine the final manifest and data.
\<close>

lemma streaming_loop_stored:
  assumes "lib_ok L" and "truthy (Some pw)"
  shows "\<exists>ns r'. length ns = length items \<and> (\<forall>n \<in> set ns. salt_nonce_ok n) \<and>
     (let es = map2 (password_enc (L, pw)) ns (map snd items);
          out = streaming_loop L (Some pw) m items r;
          cs = chunks m @ map fst (tagged L True (map fst items) es)
      in map snd (fst out) = zip (map fst items) es \<and>
         snd out = (Inr (m\<lparr>chunks := cs, merkle_root := compute_merkle_root L (map ci_hash cs)\<rparr>), r'))"
proof (induction items arbitrary: m r)
  case Nil
  show ?case by (simp add: Let_def)
next
  case (Cons x items)
  obtain i raw where x: "x = (i, raw)" by fastforce
  obtain n where n: "salt_nonce_ok n" "fst (encrypt L raw pw r) = Inr (password_enc (L, pw) n raw)"
    using encrypt_password_enc [OF assms(1)] by blast
  let ?e = "password_enc (L, pw) n raw"
  let ?m = "m\<lparr>chunks := chunks m @ [make_chunk L i ?e True]\<rparr>"
  obtain ns r' where IH: "length ns = length items" "\<forall>n \<in> set ns. salt_nonce_ok n"
    "let es = map2 (password_enc (L, pw)) ns (map snd items);
         out = streaming_loop L (Some pw) ?m items (snd (encrypt L raw pw r));
         cs = chunks ?m @ map fst (tagged L True (map fst items) es)
     in map snd (fst out) = zip (map fst items) es \<and>
        snd out = (Inr (?m\<lparr>chunks := cs, merkle_root := compute_merkle_root L (map ci_hash cs)\<rparr>), r')"
    using Cons.IH [of ?m "snd (encrypt L raw pw r)"] by blast
  show ?case
    using IH n assms(2)
    by (intro exI [of _ "n # ns"] exI [of _ r'])
      (cases "encrypt L raw pw r",
       cases "streaming_loop L (Some pw) ?m items (snd (encrypt L raw pw r))",
       simp add: x Let_def)
qed

lemma streaming_file_stored:
  assumes "lib_ok L" and "pw \<noteq> []" and "fs path = Some content"
  shows "\<exists>ns m ys r'. length ns = length (stream_chunks csize 0 content) \<and>
     (\<forall>n \<in> set ns. salt_nonce_ok n) \<and>
     chunk_file_streaming L fs path csize (Some pw) r = (ys, Inr m, r') \<and>
     map (snd \<circ> snd) ys = map2 (password_enc (L, pw)) ns (map snd (stream_chunks csize 0 content)) \<and>
     chunks m = map fst (tagged L True (map fst (stream_chunks csize 0 content)) (map (snd \<circ> snd) ys)) \<and>
     merkle_root m = compute_merkle_root L (map ci_hash (chunks m)) \<and>
     original_size m = int (length content) \<and> file_hash m = sha256 L content \<and> compression m = []"
proof -
  let ?items = "stream_chunks csize 0 content"
  let ?m0 = "new_manifest (path_name path) (int (length content)) (sha256 L content) csize"
  have t: "truthy (Some pw)" using assms(2) by simp
  obtain ns r' where ns: "length ns = length ?items" "\<forall>n \<in> set ns. salt_nonce_ok n"
    and out: "let es = map2 (password_enc (L, pw)) ns (map snd ?items);
          out = streaming_loop L (Some pw) ?m0 ?items r;
          cs = chunks ?m0 @ map fst (tagged L True (map fst ?items) es)
      in map snd (fst out) = zip (map fst ?items) es \<and>
         snd out = (Inr (?m0\<lparr>chunks := cs, merkle_root := compute_merkle_root L (map ci_hash cs)\<rparr>), r')"
    using streaming_loop_stored [OF assms(1) t, of ?items ?m0 r] by blast
  obtain ys fin r'' where loop: "streaming_loop L (Some pw) ?m0 ?items r = (ys, fin, r'')"
    by (metis prod.exhaust)
  have "map snd (map snd ys) = map2 (password_enc (L, pw)) ns (map snd ?items)"
    using out ns(1) by (simp add: loop Let_def map_snd_zip del: map_map)
  then have data: "map (snd \<circ> snd) ys = map2 (password_enc (L, pw)) ns (map snd ?items)" by simp
  let ?cs = "map fst (tagged L True (map fst ?items) (map (snd \<circ> snd) ys))"
  have "fin = Inr (?m0\<lparr>chunks := ?cs, merkle_root := compute_merkle_root L (map ci_hash ?cs)\<rparr>)"
    using out unfolding data loop Let_def by (simp add: new_manifest_def)
  then show ?thesis
    using ns data loop
    by (intro exI [of _ ns] exI [of _ "?m0\<lparr>chunks := ?cs, merkle_root := compute_merkle_root L (map ci_hash ?cs)\<rparr>"]
        exI [of _ ys] exI [of _ r''])
      (simp add: chunk_file_streaming_def assms(3) new_manifest_def)
qed

lemma zip_tagged: "length idx = length es \<Longrightarrow> zip (map fst (tagged L enc idx es)) es = tagged L enc idx es"
  by (induction idx es rule: list_induct2) simp_all

lemma ordered_tagged:
  assumes "chunks m = map fst (tagged L enc idx es)" and "length idx = length es" and "sorted idx"
  shows "ordered_chunks m es = tagged L enc idx es"
  using tagged_parts(2) [OF assms(2), of L enc] assms(3)
  by (simp add: ordered_chunks_def assms(1) zip_tagged [OF assms(2)] sort_key_sorted_id comp_def)

lemma check_tagged:
  "length idx = length es \<Longrightarrow> check_hashes L (tagged L enc idx es) = Inr (map (sha256 L) es)"
  by (induction idx es rule: list_induct2) (simp_all add: make_chunk_def)

lemma two_chunks:
  assumes "0 < csize" and "csize < int (length content)"
  shows "\<exists>a b rest. stream_chunks csize 0 content = (0, a) # (1, b) # rest"
proof -
  have "content \<noteq> []" using assms by auto
  moreover have "snd (fread csize content) \<noteq> []" using assms by (simp add: fread_def)
  ultimately show ?thesis using assms(1) by (simp add: stream_chunks_step)
qed

text \<open>
  A file of more than one chunk that was chunked with a password by
  \<^verbatim>\<open>chunk_file_streaming\<close> cannot be merged by \<^verbatim>\<open>merge_chunks\<close> with the same password: the
  streaming chunker gives every chunk a salt of its own, the merger decrypts all chunks with the
  key of the first one, and the cipher rejects the second (which it does when the two salts
  give different keys).
\<close>

theorem streaming_chunks_unmergeable:
  assumes "lib_ok L" and "pw \<noteq> []" and "fs path = Some content"
    and "0 < csize" and "csize < int (length content)"
    and run: "chunk_file_streaming L fs path csize (Some pw) r = (ys, Inr m, r')"
    and data: "data = map (snd \<circ> snd) ys"
    and keys: "k1 = key_for L pw (py_slice 1 17 (data ! 0))" "k2 = key_for L pw (py_slice 1 17 (data ! 1))"
    and reject: "\<forall>n p. gcm_decrypt L k1 n (fst (gcm_encrypt L k2 n p)) (snd (gcm_encrypt L k2 n p)) = None"
  shows "merge_chunks L m data (Some pw) = Inl (ValueError AuthenticationFailed)"
proof -
  let ?items = "stream_chunks csize 0 content"
  obtain ns where ns: "length ns = length ?items" "\<forall>n \<in> set ns. salt_nonce_ok n"
    and es: "data = map2 (password_enc (L, pw)) ns (map snd ?items)"
    and m: "chunks m = map fst (tagged L True (map fst ?items) data)"
      "merkle_root m = compute_merkle_root L (map ci_hash (chunks m))" "compression m = []"
      "original_size m = int (length content)"
    using streaming_file_stored [of L pw fs path content csize r, OF assms(1-3)] run data by auto
  obtain a b rest where items: "?items = (0, a) # (1, b) # rest"
    using two_chunks [OF assms(4,5)] by blast
  obtain s1 n1 s2 n2 ns' where nonces: "ns = (s1, n1) # (s2, n2) # ns'"
    using ns(1) items by (cases ns; cases "tl ns") auto
  have ok: "length s1 = SALT_SIZE" "length n1 = NONCE_SIZE" "length s2 = SALT_SIZE" "length n2 = NONCE_SIZE"
    using ns(2) by (simp_all add: nonces salt_nonce_ok_def)
  let ?e1 = "seal L (key_for L pw s1) s1 n1 a" and ?e2 = "seal L (key_for L pw s2) s2 n2 b"
  let ?es = "map2 (password_enc (L, pw)) ns' (map snd rest)"
  have d: "data = ?e1 # ?e2 # ?es" by (simp add: es items nonces password_enc_def)
  have k: "k1 = key_for L pw s1" "k2 = key_for L pw s2"
    using seal_salt [OF ok(1)] seal_salt [OF ok(3)] by (simp_all add: keys d SALT_SIZE_def)
  let ?xs = "tagged L True (map fst ?items) data"
  have len: "length (map fst ?items) = length data" using ns(1) by (simp add: es)
  have ord: "ordered_chunks m data = ?xs"
    using ordered_tagged [OF m(1) len] stream_index_sorted(1) by simp
  have xs: "?xs = (make_chunk L 0 ?e1 True, ?e1) # (make_chunk L 1 ?e2 True, ?e2) # tagged L True (map fst rest) ?es"
    by (simp add: items d)
  have key: "file_key L (Some pw) ?xs = Some k1"
    using assms(2) seal_salt [OF ok(1)] by (simp add: xs file_key_def make_chunk_def k)
  have "decrypt_with_key L ?e2 k1 = Inl (ValueError AuthenticationFailed)"
  proof -
    have "length (snd (gcm_encrypt L (key_for L pw s2) n2 b)) = TAG_SIZE"
      using assms(1) by (simp add: TAG_SIZE_def gcm_tag_length key_for_size)
    note f = seal_fields [OF ok(3,4) this]
    have "length k1 \<in> set aes_key_sizes" "\<not> length ?e2 < HEADER_SIZE"
      using assms(1) ok by (simp_all add: k key_for_size seal_length)
    then show ?thesis
      using reject k by (simp add: decrypt_with_key_def f [simplified] aes_new_def Let_def)
  qed
  moreover have "decrypt_with_key L ?e1 k1 = Inr a"
    using assms(1) ok k by (simp add: decrypt_with_key_seal key_for_size)
  ultimately have "mapr (chunk_opener L m data (Some pw)) ?xs = Inl (ValueError AuthenticationFailed)"
    using assms(2) key
    by (simp add: chunk_opener_def ord m(3)) (simp add: xs open_chunk_def make_chunk_def)
  moreover have "check_hashes L ?xs = Inr (map ci_hash (chunks m))"
    using check_tagged [OF len] tagged_parts(3) [OF len, of L True] by (simp add: m(1))
  ultimately show ?thesis
    by (simp add: merge_chunks_concat ord m(2,4))
qed

theorem streaming_chunks_unmergeable_witness:
  "\<exists>ys m r'. chunk_file_streaming ref_lib [''f'' \<mapsto> [1, 2]] ''f'' 1 (Some ''p'') (\<lambda>i. of_nat i, 0) = (ys, Inr m, r') \<and>
     merge_chunks ref_lib m (map (snd \<circ> snd) ys) (Some ''p'') = Inl (ValueError AuthenticationFailed)"
proof -
  let ?rng = "(\<lambda>i. of_nat i :: byte, 0 :: nat)"
  let ?s1 = "map of_nat [0..<16] :: bytes" and ?s2 = "map of_nat [28..<44] :: bytes"
  let ?n1 = "map of_nat [16..<28] :: bytes" and ?n2 = "map of_nat [44..<56] :: bytes"
  let ?k1 = "key_for ref_lib ''p'' ?s1" and ?k2 = "key_for ref_lib ''p'' ?s2"
  let ?e1 = "seal ref_lib ?k1 ?s1 ?n1 [1]" and ?e2 = "seal ref_lib ?k2 ?s2 ?n2 [2]"
  have items: "stream_chunks 1 0 [1, 2 :: byte] = [(0, [1]), (1, [2])]"
    by (simp add: stream_chunks_step fread_def)
  obtain ys m r' where run: "chunk_file_streaming ref_lib [''f'' \<mapsto> [1, 2]] ''f'' 1 (Some ''p'') ?rng = (ys, Inr m, r')"
    and data: "map (snd \<circ> snd) ys = [?e1, ?e2]"
    by (simp add: chunk_file_streaming_def items encrypt_fresh [OF ref_lib_ok] urandom_def
        size_defs Let_def case_prod_unfold del: upt_conv_Cons upt_rec_numeral)
  have k: "?k1 ! 1 = 0" "?k2 ! 1 = 28" "length ?k1 = 32" "length ?k2 = 32"
    by (simp_all add: key_for_def ref_lib_def KEY_SIZE_def nth_append)
  have reject: "\<forall>n p. gcm_decrypt ref_lib ?k1 n (fst (gcm_encrypt ref_lib ?k2 n p)) (snd (gcm_encrypt ref_lib ?k2 n p)) = None"
  proof (intro allI)
    fix n p
    have "ref_tag ?k1 n p ! 1 \<noteq> ref_tag ?k2 n p ! 1" using k by (simp add: ref_tag_def)
    then have "ref_tag ?k2 n p \<noteq> ref_tag ?k1 n p" by metis
    then show "gcm_decrypt ref_lib ?k1 n (fst (gcm_encrypt ref_lib ?k2 n p)) (snd (gcm_encrypt ref_lib ?k2 n p)) = None"
      by (simp add: ref_lib_def)
  qed
  have keys: "?k1 = key_for ref_lib ''p'' (py_slice 1 17 ([?e1, ?e2] ! 0))"
    "?k2 = key_for ref_lib ''p'' (py_slice 1 17 ([?e1, ?e2] ! 1))"
    using seal_salt [of ?s1 ref_lib ?k1 ?n1 "[1]"] seal_salt [of ?s2 ref_lib ?k2 ?n2 "[2]"]
    by (simp_all add: SALT_SIZE_def)
  have "merge_chunks ref_lib m (map (snd \<circ> snd) ys) (Some ''p'') = Inl (ValueError AuthenticationFailed)"
  proof (rule streaming_chunks_unmergeable [where content = "[1, 2]", OF ref_lib_ok _ _ _ _ run refl _ _ reject])
    show "?k1 = key_for ref_lib ''p'' (py_slice 1 17 (map (snd \<circ> snd) ys ! 0))"
      unfolding data by (rule keys(1))
    show "?k2 = key_for ref_lib ''p'' (py_slice 1 17 (map (snd \<circ> snd) ys ! 1))"
      unfolding data by (rule keys(2))
  qed simp_all
  then show ?thesis using run by blast
qed
end
