(* ===== verification/Storage.thy ===== *)
theory Storage
  imports Manifest
begin

section \<open>Local storage (backend/storage/db.py, backend/storage/local\_store.py)\<close>

text \<open>
  The SQLite database of a node (manifests and peers), the directory of chunk files, and the
  eviction of the chunks read longest ago. A table is the list of its rows in rowid order, the
  order in which \<^verbatim>\<open>SELECT * FROM t\<close> returns them; \<^verbatim>\<open>INSERT OR REPLACE\<close> deletes the row
  with the same primary key and appends the new one. The chunk list of a manifest is stored as
  JSON text and read back by the same library; the model keeps the list.
\<close>

subsection \<open>The interface: a store of values under keys\<close>

text \<open>
  What the clients of the stores rely on: after \<open>put k v\<close> a lookup of \<open>k\<close> returns \<open>v\<close> (as the
  store keeps it: \<open>norm k v\<close>) and all other lookups are unchanged. Manifests, chunk files, the chunk registry of a node and the
  routing table all provide it.
\<close>

locale keyed_store =
  fixes put :: "'k \<Rightarrow> 'v \<Rightarrow> 's \<Rightarrow> 's"
    and get :: "'s \<Rightarrow> 'k \<Rightarrow> 'v option"
    and norm :: "'k \<Rightarrow> 'v \<Rightarrow> 'v"
  assumes get_put: "get (put k v s) k' = (if k' = k then Some (norm k v) else get s k')"
begin

definition put_all :: "('k \<times> 'v) list \<Rightarrow> 's \<Rightarrow> 's" where
  "put_all kvs s = fold (\<lambda>(k, v). put k v) kvs s"

lemma put_all_simps [simp]:
  "put_all [] s = s"
  "put_all ((k, v) # kvs) s = put_all kvs (put k v s)"
  by (simp_all add: put_all_def)

lemma get_put_all:
  "get (put_all kvs s) k = (case map_of (rev kvs) k of None \<Rightarrow> get s k | Some v \<Rightarrow> Some (norm k v))"
proof (induction kvs arbitrary: s)
  case (Cons kv kvs)
  then show ?case
    by (cases kv) (auto simp: get_put map_add_def split: option.splits)
qed simp

lemma get_put_all_notin: "k \<notin> fst ` set kvs \<Longrightarrow> get (put_all kvs s) k = get s k"
  by (auto simp: get_put_all dest!: map_of_SomeD split: option.splits) force

text \<open>Values stored under their own digest: a lookup gives the value, or one with the same digest.\<close>

lemma get_put_all_digest:
  assumes "v \<in> set vs"
  shows "\<exists>v' \<in> set vs. digest v' = digest v \<and>
     get (put_all (map (\<lambda>v. (digest v, v)) vs) s) (digest v) = Some (norm (digest v) v')"
proof -
  let ?kvs = "map (\<lambda>v. (digest v, v)) vs"
  have "digest v \<in> fst ` set (rev ?kvs)" using assms by force
  then obtain v' where v': "map_of (rev ?kvs) (digest v) = Some v'"
    by (metis map_of_eq_None_iff option.exhaust)
  then have "(digest v, v') \<in> set (rev ?kvs)" by (rule map_of_SomeD)
  then show ?thesis using v' by (auto simp: get_put_all)
qed

end

subsection \<open>The node database\<close>

record manifest_row =
  mr_file_hash :: string
  mr_filename :: string
  mr_total_size :: int
  mr_merkle_root :: string
  mr_chunks_json :: "chunk_dict list"
  mr_compression :: string

record peer_row =
  pr_node_id :: string
  pr_ip :: string
  pr_tcp_port :: int
  pr_api_port :: int
  pr_name :: string
  pr_health_score :: real
  pr_last_seen :: real

record node_db =
  db_peers :: "peer_row list"
  db_manifests :: "manifest_row list"

definition insert_or_replace :: "('r \<Rightarrow> 'k) \<Rightarrow> 'r \<Rightarrow> 'r list \<Rightarrow> 'r list" where
  "insert_or_replace pk row rows = filter (\<lambda>r. pk r \<noteq> pk row) rows @ [row]"

definition empty_db :: node_db where
  "empty_db = \<lparr>db_peers = [], db_manifests = []\<rparr>"

definition save_manifest_sync :: "string \<Rightarrow> manifest_dict \<Rightarrow> node_db \<Rightarrow> node_db" where
  "save_manifest_sync fh d db =
     db\<lparr>db_manifests := insert_or_replace mr_file_hash
          \<lparr>mr_file_hash = fh,
           mr_filename = get_or [] (md_original_filename d),
           mr_total_size = get_or 0 (md_original_size d),
           mr_merkle_root = get_or [] (md_merkle_root d),
           mr_chunks_json = get_or [] (md_chunks d),
           mr_compression = get_or [] (md_compression d)\<rparr>
          (db_manifests db)\<rparr>"

text \<open>The dictionary a row is read back as; it has no \<open>chunk_size\<close>, version or chunk count.\<close>

definition row_dict :: "manifest_row \<Rightarrow> manifest_dict" where
  "row_dict row =
     \<lparr>md_version = None,
      md_file_hash = Some (mr_file_hash row),
      md_original_filename = Some (mr_filename row),
      md_original_size = Some (mr_total_size row),
      md_chunk_size = None,
      md_merkle_root = Some (mr_merkle_root row),
      md_compression = Some (mr_compression row),
      md_chunk_count = None,
      md_chunks = Some (mr_chunks_json row)\<rparr>"

definition get_manifest_sync :: "node_db \<Rightarrow> string \<Rightarrow> manifest_dict option" where
  "get_manifest_sync db fh = map_option row_dict (find (\<lambda>r. mr_file_hash r = fh) (db_manifests db))"

definition get_all_manifests_sync :: "node_db \<Rightarrow> manifest_dict list" where
  "get_all_manifests_sync db = map row_dict (db_manifests db)"

text \<open>The optional arguments of \<^verbatim>\<open>_upsert_peer_sync\<close> have their defaults applied by the caller.\<close>

definition upsert_peer_sync ::
    "real \<Rightarrow> string \<Rightarrow> string \<Rightarrow> int \<Rightarrow> int option \<Rightarrow> string option \<Rightarrow> real option \<Rightarrow> real option \<Rightarrow>
     node_db \<Rightarrow> node_db" where
  "upsert_peer_sync now nid ip tcp_port api_port name health_score last_seen db =
     db\<lparr>db_peers := insert_or_replace pr_node_id
          \<lparr>pr_node_id = nid, pr_ip = ip, pr_tcp_port = tcp_port,
           pr_api_port = get_or 8888 api_port, pr_name = get_or [] name,
           pr_health_score = get_or 0 health_score, pr_last_seen = get_or now last_seen\<rparr>
          (db_peers db)\<rparr>"

definition get_all_peers_sync :: "node_db \<Rightarrow> peer_row list" where
  "get_all_peers_sync db = db_peers db"

text \<open>Primary keys stay unique.\<close>

definition db_ok :: "node_db \<Rightarrow> bool" where
  "db_ok db \<longleftrightarrow> distinct (map mr_file_hash (db_manifests db)) \<and> distinct (map pr_node_id (db_peers db))"

lemma insert_or_replace_distinct:
  "distinct (map pk rows) \<Longrightarrow> distinct (map pk (insert_or_replace pk row rows))"
  by (auto simp: insert_or_replace_def distinct_map_filter)

lemma find_insert_or_replace:
  "find (\<lambda>r. pk r = k) (insert_or_replace pk row rows) =
     (if k = pk row then Some row else find (\<lambda>r. pk r = k) rows)"
  by (induction rows) (auto simp: insert_or_replace_def)

lemma empty_db_ok: "db_ok empty_db"
  by (simp add: empty_db_def db_ok_def)

lemma save_manifest_ok: "db_ok db \<Longrightarrow> db_ok (save_manifest_sync fh d db)"
  by (simp add: db_ok_def save_manifest_sync_def insert_or_replace_distinct)

lemma upsert_peer_ok: "db_ok db \<Longrightarrow> db_ok (upsert_peer_sync now nid ip tp ap nm hs ls db)"
  by (simp add: db_ok_def upsert_peer_sync_def insert_or_replace_distinct)

text \<open>What reading back a saved dictionary gives.\<close>

definition stored_dict :: "string \<Rightarrow> manifest_dict \<Rightarrow> manifest_dict" where
  "stored_dict fh d =
     \<lparr>md_version = None, md_file_hash = Some fh,
      md_original_filename = Some (get_or [] (md_original_filename d)),
      md_original_size = Some (get_or 0 (md_original_size d)), md_chunk_size = None,
      md_merkle_root = Some (get_or [] (md_merkle_root d)),
      md_compression = Some (get_or [] (md_compression d)), md_chunk_count = None,
      md_chunks = Some (get_or [] (md_chunks d))\<rparr>"

lemma get_save_manifest:
  "get_manifest_sync (save_manifest_sync fh d db) fh' =
     (if fh' = fh then Some (stored_dict fh d) else get_manifest_sync db fh')"
  by (simp add: get_manifest_sync_def save_manifest_sync_def find_insert_or_replace
      stored_dict_def row_dict_def)

interpretation manifests: keyed_store save_manifest_sync get_manifest_sync stored_dict
  by unfold_locales (rule get_save_manifest)

lemma from_stored_to_dict:
  "from_dict L (stored_dict fh (to_dict m)) =
     Inr (with_root L (m\<lparr>file_hash := fh, chunk_size := DEFAULT_CHUNK_SIZE\<rparr>))"
  by (simp add: from_dict_def stored_dict_def to_dict_def with_root_def Let_def)

subsection \<open>The chunk directory\<close>

text \<open>
  The storage directory as the backend sees it: its regular files with their contents and access
  times, in the arbitrary order in which the system lists them. Around it the system's clock, its
  policy for access times (\<open>ls_touch old now\<close> is the access time after a read; mounts differ),
  the files it refuses to delete, and the free space of the partition. The database's own file is
  an entry of the directory like any other; its size is not tied to the tables.
\<close>

record file_obj =
  fo_data :: bytes
  fo_atime :: real

record local_store =
  ls_files :: "(string, file_obj) dict"
  ls_db :: node_db
  ls_now :: real
  ls_touch :: "real \<Rightarrow> real \<Rightarrow> real"
  ls_locked :: "string \<Rightarrow> bool"
  ls_disk_free :: nat

definition chunk_filename :: "string \<Rightarrow> string" where
  "chunk_filename chunk_hash = ''chunk_'' @ chunk_hash @ ''.bin''"

text \<open>\<^verbatim>\<open>write_bytes\<close> creates the file or replaces its content; writing is not an access.\<close>

definition save_chunk :: "string \<Rightarrow> bytes \<Rightarrow> local_store \<Rightarrow> local_store" where
  "save_chunk chunk_hash data st =
     (let name = chunk_filename chunk_hash;
          atime = (case dict_get (ls_files st) name of None \<Rightarrow> ls_now st | Some f \<Rightarrow> fo_atime f)
      in st\<lparr>ls_files := dict_set name \<lparr>fo_data = data, fo_atime = atime\<rparr> (ls_files st)\<rparr>)"

definition load_chunk :: "local_store \<Rightarrow> string \<Rightarrow> bytes option \<times> local_store" where
  "load_chunk st chunk_hash =
     (let name = chunk_filename chunk_hash
      in case dict_get (ls_files st) name of
           None \<Rightarrow> (None, st)
         | Some f \<Rightarrow>
             (Some (fo_data f),
              st\<lparr>ls_files := dict_set name (f\<lparr>fo_atime := ls_touch st (fo_atime f) (ls_now st)\<rparr>)
                               (ls_files st)\<rparr>))"

definition has_chunk :: "local_store \<Rightarrow> string \<Rightarrow> bool" where
  "has_chunk st chunk_hash \<longleftrightarrow> dict_get (ls_files st) (chunk_filename chunk_hash) \<noteq> None"

definition delete_chunk :: "string \<Rightarrow> local_store \<Rightarrow> bool res \<times> local_store" where
  "delete_chunk chunk_hash st =
     (let name = chunk_filename chunk_hash
      in if dict_get (ls_files st) name \<noteq> None
         then if ls_locked st name then (Inl OSError, st)
              else (Inr True, st\<lparr>ls_files := dict_del name (ls_files st)\<rparr>)
         else (Inr False, st))"

text \<open>\<^verbatim>\<open>glob("chunk_*.bin")\<close>, \<^verbatim>\<open>Path.stem\<close> and \<^verbatim>\<open>str.replace(old, "")\<close>\<close>

definition is_chunk_name :: "string \<Rightarrow> bool" where
  "is_chunk_name n \<longleftrightarrow> 10 \<le> length n \<and> take 6 n = ''chunk_'' \<and> drop (length n - 4) n = ''.bin''"

definition glob_chunks :: "local_store \<Rightarrow> (string \<times> file_obj) list" where
  "glob_chunks st = filter (\<lambda>(n, f). is_chunk_name n) (ls_files st)"

definition path_stem :: "string \<Rightarrow> string" where
  "path_stem n =
     (let ext = takeWhile (\<lambda>c. c \<noteq> CHR ''.'') (rev n);
          i = length n - length ext - 1
      in if length ext < length n \<and> 0 < i \<and> 0 < length ext then take i n else n)"

function str_remove :: "string \<Rightarrow> string \<Rightarrow> string" where
  "str_remove old s =
     (if s = [] \<or> old = [] then s
      else if take (length old) s = old then str_remove old (drop (length old) s)
      else hd s # str_remove old (tl s))"
  by pat_completeness auto
termination
  by (relation "measure (\<lambda>(old, s). length s)") auto

declare str_remove.simps [simp del]

definition list_chunks :: "local_store \<Rightarrow> string list" where
  "list_chunks st = map (\<lambda>(n, f). str_remove ''chunk_'' (path_stem n)) (glob_chunks st)"

definition save_manifest :: "string \<Rightarrow> manifest_dict \<Rightarrow> local_store \<Rightarrow> string \<times> local_store" where
  "save_manifest fh d st = (fh, st\<lparr>ls_db := save_manifest_sync fh d (ls_db st)\<rparr>)"

definition load_manifest :: "local_store \<Rightarrow> string \<Rightarrow> manifest_dict option" where
  "load_manifest st fh = get_manifest_sync (ls_db st) fh"

definition get_all_manifests :: "local_store \<Rightarrow> manifest_dict list" where
  "get_all_manifests st = get_all_manifests_sync (ls_db st)"

definition get_storage_size :: "local_store \<Rightarrow> nat" where
  "get_storage_size st = sum_list (map (\<lambda>(n, f). length (fo_data f)) (ls_files st))"

definition get_total_storage_size :: "local_store \<Rightarrow> nat" where
  "get_total_storage_size st = get_storage_size st"

definition get_free_space :: "local_store \<Rightarrow> nat" where
  "get_free_space st = ls_disk_free st"

text \<open>
  The eviction loop over the chunk files, oldest access first: it stops when enough is freed; a
  file that cannot be deleted is skipped.
\<close>

fun evict_loop :: "int \<Rightarrow> nat \<Rightarrow> (string \<times> file_obj) list \<Rightarrow> local_store \<Rightarrow> nat \<times> local_store" where
  "evict_loop goal freed [] st = (freed, st)"
| "evict_loop goal freed ((name, f) # rest) st =
     (if int freed \<ge> goal then (freed, st)
      else if ls_locked st name then evict_loop goal freed rest st
      else evict_loop goal (freed + length (fo_data f)) rest
             (st\<lparr>ls_files := dict_del name (ls_files st)\<rparr>))"

definition evict_oldest_chunks :: "int \<Rightarrow> local_store \<Rightarrow> nat \<times> local_store" where
  "evict_oldest_chunks target_bytes_to_free st =
     (let files = glob_chunks st
      in if files = [] then (0, st)
         else evict_loop target_bytes_to_free 0 (sort_key (\<lambda>(n, f). fo_atime f) files) st)"

subsection \<open>Chunks as a keyed store\<close>

definition chunk_view :: "local_store \<Rightarrow> string \<Rightarrow> bytes option" where
  "chunk_view st h = map_option fo_data (dict_get (ls_files st) (chunk_filename h))"

lemma chunk_filename_inject [simp]: "chunk_filename h = chunk_filename h' \<longleftrightarrow> h = h'"
  by (simp add: chunk_filename_def)

lemma chunk_view_save: "chunk_view (save_chunk h d st) h' = (if h' = h then Some d else chunk_view st h')"
  by (simp add: chunk_view_def save_chunk_def Let_def)

interpretation chunk_files: keyed_store save_chunk chunk_view "\<lambda>h d. d"
  by unfold_locales (rule chunk_view_save)

lemma load_chunk_value: "fst (load_chunk st h) = chunk_view st h"
  by (simp add: load_chunk_def chunk_view_def Let_def split: option.splits)

lemma load_chunk_frame: "chunk_view (snd (load_chunk st h)) h' = chunk_view st h'"
  by (auto simp: load_chunk_def chunk_view_def Let_def split: option.splits)

lemma has_chunk_view: "has_chunk st h \<longleftrightarrow> chunk_view st h \<noteq> None"
  by (simp add: has_chunk_def chunk_view_def)

lemma save_chunk_db [simp]: "ls_db (save_chunk h d st) = ls_db st"
  by (simp add: save_chunk_def Let_def)

lemma load_chunk_db [simp]: "ls_db (snd (load_chunk st h)) = ls_db st"
  by (simp add: load_chunk_def Let_def split: option.splits)

lemma chunk_view_save_manifest [simp]: "chunk_view (snd (save_manifest fh d st)) h = chunk_view st h"
  by (simp add: save_manifest_def chunk_view_def)

definition store_ok :: "local_store \<Rightarrow> bool" where
  "store_ok st \<longleftrightarrow> dict_ok (ls_files st) \<and> db_ok (ls_db st)"

lemma save_chunk_ok: "store_ok st \<Longrightarrow> store_ok (save_chunk h d st)"
  by (auto simp: store_ok_def save_chunk_def Let_def)

lemma load_chunk_ok: "store_ok st \<Longrightarrow> store_ok (snd (load_chunk st h))"
  by (auto simp: store_ok_def load_chunk_def Let_def split: option.splits)

lemma delete_chunk_ok: "store_ok st \<Longrightarrow> store_ok (snd (delete_chunk h st))"
  by (auto simp: store_ok_def delete_chunk_def Let_def)

lemma save_manifest_store_ok: "store_ok st \<Longrightarrow> store_ok (snd (save_manifest fh d st))"
  by (simp add: store_ok_def save_manifest_def save_manifest_ok)

end
