(* ===== verification/Eviction.thy ===== *)
theory Eviction
  imports Storage
begin

section \<open>Quota enforcement (backend/advanced/garbage\_collector.py) and the correctness of the store\<close>

text \<open>
  The storage monitor, one round of its loop at a time, and the theorems about the chunk store
  and the database: what an eviction removes, the quota the monitor restores, the listing of the
  stored chunks, and what a manifest keeps when it goes through SQLite.
\<close>

subsection \<open>The storage monitor\<close>

text \<open>
  One round after the sleep. Sizes are below \<open>2^53\<close> bytes, where the floating-point difference is
  exact up to the rounding of \<open>0.90 * max_bytes\<close>; the model computes it in the reals.
\<close>

definition monitor_target :: "nat \<Rightarrow> nat \<Rightarrow> int" where
  "monitor_target max_bytes used_bytes = \<lfloor>real used_bytes - real max_bytes * (90 / 100)\<rfloor>"

definition storage_monitor_round :: "nat \<Rightarrow> local_store \<Rightarrow> local_store" where
  "storage_monitor_round max_storage_mb st =
     (let max_bytes = max_storage_mb * 1024 * 1024;
          used_bytes = get_total_storage_size st
      in if used_bytes > max_bytes
         then snd (evict_oldest_chunks (monitor_target max_bytes used_bytes) st)
         else st)"

text \<open>The same round for a quota in bytes that need not be a whole number of megabytes, or may be negative.\<close>

definition monitor_round_at :: "real \<Rightarrow> local_store \<Rightarrow> local_store" where
  "monitor_round_at max_bytes st =
     (let used_bytes = get_total_storage_size st
      in if real used_bytes > max_bytes
         then snd (evict_oldest_chunks \<lfloor>real used_bytes - max_bytes * (90 / 100)\<rfloor> st)
         else st)"

lemma monitor_round_megabytes: "storage_monitor_round mb st = monitor_round_at (real mb * 1024 * 1024) st"
proof -
  have "real mb * 1024 * 1024 < real n \<longleftrightarrow> mb * 1024 * 1024 < n" for n
    using of_nat_less_iff [of "mb * 1024 * 1024" n, where ?'a = real] by simp
  then show ?thesis by (simp add: storage_monitor_round_def monitor_round_at_def monitor_target_def Let_def)
qed

subsection \<open>What the eviction loop removes\<close>

text \<open>The files it deletes: a prefix of the deletable files, just long enough.\<close>

fun victims :: "int \<Rightarrow> nat \<Rightarrow> (string \<times> file_obj) list \<Rightarrow> (string \<times> file_obj) list" where
  "victims goal freed [] = []"
| "victims goal freed ((n, f) # rest) =
     (if int freed \<ge> goal then [] else (n, f) # victims goal (freed + length (fo_data f)) rest)"

definition bytes_of :: "(string \<times> file_obj) list \<Rightarrow> nat" where
  "bytes_of fs = sum_list (map (\<lambda>(n, f). length (fo_data f)) fs)"

lemma bytes_of_simps [simp]:
  "bytes_of [] = 0"
  "bytes_of ((n, f) # fs) = length (fo_data f) + bytes_of fs"
  "bytes_of (fs @ gs) = bytes_of fs + bytes_of gs"
  by (simp_all add: bytes_of_def)

definition deletable :: "local_store \<Rightarrow> (string \<times> file_obj) list" where
  "deletable st = filter (\<lambda>(n, f). \<not> ls_locked st n) (sort_key (\<lambda>(n, f). fo_atime f) (glob_chunks st))"

definition evicted :: "int \<Rightarrow> local_store \<Rightarrow> (string \<times> file_obj) list" where
  "evicted goal st = victims goal 0 (deletable st)"

lemma dict_del_filter: "dict_del k d = filter (\<lambda>(k', v). k' \<noteq> k) d"
  by (auto simp: AList.delete_eq intro: filter_cong)

lemma evict_loop_victims:
  "evict_loop goal freed xs st =
     (let vs = victims goal freed (filter (\<lambda>(n, f). \<not> ls_locked st n) xs)
      in (freed + bytes_of vs,
          st\<lparr>ls_files := filter (\<lambda>(n, f). n \<notin> fst ` set vs) (ls_files st)\<rparr>))"
proof (induction goal freed xs st rule: evict_loop.induct)
  case (2 goal freed name f rest st)
  consider "int freed \<ge> goal" | "int freed < goal" "ls_locked st name"
    | "int freed < goal" "\<not> ls_locked st name" by linarith
  then show ?case
  proof cases
    case 1
    then show ?thesis
      by (cases "filter (\<lambda>(n, f). \<not> ls_locked st n) ((name, f) # rest)") (auto simp: case_prod_unfold)
  next
    case 2
    then show ?thesis using "2.IH"(1) by simp
  next
    case 3
    then show ?thesis using "2.IH"(2)
      by (simp add: Let_def dict_del_filter case_prod_unfold conj_commute)
  qed
qed (simp add: case_prod_unfold)

lemma evict_oldest_chunks_evicted:
  "evict_oldest_chunks goal st =
     (bytes_of (evicted goal st),
      st\<lparr>ls_files := filter (\<lambda>(n, f). n \<notin> fst ` set (evicted goal st)) (ls_files st)\<rparr>)"
  by (auto simp: evict_oldest_chunks_def evict_loop_victims evicted_def deletable_def Let_def
      case_prod_unfold)

lemma victims_prefix: "\<exists>rest. xs = victims goal freed xs @ rest"
  by (induction goal freed xs rule: victims.induct) auto

lemma set_victims: "set (victims goal freed xs) \<subseteq> set xs"
  by (metis victims_prefix set_append Un_upper1)

lemma victims_enough: "victims goal freed xs \<noteq> xs \<Longrightarrow> goal \<le> int (freed + bytes_of (victims goal freed xs))"
  by (induction goal freed xs rule: victims.induct) (auto split: if_splits)

lemma victims_minimal:
  "victims goal freed xs = vs @ [v] \<Longrightarrow> int (freed + bytes_of vs) < goal"
proof (induction goal freed xs arbitrary: vs rule: victims.induct)
  case (2 goal freed n f rest)
  then show ?case by (cases vs) (auto split: if_splits)
qed simp

lemma bytes_of_partition:
  "bytes_of xs = bytes_of (filter P xs) + bytes_of (filter (\<lambda>x. \<not> P x) xs)"
  by (induction xs) auto

lemma get_storage_size_bytes: "get_storage_size st = bytes_of (ls_files st)"
  by (simp add: get_storage_size_def bytes_of_def)

lemma bytes_of_perm: "mset xs = mset ys \<Longrightarrow> bytes_of xs = bytes_of ys"
  unfolding bytes_of_def sum_mset_sum_list [symmetric] mset_map by (rule arg_cong)

lemma set_deletable:
  "(n, f) \<in> set (deletable st) \<longleftrightarrow> (n, f) \<in> set (ls_files st) \<and> is_chunk_name n \<and> \<not> ls_locked st n"
  by (auto simp: deletable_def glob_chunks_def)

lemma evicted_deletable: "x \<in> set (evicted goal st) \<Longrightarrow> x \<in> set (deletable st)"
  using set_victims [of goal 0 "deletable st"] by (auto simp: evicted_def)

lemma dict_ok_sort: "dict_ok d \<Longrightarrow> dict_ok (sort_key f d)"
  unfolding dict_ok_def by (metis mset_sort mset_map mset_eq_imp_distinct_iff)

lemma deletable_ok: "store_ok st \<Longrightarrow> distinct (map fst (deletable st))"
  unfolding store_ok_def deletable_def glob_chunks_def dict_ok_def [symmetric]
  by (intro dict_ok_filter dict_ok_sort) simp

lemma evicted_ok: "store_ok st \<Longrightarrow> distinct (map fst (evicted goal st))"
  using victims_prefix [of "deletable st" goal 0] deletable_ok [of st]
  by (metis distinct_append evicted_def map_append)

lemma evicted_has:
  assumes "store_ok st" and f: "(n, f) \<in> set (ls_files st)"
  shows "n \<in> fst ` set (evicted goal st) \<longleftrightarrow> (n, f) \<in> set (evicted goal st)"
proof
  assume "n \<in> fst ` set (evicted goal st)"
  then obtain g where g: "(n, g) \<in> set (evicted goal st)" by auto
  then have "(n, g) \<in> set (ls_files st)" using evicted_deletable [OF g] by (simp add: set_deletable)
  then have "f = g" using f assms(1) unfolding store_ok_def dict_ok_def
    by (blast dest: eq_key_imp_eq_value)
  with g show "(n, f) \<in> set (evicted goal st)" by simp
qed force

lemma evicted_bytes:
  assumes "store_ok st"
  shows "bytes_of (filter (\<lambda>(n, f). n \<in> fst ` set (evicted goal st)) (ls_files st)) = bytes_of (evicted goal st)"
proof (rule bytes_of_perm)
  have d: "distinct (ls_files st)" "distinct (evicted goal st)"
    using assms evicted_ok [OF assms] by (auto simp: store_ok_def dict_ok_def distinct_map)
  have key: "n \<in> fst ` set (evicted goal st) \<longleftrightarrow> (n, f) \<in> set (evicted goal st)"
    if "(n, f) \<in> set (ls_files st)" for n f
    using evicted_has [OF assms that] .
  have "filter (\<lambda>(n, f). n \<in> fst ` set (evicted goal st)) (ls_files st) =
      filter (\<lambda>x. x \<in> set (evicted goal st)) (ls_files st)"
    by (rule filter_cong) (auto dest: key)
  moreover have "set (evicted goal st) \<subseteq> set (ls_files st)"
    using evicted_deletable [of _ goal st] by (auto simp: set_deletable)
  ultimately have "set (filter (\<lambda>(n, f). n \<in> fst ` set (evicted goal st)) (ls_files st)) = set (evicted goal st)"
    by auto
  then show "mset (filter (\<lambda>(n, f). n \<in> fst ` set (evicted goal st)) (ls_files st)) = mset (evicted goal st)"
    using d by (simp only: distinct_filter set_eq_iff_mset_eq_distinct)
qed

lemma evict_bytes:
  assumes "store_ok st"
  shows "get_storage_size (snd (evict_oldest_chunks goal st)) + fst (evict_oldest_chunks goal st) = get_storage_size st"
proof -
  let ?gone = "\<lambda>(n, f). n \<in> fst ` set (evicted goal st)"
  have "get_storage_size (snd (evict_oldest_chunks goal st)) = bytes_of (filter (\<lambda>x. \<not> ?gone x) (ls_files st))"
    by (simp add: evict_oldest_chunks_evicted get_storage_size_bytes case_prod_unfold)
  moreover have "fst (evict_oldest_chunks goal st) = bytes_of (filter ?gone (ls_files st))"
    by (simp add: evict_oldest_chunks_evicted evicted_bytes [OF assms])
  ultimately show ?thesis
    using bytes_of_partition [of "ls_files st" ?gone] by (simp only: get_storage_size_bytes add.commute)
qed

lemma evict_get:
  assumes "store_ok st"
  shows "dict_get (ls_files (snd (evict_oldest_chunks goal st))) n =
     (if n \<in> fst ` set (evicted goal st) then None else dict_get (ls_files st) n)"
  using assms
  by (auto simp: evict_oldest_chunks_evicted store_ok_def dict_get_filter split: option.splits)

lemma deletable_sorted: "sorted (map (\<lambda>(n, f). fo_atime f) (deletable st))"
  unfolding deletable_def by (intro sorted_filter) simp

lemma evicted_before:
  assumes "x \<in> set (evicted goal st)" and "y \<in> set (deletable st)" and "y \<notin> set (evicted goal st)"
  shows "fo_atime (snd x) \<le> fo_atime (snd y)"
proof -
  obtain rest where "deletable st = evicted goal st @ rest"
    using victims_prefix [of "deletable st" goal 0] by (auto simp: evicted_def)
  then show ?thesis
    using assms deletable_sorted [of st] by (fastforce simp: sorted_append case_prod_unfold)
qed

lemma evicted_enough:
  "(\<exists>y \<in> set (deletable st). y \<notin> set (evicted goal st)) \<Longrightarrow> goal \<le> int (bytes_of (evicted goal st))"
  using victims_enough [of goal 0 "deletable st"] by (cases "evicted goal st = deletable st") (auto simp: evicted_def)

text \<open>The files that are gone, and the last of them.\<close>

lemma evict_gone:
  assumes "store_ok st"
  shows "{(n, f) \<in> set (ls_files st). dict_get (ls_files (snd (evict_oldest_chunks goal st))) n = None} = set (evicted goal st)"
proof -
  have "dict_get (ls_files st) n \<noteq> None" if "(n, f) \<in> set (ls_files st)" for n f
    using that assms by (auto simp: store_ok_def dict_ok_get)
  moreover have "set (evicted goal st) \<subseteq> set (ls_files st)"
    using evicted_deletable [of _ goal st] by (auto simp: set_deletable)
  ultimately show ?thesis
    using evict_get [OF assms, of goal] evicted_has [OF assms, of _ _ goal] by fastforce
qed

lemma evicted_last:
  assumes "set (evicted goal st) \<noteq> {}"
  shows "\<exists>(n, f) \<in> set (evicted goal st). int (bytes_of (evicted goal st)) - int (length (fo_data f)) < goal \<and>
     (\<forall>(n', f') \<in> set (evicted goal st). fo_atime f' \<le> fo_atime f)"
proof -
  obtain vs n f where v: "evicted goal st = vs @ [(n, f)]" using assms by (metis prod.exhaust rev_exhaust set_empty)
  obtain rest where "deletable st = evicted goal st @ rest"
    using victims_prefix [of "deletable st" goal 0] by (auto simp: evicted_def)
  then have "sorted (map (\<lambda>(n, f). fo_atime f) (vs @ [(n, f)]))"
    using deletable_sorted [of st] v by (simp add: sorted_append)
  then have "\<forall>(n', f') \<in> set (evicted goal st). fo_atime f' \<le> fo_atime f"
    unfolding v by (fastforce simp: sorted_append)
  moreover have "int (bytes_of (evicted goal st)) - int (length (fo_data f)) < goal"
    using victims_minimal [of goal 0 "deletable st" vs "(n, f)"] v by (simp add: evicted_def)
  ultimately show ?thesis unfolding v by (intro bexI [of _ "(n, f)"]) auto
qed

lemma evict_keeps_ok: "store_ok st \<Longrightarrow> store_ok (snd (evict_oldest_chunks goal st))"
  by (auto simp: evict_oldest_chunks_evicted store_ok_def)

lemma evict_db [simp]: "ls_db (snd (evict_oldest_chunks goal st)) = ls_db st"
  by (simp add: evict_oldest_chunks_evicted)

subsection \<open>Listing the stored chunks\<close>

lemma str_remove_absent: "c \<in> set old \<Longrightarrow> c \<notin> set s \<Longrightarrow> str_remove old s = s"
proof (induction old s rule: str_remove.induct)
  case (1 old s)
  show ?case
  proof (cases "s = []")
    case False
    then obtain x t where s: "s = x # t" by (cases s) auto
    have "take (length old) s \<noteq> old" using "1.prems" by (metis in_set_takeD)
    then show ?thesis
      using "1.IH"(2) "1.prems" s by (subst str_remove.simps) auto
  qed (simp add: str_remove.simps)
qed

lemma chunk_stem: "path_stem (chunk_filename h) = ''chunk_'' @ h"
  by (simp add: path_stem_def chunk_filename_def Let_def)

lemma chunk_listed: "CHR ''_'' \<notin> set h \<Longrightarrow> str_remove ''chunk_'' (path_stem (chunk_filename h)) = h"
  unfolding chunk_stem
  by (subst str_remove.simps) (simp add: str_remove_absent [of "CHR ''_''"])

lemma chunk_filename_is_chunk [simp]: "is_chunk_name (chunk_filename h)"
  by (simp add: is_chunk_name_def chunk_filename_def)

lemma set_list_chunks:
  "set (list_chunks st) = (\<lambda>n. str_remove ''chunk_'' (path_stem n)) ` {n \<in> fst ` set (ls_files st). is_chunk_name n}"
  by (force simp: list_chunks_def glob_chunks_def)

lemma save_chunk_names: "fst ` set (ls_files (save_chunk h d st)) = insert (chunk_filename h) (fst ` set (ls_files st))"
  by (simp add: save_chunk_def Let_def dom_map_of_conv_image_fst [symmetric] update_conv')

subsection \<open>Properties of the store\<close>

text \<open>
  Eviction accounts for every byte: the bytes it reports as freed are the bytes that left the
  storage directory. It only deletes chunk files: any other file, and a file the system refuses to
  delete, is found afterwards as it was before.
\<close>

theorem eviction_accounting:
  assumes "store_ok st" and "evict_oldest_chunks goal st = (freed, st')"
  shows "get_storage_size st' + freed = get_storage_size st \<and>
    (\<forall>n. (\<not> is_chunk_name n \<or> ls_locked st n) \<longrightarrow> dict_get (ls_files st') n = dict_get (ls_files st) n)"
proof (intro conjI allI impI)
  show "get_storage_size st' + freed = get_storage_size st"
    using evict_bytes [OF assms(1), of goal] assms(2) by simp
  fix n assume "\<not> is_chunk_name n \<or> ls_locked st n"
  then have "n \<notin> fst ` set (evicted goal st)"
    using evicted_deletable [of _ goal st] by (force simp: set_deletable)
  then show "dict_get (ls_files st') n = dict_get (ls_files st) n"
    using evict_get [OF assms(1), of goal n] assms(2) by simp
qed

text \<open>
  C15. Eviction is least recently used. The bytes reported as freed are those of the files that are gone, all of them
  chunk files that could be deleted; every other file is as it was. No deleted chunk file was accessed later than a deletable one that is kept. Enough is freed: when a
  deletable chunk file is kept, the target was reached. And no more than needed: without the last of the deleted files, one that was
  accessed as late as any of them, the target would have been missed.
\<close>

theorem eviction_lru:
  assumes "store_ok st" and "evict_oldest_chunks goal st = (freed, st')"
    and "gone = {(n, f) \<in> set (ls_files st). dict_get (ls_files st') n = None}"
    and "kept = {(n, f) \<in> set (ls_files st'). is_chunk_name n \<and> \<not> ls_locked st n}"
  shows "get_storage_size st' + freed = get_storage_size st \<and>
    (\<forall>(n, f) \<in> gone. is_chunk_name n \<and> \<not> ls_locked st n) \<and> set (ls_files st') = set (ls_files st) - gone \<and>
    (\<forall>(n, f) \<in> gone. \<forall>(n', f') \<in> kept. fo_atime f \<le> fo_atime f') \<and>
    (kept \<noteq> {} \<longrightarrow> goal \<le> int freed) \<and>
    (gone \<noteq> {} \<longrightarrow> (\<exists>(n, f) \<in> gone. int freed - int (length (fo_data f)) < goal \<and> (\<forall>(n', f') \<in> gone. fo_atime f' \<le> fo_atime f)))"
proof -
  let ?E = "evicted goal st"
  have freed: "freed = bytes_of ?E"
    and st': "ls_files st' = filter (\<lambda>(n, f). n \<notin> fst ` set ?E) (ls_files st)"
    using assms(2) by (auto simp: evict_oldest_chunks_evicted)
  have gone: "gone = set ?E"
    using evict_gone [OF assms(1), of goal] assms(2,3) by simp
  have rest: "set (ls_files st') = set (ls_files st) - gone"
  proof (rule set_eqI)
    fix x show "x \<in> set (ls_files st') \<longleftrightarrow> x \<in> set (ls_files st) - gone"
      using evicted_has [OF assms(1), of "fst x" "snd x" goal] by (cases "x \<in> set (ls_files st)") (simp_all add: st' gone case_prod_beta)
  qed
  have kept: "kept = set (deletable st) - set ?E"
    by (auto simp: assms(4) rest gone set_deletable)
  have enough: "kept \<noteq> {} \<longrightarrow> goal \<le> int freed" using evicted_enough [of st goal] by (auto simp: kept freed)
  have old: "\<forall>(n, f) \<in> gone. \<forall>(n', f') \<in> kept. fo_atime f \<le> fo_atime f'"
    using evicted_before [of _ goal st] by (fastforce simp: gone kept)
  have last: "\<exists>(n, f) \<in> gone. int freed - int (length (fo_data f)) < goal \<and> (\<forall>(n', f') \<in> gone. fo_atime f' \<le> fo_atime f)"
    if "gone \<noteq> {}" using evicted_last [of goal st] that by (simp add: gone freed)
  show ?thesis
    using evict_bytes [OF assms(1), of goal] assms(2) evicted_deletable [of _ goal st] rest enough old last
    by (auto simp: gone set_deletable)
qed

text \<open>A directory with two chunks and the database file, and a directory with a locked chunk.\<close>

definition example_store :: local_store where
  "example_store =
     \<lparr>ls_files = [(chunk_filename ''a'', \<lparr>fo_data = [1, 2, 3], fo_atime = 5\<rparr>),
                  (''node.db'', \<lparr>fo_data = [0, 0], fo_atime = 0\<rparr>),
                  (chunk_filename ''b'', \<lparr>fo_data = [4], fo_atime = 2\<rparr>)],
      ls_db = empty_db, ls_now = 9, ls_touch = (\<lambda>old new. new), ls_locked = (\<lambda>n. False),
      ls_disk_free = 100\<rparr>"

lemma example_store_ok: "store_ok example_store"
  by (simp add: store_ok_def example_store_def empty_db_ok dict_ok_def chunk_filename_def)

lemma example_evicted: "evict_oldest_chunks 1 example_store =
    (1, example_store\<lparr>ls_files := take 2 (ls_files example_store)\<rparr>)"
  by (simp add: evict_oldest_chunks_def example_store_def glob_chunks_def is_chunk_name_def
      chunk_filename_def Let_def)

theorem eviction_accounting_witness:
  "get_storage_size (example_store\<lparr>ls_files := take 2 (ls_files example_store)\<rparr>) + 1 =
     get_storage_size example_store"
  using eviction_accounting [OF example_store_ok example_evicted] by simp

theorem eviction_lru_witness:
  "let (freed, st') = evict_oldest_chunks 1 example_store in
     freed = 1 \<and> 1 \<le> int freed \<and>
     fst ` set (ls_files example_store) - fst ` set (ls_files st') = {chunk_filename ''b''} \<and>
     (\<forall>(n, f) \<in> set (ls_files st'). is_chunk_name n \<longrightarrow> 2 \<le> fo_atime f)"
proof -
  let ?st' = "example_store\<lparr>ls_files := take 2 (ls_files example_store)\<rparr>"
  let ?gone = "{(n, f) \<in> set (ls_files example_store). dict_get (ls_files ?st') n = None}"
    and ?kept = "{(n, f) \<in> set (ls_files ?st'). is_chunk_name n \<and> \<not> ls_locked example_store n}"
  have gone: "?gone = {(chunk_filename ''b'', \<lparr>fo_data = [4], fo_atime = 2\<rparr>)}"
    by (auto simp: example_store_def chunk_filename_def numeral_2_eq_2)
  have kept: "?kept = {(n, f) \<in> set (ls_files ?st'). is_chunk_name n}" by (simp add: example_store_def)
  have "(chunk_filename ''a'', \<lparr>fo_data = [1, 2, 3], fo_atime = 5\<rparr>) \<in> ?kept"
    by (simp add: example_store_def numeral_2_eq_2)
  then have "?kept \<noteq> {}" by blast
  note lru = eviction_lru [OF example_store_ok example_evicted refl refl, unfolded gone]
  have files: "set (ls_files ?st') = set (ls_files example_store) - {(chunk_filename ''b'', \<lparr>fo_data = [4], fo_atime = 2\<rparr>)}"
    using lru by (elim conjE)
  have enough: "(1 :: int) \<le> int 1" using lru \<open>?kept \<noteq> {}\<close> by (elim conjE) (rule mp)
  have "\<forall>(n', f') \<in> ?kept. 2 \<le> fo_atime f'" using lru by (elim conjE) simp
  then have old: "\<forall>(n, f) \<in> set (ls_files ?st'). is_chunk_name n \<longrightarrow> 2 \<le> fo_atime f" unfolding kept by auto
  have "fst ` set (ls_files example_store) - fst ` set (ls_files ?st') = {chunk_filename ''b''}"
    unfolding files by (simp add: example_store_def chunk_filename_def insert_Diff_if)
  then show ?thesis using enough old by (simp add: example_evicted)
qed

text \<open>
  C16. The storage monitor restores the quota: after a round the directory is within the configured
  maximum or no deletable chunk file is left, and when the round had to evict and something
  deletable is left, usage is at most a byte above 90 percent of the maximum.
\<close>

theorem quota_restored:
  assumes "store_ok st" and "st' = storage_monitor_round max_storage_mb st"
  shows "(get_total_storage_size st' \<le> max_storage_mb * 1024 * 1024 \<or>
           (\<forall>(n, f) \<in> set (ls_files st'). is_chunk_name n \<longrightarrow> ls_locked st n)) \<and>
    (max_storage_mb * 1024 * 1024 < get_total_storage_size st \<longrightarrow>
      real (get_total_storage_size st') < real (max_storage_mb * 1024 * 1024) * (90 / 100) + 1 \<or>
      (\<forall>(n, f) \<in> set (ls_files st'). is_chunk_name n \<longrightarrow> ls_locked st n))"
proof (cases "max_storage_mb * 1024 * 1024 < get_total_storage_size st")
  case False
  then show ?thesis using assms(2) by (simp add: storage_monitor_round_def)
next
  case True
  define mx where "mx = max_storage_mb * 1024 * 1024"
  define goal where "goal = monitor_target mx (get_total_storage_size st)"
  have st': "st' = snd (evict_oldest_chunks goal st)"
    using True assms(2) by (simp add: storage_monitor_round_def goal_def mx_def)
  have split: "get_storage_size st' + bytes_of (evicted goal st) = get_storage_size st"
    using evict_bytes [OF assms(1), of goal] by (simp add: st' evict_oldest_chunks_evicted)
  show ?thesis
  proof (cases "\<exists>y \<in> set (deletable st). y \<notin> set (evicted goal st)")
    case True
    then have "goal \<le> int (bytes_of (evicted goal st))" by (rule evicted_enough)
    then have b: "real (get_storage_size st') < real mx * (90 / 100) + 1"
      using split unfolding goal_def monitor_target_def get_total_storage_size_def by linarith
    moreover have "get_storage_size st' \<le> mx"
    proof (cases "max_storage_mb = 0")
      case True
      then have "real (get_storage_size st') < 1" using b by (simp add: mx_def)
      then show ?thesis by simp
    next
      case False
      then have "1048576 \<le> real mx" unfolding mx_def by simp
      then show ?thesis using b by linarith
    qed
    ultimately show ?thesis by (simp add: get_total_storage_size_def mx_def)
  next
    case False
    have "is_chunk_name n \<longrightarrow> ls_locked st n" if nf: "(n, f) \<in> set (ls_files st')" for n f
    proof (rule impI, rule ccontr)
      assume "is_chunk_name n" "\<not> ls_locked st n"
      with nf have "(n, f) \<in> set (deletable st)" "n \<notin> fst ` set (evicted goal st)"
        by (auto simp: st' evict_oldest_chunks_evicted set_deletable)
      then show False using False by force
    qed
    then show ?thesis by auto
  qed
qed

theorem quota_restored_witness:
  "list_all (\<lambda>(n, f). \<not> is_chunk_name n) (ls_files (storage_monitor_round 0 example_store)) \<or>
     get_total_storage_size (storage_monitor_round 0 example_store) = 0"
  using quota_restored [OF example_store_ok refl, of 0, THEN conjunct1]
  by (auto simp: list_all_iff example_store_def)

text \<open>
  Saving a chunk adds its hash to the listing of stored chunks and nothing else, whatever the
  hash is, as long as it has no underscore (a hexadecimal digest never has one).
\<close>

theorem list_chunks_saved:
  assumes "CHR ''_'' \<notin> set h"
  shows "set (list_chunks (save_chunk h data st)) = insert h (set (list_chunks st))"
  using chunk_listed [OF assms]
  by (simp add: set_list_chunks save_chunk_names insert_Collect [symmetric])
    (auto intro: image_eqI [where x = "chunk_filename h"] simp: image_iff)

theorem list_chunks_saved_witness:
  "set (list_chunks (save_chunk ''ab12'' [7] (example_store\<lparr>ls_files := []\<rparr>))) = {''ab12''}"
  using list_chunks_saved [of "''ab12''" "[7]" "example_store\<lparr>ls_files := []\<rparr>"]
  by (simp add: list_chunks_def glob_chunks_def)

text \<open>
  What a manifest keeps when it is saved to SQLite and read back as a \<^verbatim>\<open>FileManifest\<close>: every
  field but the chunk size, which becomes the default of 256 KB whatever it was; manifests under
  other file hashes are untouched.
\<close>

theorem manifest_database_roundtrip:
  "bindr (item fh (load_manifest (snd (save_manifest fh (to_dict m) st)) fh)) (from_dict L) =
     Inr (with_root L (m\<lparr>file_hash := fh, chunk_size := DEFAULT_CHUNK_SIZE\<rparr>)) \<and>
   load_manifest (snd (save_manifest fh (to_dict m) st)) fh' =
     (if fh' = fh then Some (stored_dict fh (to_dict m)) else load_manifest st fh')"
  by (simp add: load_manifest_def save_manifest_def manifests.get_put from_stored_to_dict)

end
