(* ===== verification/Pipeline.thy ===== *)
theory Pipeline
  imports Chunker
begin

section \<open>The streaming pipeline (backend/file\_engine/pipeline.py)\<close>

text \<open>
  Chunking with one store operation in flight, merging with one load in flight, and the streaming
  generator behind previews. Storing and loading are the caller's coroutines: functions that take
  the world \<open>'s\<close> they act on and return it changed. A task made by \<^verbatim>\<open>create_task\<close> runs while
  its creator awaits the worker process, which touches none of that world, so the model runs it
  where it is created and keeps its outcome until it is awaited, which is when an exception of
  the task surfaces.
\<close>

type_synonym 's store_fn = "string \<Rightarrow> bytes \<Rightarrow> 's \<Rightarrow> unit res \<times> 's"
type_synonym 's load_fn = "string \<Rightarrow> 's \<Rightarrow> bytes res \<times> 's"

subsection \<open>Chunk and store\<close>

definition pipeline_encrypt :: "lib \<Rightarrow> keysalt \<Rightarrow> bytes \<Rightarrow> rng \<Rightarrow> (bytes \<times> string) res \<times> rng" where
  "pipeline_encrypt L ks raw_bytes r =
     (case ks of
        Some (enc_key, enc_salt) \<Rightarrow> worker_encrypt_keyed L raw_bytes enc_key enc_salt r
      | None \<Rightarrow> let ct = zstd_compress L raw_bytes in (Inr (ct, sha256 L ct), r))"

text \<open>\<open>pending\<close> is the outcome of the store task in flight; awaiting it raises its exception.\<close>

fun await_pending :: "unit res option \<Rightarrow> unit res" where
  "await_pending None = Inr ()"
| "await_pending (Some outcome) = outcome"

fun pipeline_loop ::
    "lib \<Rightarrow> 's store_fn \<Rightarrow> keysalt \<Rightarrow> (int \<times> bytes) list \<Rightarrow> unit res option \<Rightarrow> chunk_info list \<Rightarrow>
     's \<Rightarrow> rng \<Rightarrow> chunk_info list res \<times> 's \<times> rng" where
  "pipeline_loop L store ks [] pending infos s r =
     (bindr (await_pending pending) (\<lambda>_. Inr infos), s, r)"
| "pipeline_loop L store ks ((idx, raw_bytes) # rest) pending infos s r =
     (let (enc, r1) = pipeline_encrypt L ks raw_bytes r
      in case enc of
           Inl e \<Rightarrow> (Inl e, s, r1)
         | Inr (ct, ch) \<Rightarrow>
             let infos' = infos @ [\<lparr>ci_index = idx, ci_hash = ch, ci_size = int (length ct),
                                    ci_encrypted = (ks \<noteq> None)\<rparr>]
             in case await_pending pending of
                  Inl e \<Rightarrow> (Inl e, s, r1)
                | Inr _ \<Rightarrow>
                    let (outcome, s') = store ch ct s
                    in pipeline_loop L store ks rest (Some outcome) infos' s' r1)"

definition pipeline_chunk_and_store ::
    "lib \<Rightarrow> filesys \<Rightarrow> 's store_fn \<Rightarrow> string \<Rightarrow> int option \<Rightarrow> string option \<Rightarrow> 's \<Rightarrow> rng \<Rightarrow>
     file_manifest res \<times> 's \<times> rng" where
  "pipeline_chunk_and_store L fs store file_path csize password s r =
     (case fs file_path of
        None \<Rightarrow> (Inl (FileNotFoundError file_path), s, r)
      | Some content \<Rightarrow>
          let file_size = int (length content);
              csize' = (case csize of None \<Rightarrow> get_optimal_chunk_size file_size | Some n \<Rightarrow> n);
              manifest = new_manifest (path_name file_path) file_size (streaming_file_hash L content) csize';
              (ks, r1) = (if truthy password
                          then let (k, r') = derive_key L (the password) None r in (Some k, r')
                          else (None, r));
              (out, s', r2) = pipeline_loop L store ks (stream_chunks csize' 0 content) None [] s r1
          in (bindr out (\<lambda>infos.
                Inr (manifest\<lparr>chunks := infos,
                              merkle_root := compute_merkle_root L (map ci_hash infos),
                              compression := ''zstd''\<rparr>)), s', r2))"

subsection \<open>Merge to disk\<close>

text \<open>One chunk; the key is derived from the salt of this very chunk.\<close>

definition pipeline_plaintext :: "lib \<Rightarrow> bool \<Rightarrow> bytes \<Rightarrow> bytes option \<Rightarrow> bytes res" where
  "pipeline_plaintext L use_zstd data dec_key =
     (case dec_key of
        Some key \<Rightarrow> if use_zstd then worker_decrypt_keyed L data key
                    else worker_decrypt_keyed_nocompress L data key
      | None \<Rightarrow> if use_zstd then zdecompress L data else Inr data)"

definition merge_key :: "lib \<Rightarrow> string option \<Rightarrow> chunk_info \<Rightarrow> bytes \<Rightarrow> bytes option" where
  "merge_key L password info data =
     (if ci_encrypted info \<and> truthy password
      then Some (key_for L (the password) (py_slice 1 (1 + SALT_SIZE) data)) else None)"

definition pipeline_open :: "lib \<Rightarrow> string option \<Rightarrow> bool \<Rightarrow> chunk_info \<times> bytes \<Rightarrow> bytes res" where
  "pipeline_open L password use_zstd = (\<lambda>(info, data).
     pipeline_plaintext L use_zstd data (merge_key L password info data))"

text \<open>
  The loop over the ordered chunks: \<open>next_data\<close> is the prefetched chunk. A failing prefetch
  surfaces after the current chunk has been written.
\<close>

fun merge_loop ::
    "'s load_fn \<Rightarrow> (chunk_info \<times> bytes \<Rightarrow> bytes res) \<Rightarrow> chunk_info list \<Rightarrow> bytes option \<Rightarrow> bytes \<Rightarrow> 's \<Rightarrow>
     unit res \<times> bytes \<times> 's" where
  "merge_loop load opn [] next_data written s = (Inr (), written, s)"
| "merge_loop load opn (info # rest) next_data written s =
     (let (got, s1) = (case next_data of Some d \<Rightarrow> (Inr d, s) | None \<Rightarrow> load (ci_hash info) s)
      in case got of
           Inl e \<Rightarrow> (Inl e, written, s1)
         | Inr data \<Rightarrow>
             let (prefetch, s2) =
                   (case rest of
                      [] \<Rightarrow> (None, s1)
                    | nxt # _ \<Rightarrow> let (p, s') = load (ci_hash nxt) s1 in (Some p, s'))
             in case opn (info, data) of
                  Inl e \<Rightarrow> (Inl e, written, s2)
                | Inr plaintext \<Rightarrow>
                    (case prefetch of
                       None \<Rightarrow> merge_loop load opn rest None (written @ plaintext) s2
                     | Some (Inl e) \<Rightarrow> (Inl e, written @ plaintext, s2)
                     | Some (Inr d) \<Rightarrow> merge_loop load opn rest (Some d) (written @ plaintext) s2))"

definition pipeline_merge_to_disk ::
    "lib \<Rightarrow> file_manifest \<Rightarrow> 's load_fn \<Rightarrow> string \<Rightarrow> string option \<Rightarrow> filesys \<Rightarrow> 's \<Rightarrow>
     string res \<times> filesys \<times> 's" where
  "pipeline_merge_to_disk L m load output_path password fs s =
     (let ordered = sort_key ci_index (chunks m);
          (outcome, written, s') =
            merge_loop load (pipeline_open L password (compression m = ''zstd'')) ordered None [] s;
          fs' = fs(output_path \<mapsto> written)
      in case outcome of
           Inl e \<Rightarrow> (Inl e, fs', s')
         | Inr _ \<Rightarrow>
             if sha256 L written \<noteq> file_hash m
             then (Inl (ValueError (PipelineIntegrityFailed (take 16 (file_hash m)) (take 16 (sha256 L written)))),
                   fs'(output_path := None), s')
             else (Inr output_path, fs', s'))"

subsection \<open>Streaming\<close>

text \<open>
  The generator: what it yields before it ends or raises. The key is derived once, from the first
  encrypted chunk.
\<close>

fun stream_loop ::
    "lib \<Rightarrow> string option \<Rightarrow> bool \<Rightarrow> 's load_fn \<Rightarrow> chunk_info list \<Rightarrow> bytes option \<Rightarrow> 's \<Rightarrow>
     bytes list \<times> unit res \<times> 's" where
  "stream_loop L password use_zstd load [] dec_key s = ([], Inr (), s)"
| "stream_loop L password use_zstd load (info # rest) dec_key s =
     (let (got, s1) = load (ci_hash info) s
      in case got of
           Inl e \<Rightarrow> ([], Inl e, s1)
         | Inr data \<Rightarrow>
             let keyed = ci_encrypted info \<and> truthy password;
                 dec_key' = (if keyed \<and> dec_key = None
                             then Some (key_for L (the password) (py_slice 1 (1 + SALT_SIZE) data)) else dec_key)
             in case pipeline_plaintext L use_zstd data (if keyed then dec_key' else None) of
                  Inl e \<Rightarrow> ([], Inl e, s1)
                | Inr plaintext \<Rightarrow>
                    let (ys, fin, s2) = stream_loop L password use_zstd load rest dec_key' s1
                    in (plaintext # ys, fin, s2))"

definition pipeline_stream_file ::
    "lib \<Rightarrow> file_manifest \<Rightarrow> 's load_fn \<Rightarrow> string option \<Rightarrow> 's \<Rightarrow> bytes list \<times> unit res \<times> 's" where
  "pipeline_stream_file L m load password s =
     stream_loop L password (compression m = ''zstd'') load (sort_key ci_index (chunks m)) None s"

subsection \<open>The interface: a source of chunks\<close>

text \<open>
  What merging and streaming rely on: loading a chunk that the source has returns it, and loading
  never makes it forget one. The loaders of the API and of the download manager provide it.
\<close>

locale chunk_source =
  fixes load :: "'s load_fn"
    and view :: "'s \<Rightarrow> string \<Rightarrow> bytes option"
  assumes load_hit: "view s h = Some d \<Longrightarrow> fst (load h s) = Inr d"
    and load_keep: "view s h' = Some d \<Longrightarrow> view (snd (load h s)) h' = Some d"
begin

definition has_all :: "'s \<Rightarrow> (chunk_info \<times> bytes) list \<Rightarrow> bool" where
  "has_all s xs \<longleftrightarrow> (\<forall>(info, d) \<in> set xs. view s (ci_hash info) = Some d)"

lemma has_all_Cons: "has_all s ((info, d) # xs) \<longleftrightarrow> view s (ci_hash info) = Some d \<and> has_all s xs"
  by (simp add: has_all_def)

lemma has_all_load: "has_all s xs \<Longrightarrow> has_all (snd (load h s)) xs"
  by (auto simp: has_all_def load_keep)

lemma load_present:
  assumes "view s h = Some d"
  obtains s' where "load h s = (Inr d, s')" and "s' = snd (load h s)"
  using load_hit [OF assms] by (cases "load h s") auto

lemma merge_loop_write:
  assumes "has_all s xs" and "next_data \<in> {None, map_option snd (find (\<lambda>_. True) xs)}"
  shows "\<exists>s'. merge_loop load opn (map fst xs) next_data w s =
     (fst (write_chunks opn xs w), snd (write_chunks opn xs w), s')"
  using assms
proof (induction xs arbitrary: s next_data w)
  case Nil
  then show ?case by simp
next
  case (Cons x xs)
  obtain info d where x: "x = (info, d)" by (cases x)
  have here: "view s (ci_hash info) = Some d" and rest: "has_all s xs"
    using Cons.prems(1) by (simp_all add: x has_all_Cons)
  obtain s1 where got: "(case next_data of Some d \<Rightarrow> (Inr d, s) | None \<Rightarrow> load (ci_hash info) s) = (Inr d, s1)"
    and s1: "has_all s1 xs"
  proof (cases next_data)
    case None
    then show ?thesis using load_hit [OF here] has_all_load [OF rest, of "ci_hash info"] that
      by (cases "load (ci_hash info) s") auto
  next
    case (Some a)
    then show ?thesis using Cons.prems(2) rest that by (simp add: x)
  qed
  show ?case
  proof (cases xs)
    case Nil
    then show ?thesis using Cons.IH [OF s1, of None] got
      by (auto simp: x Let_def split: sum.splits)
  next
    case (Cons y ys)
    obtain info' d' where y: "y = (info', d')" by (cases y)
    then have "view s1 (ci_hash info') = Some d'" using s1 Cons by (simp add: has_all_Cons)
    then obtain s2 where l: "load (ci_hash info') s1 = (Inr d', s2)" and "s2 = snd (load (ci_hash info') s1)"
      by (rule load_present)
    then have "has_all s2 xs" using has_all_load [OF s1] by simp
    then have IH: "\<exists>s'. merge_loop load opn (map fst xs) (Some d') v s2 =
        (fst (write_chunks opn xs v), snd (write_chunks opn xs v), s')" for v
      using Cons.IH [of s2 "Some d'" v] by (simp add: Cons y)
    show ?thesis
    proof (cases "opn (info, d)")
      case (Inl e)
      then show ?thesis using got l by (simp add: x Cons y)
    next
      case (Inr p)
      have "merge_loop load opn (map fst (x # xs)) next_data w s = merge_loop load opn (map fst xs) (Some d') (w @ p) s2"
        using got l Inr by (simp add: x Cons y)
      then show ?thesis using IH [of "w @ p"] Inr by (simp add: x)
    qed
  qed
qed

lemma stream_loop_all:
  assumes "has_all s xs" and "\<forall>(info, d) \<in> set xs. merge_key L pw info d \<in> {None, Some k}"
    and "dk \<in> {None, Some k}" and "mapr (pipeline_open L pw z) xs = Inr raws"
  shows "\<exists>s'. stream_loop L pw z load (map fst xs) dk s = (raws, Inr (), s')"
  using assms
proof (induction xs arbitrary: s dk raws)
  case (Cons x xs)
  obtain info d where x: "x = (info, d)" by (cases x)
  have "view s (ci_hash info) = Some d" using Cons.prems(1) by (simp add: x has_all_Cons)
  then obtain s1 where l: "load (ci_hash info) s = (Inr d, s1)" "s1 = snd (load (ci_hash info) s)"
    by (rule load_present)
  have s1: "has_all s1 xs" using Cons.prems(1) has_all_load [of s xs] l by (simp add: x has_all_Cons)
  obtain p raws' where p: "pipeline_open L pw z (info, d) = Inr p" "mapr (pipeline_open L pw z) xs = Inr raws'"
    "raws = p # raws'" using Cons.prems(4) by (auto simp: x bindr_eq_Inr)
  let ?keyed = "ci_encrypted info \<and> truthy pw"
  let ?dk = "if ?keyed \<and> dk = None then Some (key_for L (the pw) (py_slice 1 (1 + SALT_SIZE) d)) else dk"
  have k: "?keyed \<Longrightarrow> key_for L (the pw) (py_slice 1 (1 + SALT_SIZE) d) = k"
    using Cons.prems(2) by (simp add: x merge_key_def)
  then have dk: "?dk \<in> {None, Some k}" using Cons.prems(3) by auto
  have "(if ?keyed then ?dk else None) = merge_key L pw info d"
    using k Cons.prems(3) by (auto simp: merge_key_def)
  then have "pipeline_plaintext L z d (if ?keyed then ?dk else None) = Inr p"
    using p(1) by (simp only: pipeline_open_def prod.case)
  moreover obtain s' where "stream_loop L pw z load (map fst xs) ?dk s1 = (raws', Inr (), s')"
    using Cons.IH [OF s1 _ dk p(2)] Cons.prems(2) by auto
  ultimately show ?case using l(1) p(3) by (simp add: x Let_def)
qed simp

end

subsection \<open>The pipeline and the batch chunker\<close>

lemma pipeline_encrypt_chunk:
  "pipeline_encrypt L ks raw r =
     (let (b, r1) = (case ks of Some (key, salt) \<Rightarrow> encrypt_with_key L (zstd_compress L raw) key salt r
                     | None \<Rightarrow> (Inr (zstd_compress L raw), r))
      in (bindr b (\<lambda>ct. Inr (ct, sha256 L ct)), r1))"
  by (auto simp: pipeline_encrypt_def worker_encrypt_keyed_def hashed_def Let_def
      split: option.splits prod.splits)

lemma pipeline_loop_chunk_loop:
  assumes "\<And>h b s. store h b s = (Inr (), put h b s)"
    and "await_pending pending = Inr ()" and "chunk_loop L ks items r = (Inr xs, r')"
  shows "pipeline_loop L store ks items pending infos s r =
     (Inr (infos @ map fst xs), fold (\<lambda>(c, b). put (ci_hash c) b) xs s, r')"
  using assms(2,3)
proof (induction items arbitrary: pending infos s r xs)
  case (Cons item items)
  obtain idx raw where item: "item = (idx, raw)" by (cases item)
  obtain b r1 where b: "(case ks of Some (key, salt) \<Rightarrow> encrypt_with_key L (zstd_compress L raw) key salt r
                     | None \<Rightarrow> (Inr (zstd_compress L raw), r)) = (Inr b, r1)"
    using Cons.prems(2) by (auto simp: item Let_def split: prod.splits sum.splits)
  then obtain ys where ys: "chunk_loop L ks items r1 = (Inr ys, r')"
    "xs = (make_chunk L idx b (ks \<noteq> None), b) # ys"
    using Cons.prems(2) by (auto simp: item Let_def bindr_eq_Inr split: prod.splits)
  have enc: "pipeline_encrypt L ks raw r = (Inr (b, sha256 L b), r1)"
    using b by (simp add: pipeline_encrypt_chunk)
  show ?case
    using Cons.IH [OF _ ys(1), of "Some (Inr ())"] Cons.prems(1) enc
    by (simp add: item ys(2) assms(1) make_chunk_def)
qed simp

definition resolved_size :: "int option \<Rightarrow> bytes \<Rightarrow> int" where
  "resolved_size csize content =
     (case csize of None \<Rightarrow> get_optimal_chunk_size (int (length content)) | Some n \<Rightarrow> n)"

text \<open>Storing chunks one by one, each under its hash.\<close>

lemma pipeline_as_chunk_file:
  assumes "\<And>h b s. store h b s = (Inr (), put h b s)" and "fs path = Some content"
    and "chunk_file L fs path (resolved_size csize content) password r = (Inr (m, data), r')"
  shows "pipeline_chunk_and_store L fs store path csize password s r =
     (Inr m, fold (\<lambda>(c, b). put (ci_hash c) b) (zip (chunks m) data) s, r')"
proof -
  let ?n = "resolved_size csize content"
  let ?m = "new_manifest (path_name path) (int (length content)) (sha256 L content) ?n"
  obtain ks r1 where ks: "(if truthy password
        then let (k, r') = derive_key L (the password) None r in (Some k, r') else (None, r)) = (ks, r1)"
    by (rule prod.exhaust)
  obtain xs where xs: "chunk_loop L ks (stream_chunks ?n 0 content) r1 = (Inr xs, r')"
    and m: "m = ?m\<lparr>chunks := map fst xs, merkle_root := compute_merkle_root L (map (ci_hash \<circ> fst) xs),
                compression := ''zstd''\<rparr>" "data = map snd xs"
    using assms(2,3) ks by (auto simp: chunk_file_def Let_def bindr_eq_Inr split: prod.splits)
  have "pipeline_loop L store ks (stream_chunks ?n 0 content) None [] s r1 =
      (Inr ([] @ map fst xs), fold (\<lambda>(c, b). put (ci_hash c) b) xs s, r')"
    by (rule pipeline_loop_chunk_loop [OF assms(1) _ xs]) simp
  moreover have "zip (chunks m) data = xs" by (simp add: m zip_map_fst_snd)
  ultimately show ?thesis
    using assms(2) ks m(1)
    by (simp add: pipeline_chunk_and_store_def resolved_size_def Let_def)
qed

lemma tagged_index_sorted:
  assumes "length es = length (stream_chunks n 0 content)"
  shows "sort_key ci_index (map fst (tagged L enc (map fst (stream_chunks n 0 content)) es)) =
     map fst (tagged L enc (map fst (stream_chunks n 0 content)) es)"
proof (rule sort_key_sorted_id)
  have "map ci_index (map fst (tagged L enc (map fst (stream_chunks n 0 content)) es)) =
      map fst (stream_chunks n 0 content)"
    using tagged_parts(2) [of "map fst (stream_chunks n 0 content)" es L enc] assms by simp
  also have "sorted \<dots>" unfolding stream_chunks_index by (simp add: sorted_iff_nth_mono)
  finally show "sorted (map ci_index (map fst (tagged L enc (map fst (stream_chunks n 0 content)) es)))" .
qed

lemma pipeline_open_tagged:
  assumes "opens_to L ks es raws" and "length idx = length es"
    and "ks = (if truthy password then Some (key_for L (the password) salt, salt) else None)"
  shows "mapr (pipeline_open L password True) (tagged L (truthy password) idx es) = Inr raws"
    and "\<forall>(info, d) \<in> set (tagged L (truthy password) idx es).
           merge_key L password info d \<in> {None, Some (key_for L (the password) salt)}"
proof -
  let ?f = "\<lambda>e. if truthy password then worker_decrypt_keyed L e (key_for L (the password) salt) else zdecompress L e"
  have salt: "truthy password \<Longrightarrow> e \<in> set es \<Longrightarrow> py_slice 1 (1 + SALT_SIZE) e = salt" for e
    using assms(1,3) by (simp add: opens_to_def)
  have "mapr (pipeline_open L password True) (tagged L (truthy password) idx es) = mapr ?f es"
    by (rule mapr_tagged [OF assms(2)])
      (simp add: pipeline_open_def make_chunk_def merge_key_def pipeline_plaintext_def salt [simplified])
  also have "\<dots> = Inr raws" using assms(1,3) by (cases "truthy password") (simp_all add: opens_to_def)
  finally show "mapr (pipeline_open L password True) (tagged L (truthy password) idx es) = Inr raws" .
  show "\<forall>(info, d) \<in> set (tagged L (truthy password) idx es).
           merge_key L password info d \<in> {None, Some (key_for L (the password) salt)}"
    using salt [simplified] by (auto simp: tagged_def merge_key_def make_chunk_def dest!: set_zip_rightD)
qed

end
