(* ===== verification/Steps.thy ===== *)
theory Steps
  imports Prelude
begin

section \<open>Step relations\<close>

text \<open>
  What the components that run for ever share: a property that every step of a step relation keeps holds in all
  states the system runs through, and a system whose steps descend in a well-founded order comes to rest.
  The registry, the download manager, a node's network, the windowed sender, the orchestrator and the swarm are
  instances.
\<close>

locale invariant_system =
  fixes step :: "'s \<Rightarrow> 's \<Rightarrow> bool" and inv :: "'s \<Rightarrow> bool"
  assumes step_keeps: "step s t \<Longrightarrow> inv s \<Longrightarrow> inv t"
begin

lemma runs_keep: "step\<^sup>*\<^sup>* s t \<Longrightarrow> inv s \<Longrightarrow> inv t"
  by (induction rule: rtranclp_induct) (auto intro: step_keeps)

lemma sequence_keeps: "inv (f 0) \<Longrightarrow> (\<And>n. step (f n) (f (Suc n))) \<Longrightarrow> inv (f n)"
  by (induction n) (auto intro: step_keeps)

end

locale terminating_system = invariant_system +
  fixes order :: "('a \<times> 'a) set"
  assumes wf_order: "wf order" and step_descends: "step s t \<Longrightarrow> inv s \<Longrightarrow> (t, s) \<in> order"
begin

lemma comes_to_rest:
  assumes "inv s"
  shows "\<exists>t. step\<^sup>*\<^sup>* s t \<and> \<not> (\<exists>u. step t u)"
  using wf_order assms
proof (induction s rule: wf_induct_rule)
  case (less s)
  show ?case
  proof (cases "\<exists>t. step s t")
    case True
    then obtain t where t: "step s t" by blast
    then show ?thesis
      using less step_keeps step_descends by (meson converse_rtranclp_into_rtranclp)
  qed blast
qed

lemma no_infinite_run:
  assumes "inv s"
  shows "\<not> (\<exists>f. f 0 = s \<and> (\<forall>n. step (f n) (f (Suc n))))"
proof
  assume "\<exists>f. f 0 = s \<and> (\<forall>n. step (f n) (f (Suc n)))"
  then obtain f where f: "f 0 = s" "\<And>n. step (f n) (f (Suc n))" by blast
  have "\<forall>n. (f (Suc n), f n) \<in> order"
    using sequence_keeps [of f] f assms step_descends by blast
  then show False using wf_order by (auto simp: wf_iff_no_infinite_down_chain)
qed

end

end
