(* ===== verification/NodeState.thy ===== *)
theory NodeState
  imports Storage Steps
begin

section \<open>The state of a node (backend/node/state.py)\<close>

text \<open>
  The peer registry, the chunk registry and the holder table of a node, with the database that
  mirrors the peers. Every method takes one lock for its whole body, so a method is one atomic
  step on the record. Methods that read the clock take the time as an argument \<open>now\<close>.
\<close>

record peer_info =
  pi_node_id :: string
  pi_ip :: string
  pi_tcp_port :: int
  pi_name :: string
  pi_last_seen :: real
  pi_free_space :: int
  pi_uptime :: real
  pi_latency :: real
  pi_health_score :: real
  pi_api_port :: int

definition is_alive :: "real \<Rightarrow> real \<Rightarrow> peer_info \<Rightarrow> bool" where
  "is_alive now timeout p \<longleftrightarrow> now - pi_last_seen p < timeout"

record node_state =
  ns_node_id :: string
  ns_name :: string
  ns_tcp_port :: int
  ns_start_time :: real
  ns_peers :: "(string, peer_info) dict"
  ns_chunks :: "(string, string) dict"
  ns_routing :: "(string, string list) dict"
  ns_db :: "node_db option"

definition new_node_state :: "real \<Rightarrow> string \<Rightarrow> string \<Rightarrow> node_state" where
  "new_node_state now nid name =
     \<lparr>ns_node_id = nid, ns_name = name, ns_tcp_port = 0, ns_start_time = now,
      ns_peers = [], ns_chunks = [], ns_routing = [], ns_db = None\<rparr>"

definition set_database :: "node_db \<Rightarrow> node_state \<Rightarrow> node_state" where
  "set_database db st = st\<lparr>ns_db := Some db\<rparr>"

subsection \<open>Peers\<close>

text \<open>A row of the table as a peer: what the table has no column for gets the class default.\<close>

definition peer_of_row :: "peer_row \<Rightarrow> peer_info" where
  "peer_of_row row =
     \<lparr>pi_node_id = pr_node_id row, pi_ip = pr_ip row, pi_tcp_port = pr_tcp_port row,
      pi_name = pr_name row, pi_last_seen = pr_last_seen row, pi_free_space = 0, pi_uptime = 0,
      pi_latency = 0, pi_health_score = pr_health_score row, pi_api_port = pr_api_port row\<rparr>"

definition load_peers_from_db :: "node_state \<Rightarrow> node_state" where
  "load_peers_from_db st =
     (case ns_db st of
        None \<Rightarrow> st
      | Some db \<Rightarrow>
          st\<lparr>ns_peers := fold (\<lambda>row peers.
               if pr_node_id row = ns_node_id st then peers
               else dict_set (pr_node_id row) (peer_of_row row) peers)
             (get_all_peers_sync db) (ns_peers st)\<rparr>)"

text \<open>The fields of a known peer that a new report overwrites.\<close>

definition merge_peer :: "real \<Rightarrow> peer_info \<Rightarrow> peer_info \<Rightarrow> peer_info" where
  "merge_peer now peer existing =
     existing\<lparr>pi_last_seen := now,
       pi_ip := pi_ip peer,
       pi_tcp_port := pi_tcp_port peer,
       pi_free_space := (if pi_free_space peer \<noteq> 0 then pi_free_space peer else pi_free_space existing),
       pi_uptime := (if pi_uptime peer \<noteq> 0 then pi_uptime peer else pi_uptime existing),
       pi_health_score := (if pi_health_score peer \<noteq> 0 then pi_health_score peer else pi_health_score existing),
       pi_name := (if pi_name peer \<noteq> [] \<and> pi_name peer \<noteq> ''unknown'' then pi_name peer else pi_name existing),
       pi_api_port := (if pi_api_port peer \<noteq> 0 then pi_api_port peer else pi_api_port existing)\<rparr>"

text \<open>
  A port beyond SQLite's 64 bits is stored like any other here; \<^verbatim>\<open>execute\<close> raises \<^verbatim>\<open>OverflowError\<close> for it.
\<close>

definition persist_peer :: "real \<Rightarrow> peer_info \<Rightarrow> node_db option \<Rightarrow> node_db option" where
  "persist_peer now p db =
     map_option (upsert_peer_sync now (pi_node_id p) (pi_ip p) (pi_tcp_port p) (Some (pi_api_port p))
       (Some (pi_name p)) (Some (pi_health_score p)) (Some (pi_last_seen p))) db"

definition add_peer :: "real \<Rightarrow> peer_info \<Rightarrow> node_state \<Rightarrow> node_state" where
  "add_peer now peer st =
     (let p = (case dict_get (ns_peers st) (pi_node_id peer) of
                 Some existing \<Rightarrow> merge_peer now peer existing
               | None \<Rightarrow> peer\<lparr>pi_last_seen := now\<rparr>)
      in st\<lparr>ns_peers := dict_set (pi_node_id peer) p (ns_peers st),
            ns_db := persist_peer now p (ns_db st)\<rparr>)"

definition remove_peer :: "string \<Rightarrow> node_state \<Rightarrow> peer_info option \<times> node_state" where
  "remove_peer nid st = (dict_get (ns_peers st) nid, st\<lparr>ns_peers := dict_del nid (ns_peers st)\<rparr>)"

definition get_peer :: "node_state \<Rightarrow> string \<Rightarrow> peer_info option" where
  "get_peer st nid = dict_get (ns_peers st) nid"

definition get_all_peers :: "node_state \<Rightarrow> (string, peer_info) dict" where
  "get_all_peers st = ns_peers st"

definition get_alive_peers :: "real \<Rightarrow> real \<Rightarrow> node_state \<Rightarrow> (string, peer_info) dict" where
  "get_alive_peers now timeout st = filter (\<lambda>(nid, p). is_alive now timeout p) (ns_peers st)"

subsection \<open>Chunks, holders and the summary\<close>

definition register_chunk :: "string \<Rightarrow> string \<Rightarrow> node_state \<Rightarrow> node_state" where
  "register_chunk chunk_hash file_path st = st\<lparr>ns_chunks := dict_set chunk_hash file_path (ns_chunks st)\<rparr>"

definition get_chunk_path :: "node_state \<Rightarrow> string \<Rightarrow> string option" where
  "get_chunk_path st chunk_hash = dict_get (ns_chunks st) chunk_hash"

definition node_list_chunks :: "node_state \<Rightarrow> (string, string) dict" where
  "node_list_chunks st = ns_chunks st"

definition remove_chunk :: "string \<Rightarrow> node_state \<Rightarrow> string option \<times> node_state" where
  "remove_chunk chunk_hash st =
     (dict_get (ns_chunks st) chunk_hash, st\<lparr>ns_chunks := dict_del chunk_hash (ns_chunks st)\<rparr>)"

definition update_routing :: "string \<Rightarrow> string list \<Rightarrow> node_state \<Rightarrow> node_state" where
  "update_routing chunk_hash peer_ids st = st\<lparr>ns_routing := dict_set chunk_hash peer_ids (ns_routing st)\<rparr>"

definition get_chunk_holders :: "node_state \<Rightarrow> string \<Rightarrow> string list" where
  "get_chunk_holders st chunk_hash = get_or [] (dict_get (ns_routing st) chunk_hash)"

definition get_full_routing_table :: "node_state \<Rightarrow> (string, string list) dict" where
  "get_full_routing_table st = ns_routing st"

definition uptime :: "real \<Rightarrow> node_state \<Rightarrow> real" where
  "uptime now st = now - ns_start_time st"

record peer_status =
  ps_ip :: string
  ps_tcp_port :: int
  ps_last_seen :: real
  ps_name :: string
  ps_host :: string
  ps_port :: int
  ps_health_score :: real
  ps_free_space :: int
  ps_uptime :: real
  ps_api_port :: int

record node_status =
  st_node_id :: string
  st_name :: string
  st_uptime_seconds :: real
  st_peer_count :: nat
  st_chunk_count :: nat
  st_peers :: "(string, peer_status) dict"

text \<open>\<open>round2\<close> stands for \<^verbatim>\<open>round(x, 2)\<close> on floats; the theorems hold for any rounding.\<close>

definition status :: "(real \<Rightarrow> real) \<Rightarrow> real \<Rightarrow> node_state \<Rightarrow> node_status" where
  "status round2 now st =
     \<lparr>st_node_id = ns_node_id st, st_name = ns_name st,
      st_uptime_seconds = round2 (uptime now st),
      st_peer_count = length (get_all_peers st),
      st_chunk_count = length (node_list_chunks st),
      st_peers = map (\<lambda>(nid, p). (nid,
        \<lparr>ps_ip = pi_ip p, ps_tcp_port = pi_tcp_port p, ps_last_seen = pi_last_seen p,
         ps_name = pi_name p, ps_host = pi_ip p, ps_port = pi_tcp_port p,
         ps_health_score = pi_health_score p, ps_free_space = pi_free_space p,
         ps_uptime = pi_uptime p, ps_api_port = pi_api_port p\<rparr>)) (get_all_peers st)\<rparr>"

subsection \<open>The steps of a node's state\<close>

text \<open>Every method that changes the state, at any time and with any arguments.\<close>

inductive node_step :: "node_state \<Rightarrow> node_state \<Rightarrow> bool" where
  step_add: "node_step st (add_peer now peer st)"
| step_remove: "node_step st (snd (remove_peer nid st))"
| step_load: "node_step st (load_peers_from_db st)"
| step_register: "node_step st (register_chunk h path st)"
| step_unregister: "node_step st (snd (remove_chunk h st))"
| step_routing: "node_step st (update_routing h ids st)"

definition node_reachable :: "node_db \<Rightarrow> node_state \<Rightarrow> bool" where
  "node_reachable db st \<longleftrightarrow>
     (\<exists>now nid name. node_step\<^sup>*\<^sup>* (set_database db (new_node_state now nid name)) st)"

definition row_of :: "peer_info \<Rightarrow> peer_row" where
  "row_of p =
     \<lparr>pr_node_id = pi_node_id p, pr_ip = pi_ip p, pr_tcp_port = pi_tcp_port p,
      pr_api_port = pi_api_port p, pr_name = pi_name p, pr_health_score = pi_health_score p,
      pr_last_seen = pi_last_seen p\<rparr>"

lemma row_of_peer_of_row [simp]: "row_of (peer_of_row row) = row"
  by (simp add: row_of_def peer_of_row_def)

lemma peer_of_row_id [simp]: "pi_node_id (peer_of_row row) = pr_node_id row"
  by (simp add: peer_of_row_def)

definition find_peer_row :: "node_db \<Rightarrow> string \<Rightarrow> peer_row option" where
  "find_peer_row db nid = find (\<lambda>r. pr_node_id r = nid) (db_peers db)"

definition mirrored :: "node_db \<Rightarrow> (string, peer_info) dict \<Rightarrow> bool" where
  "mirrored db peers \<longleftrightarrow>
     (\<forall>nid p. dict_get peers nid = Some p \<longrightarrow> pi_node_id p = nid \<and> find_peer_row db nid = Some (row_of p))"

definition node_ok :: "node_state \<Rightarrow> bool" where
  "node_ok st \<longleftrightarrow> dict_ok (ns_peers st) \<and> dict_ok (ns_chunks st) \<and> dict_ok (ns_routing st) \<and>
     (case ns_db st of None \<Rightarrow> True | Some db \<Rightarrow> db_ok db \<and> mirrored db (ns_peers st))"

lemma find_peer_row_upsert:
  "find_peer_row (upsert_peer_sync now nid ip tp ap nm hs ls db) k =
     (if k = nid then find_peer_row (upsert_peer_sync now nid ip tp ap nm hs ls db) nid
      else find_peer_row db k)"
  by (simp add: find_peer_row_def upsert_peer_sync_def find_insert_or_replace)

lemma persist_peer_row:
  "persist_peer now p (Some db) = Some db' \<Longrightarrow>
   find_peer_row db' k = (if k = pi_node_id p then Some (row_of p) else find_peer_row db k)"
  by (auto simp: persist_peer_def find_peer_row_def upsert_peer_sync_def find_insert_or_replace row_of_def)

lemma persist_peer_ok: "db_ok db \<Longrightarrow> persist_peer now p (Some db) = Some db' \<Longrightarrow> db_ok db'"
  by (auto simp: persist_peer_def upsert_peer_ok)

lemma merge_peer_id [simp]: "pi_node_id (merge_peer now peer existing) = pi_node_id existing"
  by (simp add: merge_peer_def)

text \<open>What \<open>load_peers_from_db\<close> finds: the rows win over what was in memory.\<close>

lemma load_fold:
  assumes "distinct (map pr_node_id rows)"
  shows "dict_get (fold (\<lambda>row ps. if pr_node_id row = self then ps
             else dict_set (pr_node_id row) (peer_of_row row) ps) rows peers) nid =
     (case find (\<lambda>r. pr_node_id r = nid) rows of
        Some row \<Rightarrow> if nid = self then dict_get peers nid else Some (peer_of_row row)
      | None \<Rightarrow> dict_get peers nid)"
  using assms
proof (induction rows arbitrary: peers)
  case (Cons row rows)
  have "find (\<lambda>r. pr_node_id r = pr_node_id row) rows = None"
    using Cons.prems by (auto simp: find_None_iff image_iff)
  then show ?case using Cons by (auto split: option.splits)
qed simp

lemma load_peers_get:
  assumes "ns_db st = Some db" and "db_ok db"
  shows "dict_get (ns_peers (load_peers_from_db st)) nid =
     (case find_peer_row db nid of
        Some row \<Rightarrow> if nid = ns_node_id st then dict_get (ns_peers st) nid else Some (peer_of_row row)
      | None \<Rightarrow> dict_get (ns_peers st) nid)"
  using assms load_fold [of "db_peers db"]
  by (simp add: load_peers_from_db_def get_all_peers_sync_def db_ok_def find_peer_row_def)

lemma load_fold_ok:
  "dict_ok peers \<Longrightarrow> dict_ok (fold (\<lambda>row ps. if pr_node_id row = self then ps
             else dict_set (pr_node_id row) (peer_of_row row) ps) rows peers)"
  by (induction rows arbitrary: peers) auto

lemma add_peer_ok: "node_ok st \<Longrightarrow> node_ok (add_peer now peer st)"
proof (cases "ns_db st")
  case None
  then show "node_ok st \<Longrightarrow> node_ok (add_peer now peer st)"
    by (auto simp: node_ok_def add_peer_def persist_peer_def)
next
  case (Some db)
  assume ok: "node_ok st"
  define p where "p = (case dict_get (ns_peers st) (pi_node_id peer) of
                 Some existing \<Rightarrow> merge_peer now peer existing | None \<Rightarrow> peer\<lparr>pi_last_seen := now\<rparr>)"
  have mir: "mirrored db (ns_peers st)" and db: "db_ok db" using ok Some by (simp_all add: node_ok_def)
  have pid: "pi_node_id p = pi_node_id peer"
    using mir by (auto simp: p_def mirrored_def split: option.splits)
  obtain db' where db': "persist_peer now p (Some db) = Some db'" by (simp add: persist_peer_def)
  have "mirrored db' (dict_set (pi_node_id peer) p (ns_peers st))"
    using mir pid by (auto simp: mirrored_def persist_peer_row [OF db'])
  moreover have "db_ok db'" by (rule persist_peer_ok [OF db db'])
  ultimately show ?thesis
    using ok Some db' by (auto simp: node_ok_def add_peer_def p_def [symmetric] Let_def)
qed

lemma load_peers_ok: "node_ok st \<Longrightarrow> node_ok (load_peers_from_db st)"
proof (cases "ns_db st")
  case (Some db)
  assume ok: "node_ok st"
  then have db: "db_ok db" and mir: "mirrored db (ns_peers st)" using Some by (simp_all add: node_ok_def)
  have "mirrored db (ns_peers (load_peers_from_db st))"
    unfolding mirrored_def load_peers_get [OF Some db]
  proof (intro allI impI)
    fix nid p
    assume p: "(case find_peer_row db nid of
        Some row \<Rightarrow> if nid = ns_node_id st then dict_get (ns_peers st) nid else Some (peer_of_row row)
      | None \<Rightarrow> dict_get (ns_peers st) nid) = Some p"
    show "pi_node_id p = nid \<and> find_peer_row db nid = Some (row_of p)"
      using mir p by (auto simp: mirrored_def find_peer_row_def find_Some_iff split: option.splits if_splits)
  qed
  moreover have "ns_db (load_peers_from_db st) = Some db" "ns_chunks (load_peers_from_db st) = ns_chunks st"
    "ns_routing (load_peers_from_db st) = ns_routing st"
    using Some by (simp_all add: load_peers_from_db_def)
  moreover have "dict_ok (ns_peers (load_peers_from_db st))"
    using ok Some by (simp add: load_peers_from_db_def node_ok_def load_fold_ok)
  ultimately show ?thesis using ok db by (simp add: node_ok_def)
qed (simp add: load_peers_from_db_def)

lemma remove_peer_ok: "node_ok st \<Longrightarrow> node_ok (snd (remove_peer nid st))"
  by (auto simp: node_ok_def remove_peer_def mirrored_def split: option.splits)

lemma registry_ok:
  "node_ok st \<Longrightarrow> node_ok (register_chunk h path st)"
  "node_ok st \<Longrightarrow> node_ok (snd (remove_chunk h st))"
  "node_ok st \<Longrightarrow> node_ok (update_routing h ids st)"
  by (auto simp: node_ok_def register_chunk_def remove_chunk_def update_routing_def split: option.splits)

lemma node_step_ok: "node_step st st' \<Longrightarrow> node_ok st \<Longrightarrow> node_ok st'"
  by (induction rule: node_step.induct)
    (erule add_peer_ok remove_peer_ok load_peers_ok registry_ok)+

interpretation registry: invariant_system node_step node_ok
  by unfold_locales (rule node_step_ok)

lemma node_reachable_ok:
  assumes "db_ok db" and "node_reachable db st"
  shows "node_ok st"
proof -
  obtain now nid name where "node_step\<^sup>*\<^sup>* (set_database db (new_node_state now nid name)) st"
    using assms(2) by (auto simp: node_reachable_def)
  then show ?thesis
    using assms(1) by (elim registry.runs_keep) (simp add: node_ok_def set_database_def new_node_state_def mirrored_def)
qed

lemma node_step_db: "node_step st st' \<Longrightarrow> ns_db st \<noteq> None \<Longrightarrow> ns_db st' \<noteq> None"
  by (induction rule: node_step.induct)
    (auto simp: add_peer_def Let_def persist_peer_def remove_peer_def load_peers_from_db_def
      register_chunk_def remove_chunk_def update_routing_def split: option.splits)

interpretation attached: invariant_system node_step "\<lambda>st. ns_db st \<noteq> None"
  by unfold_locales (rule node_step_db)

lemma node_reachable_db: "node_reachable db st \<Longrightarrow> \<exists>db'. ns_db st = Some db'"
proof -
  assume "node_reachable db st"
  then obtain now nid name where "node_step\<^sup>*\<^sup>* (set_database db (new_node_state now nid name)) st"
    by (auto simp: node_reachable_def)
  then have "ns_db st \<noteq> None" by (elim attached.runs_keep) (simp add: set_database_def)
  then show ?thesis by simp
qed

subsection \<open>Properties\<close>

text \<open>
  C17. In every state a node can reach with a database attached, whatever peers were reported,
  removed or loaded in whatever order, the row of each known peer in the database has exactly the
  address, ports, name, health score and time of the registry, and no key occurs twice.
\<close>

theorem peer_table_mirrors_registry:
  assumes "db_ok db" and "node_reachable db st"
  shows "dict_ok (ns_peers st) \<and> (\<exists>db'. ns_db st = Some db' \<and> db_ok db' \<and>
     (\<forall>nid p. get_peer st nid = Some p \<longrightarrow> find_peer_row db' nid = Some (row_of p)))"
proof -
  obtain db' where "ns_db st = Some db'" using node_reachable_db [OF assms(2)] by blast
  with node_reachable_ok [OF assms] show ?thesis by (simp add: node_ok_def mirrored_def get_peer_def)
qed

definition example_peer :: peer_info where
  "example_peer = \<lparr>pi_node_id = ''n1'', pi_ip = ''10.0.0.2'', pi_tcp_port = 50001, pi_name = ''beta'',
     pi_last_seen = 0, pi_free_space = 7, pi_uptime = 3, pi_latency = 0, pi_health_score = 5, pi_api_port = 8001\<rparr>"

definition example_node :: node_state where
  "example_node = add_peer 4 example_peer (set_database empty_db (new_node_state 1 ''n0'' ''alpha''))"

lemma example_node_reachable: "node_reachable empty_db example_node"
  unfolding node_reachable_def example_node_def by (blast intro: step_add)

lemma example_node_peer: "get_peer example_node ''n1'' = Some (example_peer\<lparr>pi_last_seen := 4\<rparr>)"
  by (simp add: example_node_def example_peer_def get_peer_def add_peer_def set_database_def new_node_state_def Let_def)

theorem peer_table_mirrors_registry_witness:
  "\<exists>db'. ns_db example_node = Some db' \<and>
     find_peer_row db' ''n1'' = Some (row_of (example_peer\<lparr>pi_last_seen := 4\<rparr>))"
  using peer_table_mirrors_registry [OF empty_db_ok example_node_reachable] example_node_peer by blast

text \<open>
  C18. A restart loses no peer: a fresh node started on the database of the old one knows every
  peer the old one knew, except itself, with the same address, ports, name, health score and time;
  only the free space, uptime and latency are reset.
\<close>

theorem restart_recovers_peers:
  assumes "db_ok db" and "node_reachable db st" and "ns_db st = Some db'"
    and "get_peer st nid = Some p" and "nid \<noteq> self"
  shows "get_peer (load_peers_from_db (set_database db' (new_node_state now self name))) nid =
     Some (p\<lparr>pi_free_space := 0, pi_uptime := 0, pi_latency := 0\<rparr>)"
proof -
  have "db_ok db'" and "find_peer_row db' nid = Some (row_of p)"
    using node_reachable_ok [OF assms(1,2)] assms(3,4) by (simp_all add: node_ok_def mirrored_def get_peer_def)
  then show ?thesis
    using assms(5) load_peers_get [of "set_database db' (new_node_state now self name)" db' nid]
    by (simp add: get_peer_def set_database_def new_node_state_def peer_of_row_def row_of_def)
qed

theorem restart_recovers_peers_witness:
  "\<exists>db'. ns_db example_node = Some db' \<and>
     get_peer (load_peers_from_db (set_database db' (new_node_state 9 ''n0'' ''alpha''))) ''n1'' =
       Some (example_peer\<lparr>pi_last_seen := 4, pi_free_space := 0, pi_uptime := 0, pi_latency := 0\<rparr>)"
proof -
  obtain db' where db': "ns_db example_node = Some db'" using node_reachable_db [OF example_node_reachable] by blast
  show ?thesis
    using restart_recovers_peers [OF empty_db_ok example_node_reachable db' example_node_peer, of "''n0''" 9 "''alpha''"] db'
    by simp
qed

text \<open>
  A report about a peer makes it known and alive for the whole timeout, and never erases what
  an earlier report said: an empty or zero name, free space, uptime, health score or API port in
  the new report leaves the known value; all other peers are untouched.
\<close>

theorem add_peer_merges:
  assumes "pi_node_id peer = nid" and "get_peer st nid = Some old" and "node_ok st"
    and "st' = add_peer now peer st"
  shows "\<exists>p. get_peer st' nid = Some p \<and> pi_ip p = pi_ip peer \<and> pi_tcp_port p = pi_tcp_port peer \<and>
     pi_latency p = pi_latency old \<and>
     pi_free_space p = (if pi_free_space peer = 0 then pi_free_space old else pi_free_space peer) \<and>
     pi_uptime p = (if pi_uptime peer = 0 then pi_uptime old else pi_uptime peer) \<and>
     pi_health_score p = (if pi_health_score peer = 0 then pi_health_score old else pi_health_score peer) \<and>
     pi_api_port p = (if pi_api_port peer = 0 then pi_api_port old else pi_api_port peer) \<and>
     pi_name p = (if pi_name peer \<in> {[], ''unknown''} then pi_name old else pi_name peer) \<and>
     (\<forall>now' timeout. (nid, p) \<in> set (get_alive_peers now' timeout st') \<longleftrightarrow> now' - now < timeout) \<and>
     (\<forall>other. other \<noteq> nid \<longrightarrow> get_peer st' other = get_peer st other)"
proof (intro exI conjI allI)
  let ?p = "merge_peer now peer old"
  show g: "get_peer st' nid = Some ?p"
    using assms by (simp add: get_peer_def add_peer_def Let_def)
  fix now' timeout
  show "((nid, ?p) \<in> set (get_alive_peers now' timeout st')) = (now' - now < timeout)"
    using g dict_get_SomeD [of "ns_peers st'" nid ?p]
    by (auto simp: get_alive_peers_def is_alive_def merge_peer_def get_peer_def)
next
  fix other
  show "other \<noteq> nid \<longrightarrow> get_peer st' other = get_peer st other"
    using assms by (auto simp: get_peer_def add_peer_def Let_def)
qed (auto simp: merge_peer_def)

lemma example_node_ok: "node_ok example_node"
  by (rule node_reachable_ok [OF empty_db_ok example_node_reachable])

theorem add_peer_merges_witness:
  "\<exists>p. get_peer (add_peer 9 (example_peer\<lparr>pi_name := ''unknown'', pi_free_space := 0\<rparr>) example_node) ''n1'' = Some p \<and>
     pi_name p = ''beta'' \<and> pi_free_space p = 7"
proof -
  have "pi_node_id (example_peer\<lparr>pi_name := ''unknown'', pi_free_space := 0\<rparr>) = ''n1''"
    by (simp add: example_peer_def)
  from add_peer_merges [OF this example_node_peer example_node_ok refl, of 9]
  show ?thesis by (auto simp: example_peer_def)
qed

end
