(* ===== verification/Loader.thy ===== *)
theory Loader
  imports Pipeline Merging Eviction NodeState
begin

section \<open>Chunk loaders (backend/api/routes.py, backend/api/download\_manager.py) and the pipeline's properties\<close>

text \<open>
  Where the pipeline's chunks come from: the local store, and the peers' HTTP servers when a chunk
  is not stored. A peer's answer is a parameter: \<open>net_chunk n peer h\<close> is the body of its answer
  to the \<open>n\<close>-th request of the run when the status is 200, and \<open>None\<close> for any other status or a
  failing connection. The clock stands still during a request handler.
\<close>

record api_world =
  aw_node :: node_state
  aw_store :: local_store
  aw_requests :: nat

subsection \<open>Asking the peers in turn\<close>

fun ask_peers ::
    "(nat \<Rightarrow> peer_info \<Rightarrow> 'r option) \<Rightarrow> (string, peer_info) dict \<Rightarrow> nat \<Rightarrow> 'r option \<times> nat" where
  "ask_peers get [] n = (None, n)"
| "ask_peers get ((nid, peer) # rest) n =
     (case get n peer of
        Some answer \<Rightarrow> (Some answer, Suc n)
      | None \<Rightarrow> ask_peers get rest (Suc n))"

definition alive_peers :: "api_world \<Rightarrow> (string, peer_info) dict" where
  "alive_peers w = get_alive_peers (ls_now (aw_store w)) 15 (aw_node w)"

text \<open>The loader of previews and resumable downloads; they differ in the final exception.\<close>

definition chunk_loader ::
    "(nat \<Rightarrow> peer_info \<Rightarrow> string \<Rightarrow> bytes option) \<Rightarrow> (string \<Rightarrow> exn) \<Rightarrow> api_world load_fn" where
  "chunk_loader net_chunk missing chunk_hash w =
     (let (data, st) = load_chunk (aw_store w) chunk_hash
      in case data of
           Some d \<Rightarrow> (Inr d, w\<lparr>aw_store := st\<rparr>)
         | None \<Rightarrow>
             let (answer, n) = ask_peers (\<lambda>n p. net_chunk n p chunk_hash) (alive_peers w) (aw_requests w)
             in case answer of
                  Some d \<Rightarrow> (Inr d, w\<lparr>aw_store := save_chunk chunk_hash d st, aw_requests := n\<rparr>)
                | None \<Rightarrow> (Inl (missing chunk_hash), w\<lparr>aw_store := st, aw_requests := n\<rparr>))"

definition preview_missing :: "string \<Rightarrow> exn" where
  "preview_missing chunk_hash = HTTPException 404 (''Chunk '' @ take 16 chunk_hash @ ''... not found'')"

definition download_missing :: "string \<Rightarrow> exn" where
  "download_missing chunk_hash = FileNotFoundError (''Chunk '' @ take 16 chunk_hash @ ''... not available'')"

text \<open>The loader of the final merge of a download: the local store only.\<close>

definition store_load_fn :: "local_store load_fn" where
  "store_load_fn chunk_hash st =
     (let (data, st') = load_chunk st chunk_hash
      in case data of
           Some d \<Rightarrow> (Inr d, st')
         | None \<Rightarrow> (Inl (FileNotFoundError (''Chunk '' @ take 12 chunk_hash @ ''... missing from store'')), st'))"

text \<open>\<^verbatim>\<open>save_chunk\<close> as the store function of the pipeline.\<close>

definition disk_store :: "local_store store_fn" where
  "disk_store chunk_hash data st = (Inr (), save_chunk chunk_hash data st)"

subsection \<open>The loaders are chunk sources\<close>

definition world_chunks :: "api_world \<Rightarrow> string \<Rightarrow> bytes option" where
  "world_chunks w h = chunk_view (aw_store w) h"

interpretation stored_chunks: chunk_source store_load_fn chunk_view
proof
  fix s h d
  assume "chunk_view s h = Some d"
  then show "fst (store_load_fn h s) = Inr d"
    using load_chunk_value [of s h] by (cases "load_chunk s h") (simp add: store_load_fn_def)
next
  fix s h h' d
  assume "chunk_view s h' = Some d"
  then show "chunk_view (snd (store_load_fn h s)) h' = Some d"
    using load_chunk_frame [of s h h']
    by (cases "load_chunk s h") (simp add: store_load_fn_def split: option.splits)
qed

interpretation world_source: chunk_source "chunk_loader net_chunk missing" world_chunks for net_chunk missing
proof
  fix s h d
  assume "world_chunks s h = Some d"
  then show "fst (chunk_loader net_chunk missing h s) = Inr d"
    using load_chunk_value [of "aw_store s" h]
    by (cases "load_chunk (aw_store s) h") (simp add: chunk_loader_def world_chunks_def)
next
  fix s h h' d
  assume v: "world_chunks s h' = Some d"
  have f: "chunk_view (snd (load_chunk (aw_store s) h)) h' = Some d"
    using v load_chunk_frame [of "aw_store s" h h'] by (simp add: world_chunks_def)
  have "fst (load_chunk (aw_store s) h) = None \<Longrightarrow> h' \<noteq> h"
    using v load_chunk_value [of "aw_store s" h] by (auto simp: world_chunks_def)
  with f show "world_chunks (snd (chunk_loader net_chunk missing h s)) h' = Some d"
    by (auto simp: chunk_loader_def world_chunks_def Let_def chunk_view_save split: prod.splits option.splits)
qed

subsection \<open>Storing a chunked file\<close>

definition stored_chunks_of :: "lib \<Rightarrow> bytes list \<Rightarrow> local_store \<Rightarrow> local_store" where
  "stored_chunks_of L es st = chunk_files.put_all (map (\<lambda>e. (sha256 L e, e)) es) st"

lemma stored_view:
  assumes "e \<in> set es"
  shows "chunk_view (stored_chunks_of L es st) (sha256 L e) = Some e \<or> collision_in L (set es)"
proof -
  obtain e' where "e' \<in> set es" "sha256 L e' = sha256 L e"
    "chunk_view (stored_chunks_of L es st) (sha256 L e) = Some e'"
    using chunk_files.get_put_all_digest [OF assms, of "sha256 L" st] by (auto simp: stored_chunks_of_def)
  then show ?thesis using sha256_eq_cases [of L e' e "set es"] assms by auto
qed

lemma save_fold:
  "length idx = length es \<Longrightarrow>
   fold (\<lambda>(c, b). save_chunk (ci_hash c) b) (tagged L enc idx es) st = stored_chunks_of L es st"
  by (induction idx es arbitrary: st rule: list_induct2) (simp_all add: stored_chunks_of_def make_chunk_def)

subsection \<open>Merging what a source delivers\<close>

text \<open>
  \<open>stored_file\<close>: a manifest and the stored chunks of a file, as the chunker makes them, up to the
  chunk size that the database loses.
\<close>

definition stored_file :: "lib \<Rightarrow> string option \<Rightarrow> bytes \<Rightarrow> bytes list \<Rightarrow> file_manifest \<Rightarrow> bool" where
  "stored_file L password content es m \<longleftrightarrow>
     (\<exists>path csize r cs. csize \<noteq> 0 \<and>
        opens_to L (fresh_keysalt L password r) es (map snd (stream_chunks csize 0 content)) \<and>
        m = (chunked_manifest L path content csize (truthy password) es)\<lparr>chunk_size := cs\<rparr>)"

lemma stored_file_parts:
  assumes "stored_file L password content es m"
  obtains xs raws salt where "sort_key ci_index (chunks m) = map fst xs" and "map snd xs = es"
    and "\<forall>(info, d) \<in> set xs. ci_hash info = sha256 L d"
    and "mapr (pipeline_open L password True) xs = Inr raws" and "concat raws = content"
    and "\<forall>(info, d) \<in> set xs. merge_key L password info d \<in> {None, Some (key_for L (the password) salt)}"
    and "file_hash m = sha256 L content" and "compression m = ''zstd''"
proof -
  obtain path csize r cs where c: "csize \<noteq> 0"
    and es: "opens_to L (fresh_keysalt L password r) es (map snd (stream_chunks csize 0 content))"
    and m: "m = (chunked_manifest L path content csize (truthy password) es)\<lparr>chunk_size := cs\<rparr>"
    using assms by (auto simp: stored_file_def)
  let ?idx = "map fst (stream_chunks csize 0 content)"
  let ?xs = "tagged L (truthy password) ?idx es"
  have len: "length ?idx = length es" using es by (simp add: opens_to_def)
  note op = pipeline_open_tagged [OF es len fresh_keysalt_def]
  show ?thesis
  proof (rule that [of ?xs "map snd (stream_chunks csize 0 content)" "fst (urandom SALT_SIZE r)"])
    show "sort_key ci_index (chunks m) = map fst ?xs"
      using tagged_index_sorted [of es csize content L "truthy password"] len
      by (simp add: m chunked_manifest_def)
    show "map snd ?xs = es" by (rule tagged_parts(1) [OF len])
    show "\<forall>(info, d) \<in> set ?xs. ci_hash info = sha256 L d" by (auto simp: tagged_def make_chunk_def)
    show "concat (map snd (stream_chunks csize 0 content)) = content" by (rule stream_chunks_concat [OF c])
  qed (use op in \<open>simp_all add: m chunked_manifest_def new_manifest_def\<close>)
qed

lemma stored_file_indices:
  assumes "stored_file L password content es m"
  shows "map ci_index (chunks m) = map int [0..<length (chunks m)]" and "length (chunks m) = length es"
    and "map ci_hash (chunks m) = map (sha256 L) es"
    and "merkle_root m = compute_merkle_root L (map ci_hash (chunks m))"
    and "original_size m = int (length content)"
proof -
  obtain path csize r cs where
    es: "opens_to L (fresh_keysalt L password r) es (map snd (stream_chunks csize 0 content))"
    and m: "m = (chunked_manifest L path content csize (truthy password) es)\<lparr>chunk_size := cs\<rparr>"
    using assms by (auto simp: stored_file_def)
  let ?idx = "map fst (stream_chunks csize 0 content)"
  have len: "length ?idx = length es" using es by (simp add: opens_to_def)
  have c: "chunks m = map fst (tagged L (truthy password) ?idx es)" by (simp add: m chunked_manifest_def)
  have "map ci_index (chunks m) = ?idx" using tagged_parts(2) [OF len, of L "truthy password"] by (simp add: c)
  moreover show l: "length (chunks m) = length es" using len by (simp add: c tagged_def)
  ultimately show "map ci_index (chunks m) = map int [0..<length (chunks m)]"
    using stream_chunks_index [of csize 0 content] len by simp
  show h: "map ci_hash (chunks m) = map (sha256 L) es"
    using tagged_parts(3) [OF len, of L "truthy password"] by (simp add: c)
  show "merkle_root m = compute_merkle_root L (map ci_hash (chunks m))"
    unfolding h by (simp add: m chunked_manifest_def)
  show "original_size m = int (length content)" by (simp add: m chunked_manifest_def new_manifest_def)
qed

lemma stored_file_with_root: "stored_file L password content es m \<Longrightarrow> with_root L m = m"
  using stored_file_indices(4) [of L password content es m] by (cases m) (simp add: with_root_def)

text \<open>What the pipeline makes of the chunks of a file that a source has, in any source.\<close>

context chunk_source
begin

lemma merge_stored_file:
  assumes "stored_file L password content es m"
    and "\<forall>e \<in> set es. view s (sha256 L e) = Some e"
  shows "\<exists>s'. pipeline_merge_to_disk L m load out password fs s = (Inr out, fs(out \<mapsto> content), s')"
proof -
  obtain xs raws where xs: "sort_key ci_index (chunks m) = map fst xs" "map snd xs = es"
    "\<forall>(info, d) \<in> set xs. ci_hash info = sha256 L d"
    "mapr (pipeline_open L password True) xs = Inr raws" "concat raws = content"
    "file_hash m = sha256 L content" "compression m = ''zstd''"
    using stored_file_parts [OF assms(1)] by metis
  have "has_all s xs" using xs(2,3) assms(2) by (fastforce simp: has_all_def)
  then obtain s' where "merge_loop load (pipeline_open L password True) (map fst xs) None [] s =
      (fst (write_chunks (pipeline_open L password True) xs []),
       snd (write_chunks (pipeline_open L password True) xs []), s')"
    using merge_loop_write [of s xs None] by blast
  then show ?thesis
    using xs by (simp add: pipeline_merge_to_disk_def write_chunks_Inr [OF xs(4)])
qed

lemma stream_stored_file:
  assumes "stored_file L password content es m"
    and "\<forall>e \<in> set es. view s (sha256 L e) = Some e"
  shows "\<exists>ys s'. pipeline_stream_file L m load password s = (ys, Inr (), s') \<and> concat ys = content"
proof -
  obtain xs raws salt where xs: "sort_key ci_index (chunks m) = map fst xs" "map snd xs = es"
    "\<forall>(info, d) \<in> set xs. ci_hash info = sha256 L d"
    "mapr (pipeline_open L password True) xs = Inr raws" "concat raws = content"
    "\<forall>(info, d) \<in> set xs. merge_key L password info d \<in> {None, Some (key_for L (the password) salt)}"
    "compression m = ''zstd''"
    using stored_file_parts [OF assms(1)] by metis
  have "has_all s xs" using xs(2,3) assms(2) by (fastforce simp: has_all_def)
  from stream_loop_all [OF this xs(6) _ xs(4), of None] xs show ?thesis
    by (auto simp: pipeline_stream_file_def)
qed

end

lemma stored_views:
  "\<not> collision_in L (set es) \<Longrightarrow> \<forall>e \<in> set es. chunk_view (stored_chunks_of L es st) (sha256 L e) = Some e"
  using stored_view [of _ es L st] by blast

lemma chunk_file_stored_file:
  assumes "lib_ok L" and "fs path = Some content" and "csize \<noteq> 0"
  shows "\<exists>es m r'. chunk_file L fs path csize password r = (Inr (m, es), r') \<and> stored_file L password content es m \<and>
     zip (chunks m) es = tagged L (truthy password) (map fst (stream_chunks csize 0 content)) es \<and>
     length (stream_chunks csize 0 content) = length es"
proof -
  obtain es r' where es: "opens_to L (fresh_keysalt L password r) es (map snd (stream_chunks csize 0 content))"
    and f: "chunk_file L fs path csize password r =
       (Inr (chunked_manifest L path content csize (truthy password) es, es), r')"
    using chunk_file_stored [of L fs path content password r csize, OF assms(1,2)] by blast
  have "length (stream_chunks csize 0 content) = length es" using es by (simp add: opens_to_def)
  moreover have "stored_file L password content es (chunked_manifest L path content csize (truthy password) es)"
  proof -
    let ?m = "chunked_manifest L path content csize (truthy password) es"
    have "?m = ?m\<lparr>chunk_size := chunk_size ?m\<rparr>" by simp
    then show ?thesis unfolding stored_file_def using es assms(3) by blast
  qed
  ultimately show ?thesis using f zip_chunked [of csize content es L path "truthy password"] by auto
qed

subsection \<open>Properties\<close>


definition one_file :: "bytes \<Rightarrow> filesys" where
  "one_file content = [''f.txt'' \<mapsto> content]"



lemma one_chunk_file:
  assumes "lib_ok L" and "fs path = Some content" and "csize \<noteq> 0" and "length (stream_chunks csize 0 content) = 1"
    and "fst (chunk_file L fs path csize password r) = Inr (m, es)"
  shows "\<exists>e. es = [e]"
proof -
  have "length es = 1" using chunk_file_stored_file [of L fs path content csize password r, OF assms(1-3)] assms(4,5) by auto
  then show ?thesis by (cases es) auto
qed


text \<open>
  C32. Whatever the chunks, the loader and the manifest are: when the merge pipeline reports
  success, the output file exists and has the manifest's file hash; when it fails on that hash,
  there is no output file; after any other exception the partial output is left on disk.
\<close>

theorem pipeline_merge_authentic:
  assumes "pipeline_merge_to_disk L m load out password fs s = (res, fs', s')"
  shows "(\<forall>p. res = Inr p \<longrightarrow> p = out \<and> (\<exists>content. fs' out = Some content \<and> sha256 L content = file_hash m)) \<and>
     (\<forall>e. res = Inl e \<longrightarrow> (fs' out = None \<longleftrightarrow>
        (\<exists>written s''. merge_loop load (pipeline_open L password (compression m = ''zstd''))
             (sort_key ci_index (chunks m)) None [] s = (Inr (), written, s'')))) \<and>
     (\<forall>p. p \<noteq> out \<longrightarrow> fs' p = fs p)"
  using assms
  by (cases "merge_loop load (pipeline_open L password (compression m = ''zstd'')) (sort_key ci_index (chunks m)) None [] s")
    (auto simp: pipeline_merge_to_disk_def Let_def split: sum.splits if_splits)

definition empty_manifest :: file_manifest where
  "empty_manifest = new_manifest ''f.txt'' 0 (sha256 ref_lib []) 4"

text \<open>A manifest of one chunk, which a loader serves, and the same manifest with another file hash.\<close>

definition one_chunk_merge :: "string \<Rightarrow> string res \<times> filesys \<times> unit" where
  "one_chunk_merge fh =
     pipeline_merge_to_disk ref_lib (one_chunk_manifest\<lparr>file_hash := fh\<rparr>) (\<lambda>h s. (Inr [7], s)) ''out'' None (one_file [7]) ()"

theorem pipeline_merge_authentic_witness:
  "fst (one_chunk_merge (sha256 ref_lib [7])) = Inr ''out'' \<and>
     (\<exists>content. fst (snd (one_chunk_merge (sha256 ref_lib [7]))) ''out'' = Some content \<and> sha256 ref_lib content = sha256 ref_lib [7]) \<and>
   (\<exists>e. fst (one_chunk_merge ''0'') = Inl e) \<and> fst (snd (one_chunk_merge ''0'')) ''out'' = None \<and>
   fst (snd (one_chunk_merge ''0'')) ''f.txt'' = Some [7]"
proof -
  let ?m = "\<lambda>fh. one_chunk_manifest\<lparr>file_hash := fh\<rparr>" and ?load = "\<lambda>h s. (Inr [7 :: byte], s :: unit)"
  have loop: "merge_loop ?load (pipeline_open ref_lib None (compression (?m fh) = ''zstd'')) (sort_key ci_index (chunks (?m fh))) None [] () =
      (Inr (), [7], ())" for fh
    by (simp add: one_chunk_manifest_def new_manifest_def make_chunk_def pipeline_open_def pipeline_plaintext_def merge_key_def)
  have ne: "sha256 ref_lib [7] \<noteq> ''0''" by (simp add: ref_lib_def)
  have ok: "fst (one_chunk_merge (sha256 ref_lib [7])) = Inr ''out''" and bad: "\<exists>e. fst (one_chunk_merge ''0'') = Inl e"
    unfolding one_chunk_merge_def pipeline_merge_to_disk_def Let_def loop using ne by simp_all
  have run: "pipeline_merge_to_disk ref_lib (?m fh) ?load ''out'' None (one_file [7]) () =
      (fst (one_chunk_merge fh), fst (snd (one_chunk_merge fh)), snd (snd (one_chunk_merge fh)))" for fh
    by (simp only: one_chunk_merge_def prod.collapse)
  note w = pipeline_merge_authentic [OF run]
  have "\<exists>content. fst (snd (one_chunk_merge (sha256 ref_lib [7]))) ''out'' = Some content \<and> sha256 ref_lib content = sha256 ref_lib [7]"
    using w [of "sha256 ref_lib [7]"] ok by simp
  moreover have "fst (snd (one_chunk_merge ''0'')) ''out'' = None" using w [of "''0''"] bad loop by blast
  moreover have "fst (snd (one_chunk_merge ''0'')) ''f.txt'' = Some [7]" using w [of "''0''"] by (simp add: one_file_def)
  ultimately show ?thesis using ok bad by blast
qed

lemma peer_chunk_loaded:
  assumes "world_chunks w h = None"
    and "fst (ask_peers (\<lambda>n p. net_chunk n p h) (alive_peers w) (aw_requests w)) = Some d"
  shows "fst (chunk_loader net_chunk missing h w) = Inr d"
    and "world_chunks (snd (chunk_loader net_chunk missing h w)) h = Some d"
proof -
  have "fst (load_chunk (aw_store w) h) = None"
    using assms(1) load_chunk_value [of "aw_store w" h] by (simp add: world_chunks_def)
  then show "fst (chunk_loader net_chunk missing h w) = Inr d"
    and "world_chunks (snd (chunk_loader net_chunk missing h w)) h = Some d"
    using assms(2) by (auto simp: chunk_loader_def world_chunks_def chunk_view_save Let_def split: prod.splits)
qed

text \<open>
  The loaders do not check what a peer sends: the body of the first peer that answers is
  returned and kept in the local store under the requested hash, whatever its own hash is, and from
  then on every load of that hash, whatever the peers say, returns those bytes.
\<close>

theorem peer_chunk_cached_unchecked:
  assumes "world_chunks w h = None"
    and "fst (ask_peers (\<lambda>n p. net_chunk n p h) (alive_peers w) (aw_requests w)) = Some d"
  shows "fst (chunk_loader net_chunk missing h w) = Inr d \<and>
     (let w' = snd (chunk_loader net_chunk missing h w)
      in world_chunks w' h = Some d \<and> fst (chunk_loader net_chunk' missing' h w') = Inr d)"
  using peer_chunk_loaded [of w h net_chunk d missing, OF assms]
    world_source.load_hit [of "snd (chunk_loader net_chunk missing h w)" h d net_chunk' missing']
  by (simp add: Let_def)

theorem peer_chunk_cached_unchecked_witness:
  "fst (chunk_loader (\<lambda>n p h. Some [13, 37]) download_missing ''ab12''
     \<lparr>aw_node = example_node, aw_store = example_store, aw_requests = 0\<rparr>) = Inr [13, 37]"
proof -
  let ?w = "\<lparr>aw_node = example_node, aw_store = example_store, aw_requests = 0\<rparr>"
  have "world_chunks ?w ''ab12'' = None"
    by (simp add: world_chunks_def chunk_view_def example_store_def chunk_filename_def)
  moreover have "alive_peers ?w = [(''n1'', example_peer\<lparr>pi_last_seen := 4\<rparr>)]"
    by (simp add: alive_peers_def get_alive_peers_def example_node_def example_store_def add_peer_def
        set_database_def new_node_state_def example_peer_def is_alive_def Let_def)
  then have "fst (ask_peers (\<lambda>n p. Some [13, 37 :: byte]) (alive_peers ?w) (aw_requests ?w)) = Some [13, 37]" by simp
  ultimately show ?thesis
    using peer_chunk_cached_unchecked [of ?w "''ab12''" "\<lambda>n p h. Some [13, 37]" "[13, 37]"] by simp
qed

end
