(* ===== verification/Downloads.thy ===== *)
theory Downloads
  imports Loader
begin

section \<open>Resumable downloads (backend/api/download\_manager.py)\<close>

text \<open>
  The download manager as a state machine. A worker task runs from one \<^verbatim>\<open>await\<close> to the next
  without interruption, so a step of a worker is one pass of its loop (one chunk) or the final
  merge, and the steps of several workers and the calls of the API interleave in any order.
  A resume file that is not valid JSON is \<open>None\<close>. Writing a resume file is taken to succeed (the
  code logs a failure and goes on with the old file in place).
\<close>

datatype download_status = Pending | Downloading | Paused | Completed | Errored

datatype download_error = NoError | ChunkFailed exn | MergeFailed exn

record download_state =
  dl_file_hash :: string
  dl_filename :: string
  dl_total_chunks :: int
  dl_total_size :: int
  dl_missing :: "int list"
  dl_completed :: "int list"
  dl_started_at :: real
  dl_updated_at :: real
  dl_status :: download_status
  dl_error :: download_error
  dl_password :: string

text \<open>\<open>round1\<close> is \<^verbatim>\<open>round(x, 1)\<close>.\<close>

definition progress :: "(real \<Rightarrow> real) \<Rightarrow> download_state \<Rightarrow> real" where
  "progress round1 s =
     (if dl_total_chunks s = 0 then 0
      else round1 (real (length (dl_completed s)) / real_of_int (dl_total_chunks s) * 100))"

definition downloaded_chunks :: "download_state \<Rightarrow> nat" where
  "downloaded_chunks s = length (dl_completed s)"

record resume_dict =
  rd_file_hash :: "string option"
  rd_filename :: "string option"
  rd_total_chunks :: "int option"
  rd_total_size :: "int option"
  rd_missing_chunks :: "int list option"
  rd_completed_chunks :: "int list option"
  rd_started_at :: "real option"
  rd_updated_at :: "real option"
  rd_status :: "download_status option"

definition to_resume_dict :: "download_state \<Rightarrow> resume_dict" where
  "to_resume_dict s =
     \<lparr>rd_file_hash = Some (dl_file_hash s), rd_filename = Some (dl_filename s),
      rd_total_chunks = Some (dl_total_chunks s), rd_total_size = Some (dl_total_size s),
      rd_missing_chunks = Some (dl_missing s), rd_completed_chunks = Some (dl_completed s),
      rd_started_at = Some (dl_started_at s), rd_updated_at = Some (dl_updated_at s),
      rd_status = Some (dl_status s)\<rparr>"

definition from_resume_dict :: "resume_dict \<Rightarrow> download_state res" where
  "from_resume_dict d =
     bindr (item ''file_hash'' (rd_file_hash d)) (\<lambda>fh.
     bindr (item ''filename'' (rd_filename d)) (\<lambda>name.
     bindr (item ''total_chunks'' (rd_total_chunks d)) (\<lambda>n.
     bindr (item ''total_size'' (rd_total_size d)) (\<lambda>sz.
     bindr (item ''missing_chunks'' (rd_missing_chunks d)) (\<lambda>miss.
     bindr (item ''completed_chunks'' (rd_completed_chunks d)) (\<lambda>done.
     Inr \<lparr>dl_file_hash = fh, dl_filename = name, dl_total_chunks = n, dl_total_size = sz,
          dl_missing = miss, dl_completed = done, dl_started_at = get_or 0 (rd_started_at d),
          dl_updated_at = get_or 0 (rd_updated_at d), dl_status = get_or Paused (rd_status d),
          dl_error = NoError, dl_password = []\<rparr>))))))"

subsection \<open>The manager\<close>

text \<open>
  A worker: the manifest it merges in the end, the ordered chunks it has not looked at yet, the
  indices missing when it started, and the chunks since the last flush. \<open>None\<close> is a finished task.
\<close>

record worker =
  wk_manifest :: file_manifest
  wk_todo :: "chunk_info list"
  wk_missing_set :: "int list"
  wk_since_flush :: nat

record dl_system =
  sy_downloads :: "(string, download_state) dict"
  sy_tasks :: "(string, worker option) dict"
  sy_cancel :: "(string, bool) dict"
  sy_resume :: "(string, resume_dict option) dict"
  sy_world :: api_world
  sy_files :: filesys

definition FLUSH_INTERVAL :: nat where "FLUSH_INTERVAL = 10"

definition sy_now :: "dl_system \<Rightarrow> real" where
  "sy_now S = ls_now (aw_store (sy_world S))"

definition put_download :: "string \<Rightarrow> download_state \<Rightarrow> dl_system \<Rightarrow> dl_system" where
  "put_download fh s S = S\<lparr>sy_downloads := dict_set fh s (sy_downloads S)\<rparr>"

text \<open>\<^verbatim>\<open>_save_resume\<close> stamps the state and replaces the file named after the state's hash.\<close>

definition save_resume :: "download_state \<Rightarrow> dl_system \<Rightarrow> download_state \<times> dl_system" where
  "save_resume s S =
     (let s' = s\<lparr>dl_updated_at := sy_now S\<rparr>
      in (s', S\<lparr>sy_resume := dict_set (dl_file_hash s) (Some (to_resume_dict s')) (sy_resume S)\<rparr>))"

definition load_resume :: "dl_system \<Rightarrow> string \<Rightarrow> download_state option" where
  "load_resume S fh =
     (case dict_get (sy_resume S) fh of
        Some (Some d) \<Rightarrow> (case from_resume_dict d of Inr s \<Rightarrow> Some s | Inl e \<Rightarrow> None)
      | _ \<Rightarrow> None)"

definition delete_resume :: "string \<Rightarrow> dl_system \<Rightarrow> dl_system" where
  "delete_resume fh S = S\<lparr>sy_resume := dict_del fh (sy_resume S)\<rparr>"

text \<open>The constructor's recovery of the files it finds, in directory order.\<close>

definition recover_resume_files :: "dl_system \<Rightarrow> dl_system" where
  "recover_resume_files S =
     S\<lparr>sy_downloads := fold (\<lambda>(name, file) ds.
          case file of
            None \<Rightarrow> ds
          | Some d \<Rightarrow> (case from_resume_dict d of
                         Inl e \<Rightarrow> ds
                       | Inr s \<Rightarrow> dict_set (dl_file_hash s) (s\<lparr>dl_status := Paused\<rparr>) ds))
        (sy_resume S) (sy_downloads S)\<rparr>"

definition existing_download :: "dl_system \<Rightarrow> string \<Rightarrow> download_state option" where
  "existing_download S fh =
     (case dict_get (sy_downloads S) fh of Some s \<Rightarrow> Some s | None \<Rightarrow> load_resume S fh)"

definition new_worker :: "file_manifest \<Rightarrow> download_state \<Rightarrow> worker" where
  "new_worker m s =
     \<lparr>wk_manifest = m, wk_todo = sort_key ci_index (chunks m), wk_missing_set = dl_missing s,
      wk_since_flush = 0\<rparr>"

definition launch :: "string \<Rightarrow> file_manifest \<Rightarrow> download_state \<Rightarrow> dl_system \<Rightarrow> dl_system" where
  "launch fh m s S =
     S\<lparr>sy_cancel := dict_set fh False (sy_cancel S),
       sy_tasks := dict_set fh (Some (new_worker m s)) (sy_tasks S)\<rparr>"

definition fresh_download :: "real \<Rightarrow> string \<Rightarrow> file_manifest \<Rightarrow> string \<Rightarrow> download_state" where
  "fresh_download now fh m password =
     \<lparr>dl_file_hash = fh, dl_filename = original_filename m,
      dl_total_chunks = int (length (chunks m)), dl_total_size = original_size m,
      dl_missing = map int [0..<length (chunks m)], dl_completed = [], dl_started_at = now,
      dl_updated_at = 0, dl_status = Downloading, dl_error = NoError, dl_password = password\<rparr>"

definition start_download ::
    "lib \<Rightarrow> string \<Rightarrow> manifest_dict \<Rightarrow> string \<Rightarrow> dl_system \<Rightarrow> download_state res \<times> dl_system" where
  "start_download L fh d password S =
     (case from_dict L d of
        Inl e \<Rightarrow> (Inl e, S)
      | Inr m \<Rightarrow>
          let go = (\<lambda>s. let (s', S') = save_resume s S in (Inr s', launch fh m s' (put_download fh s' S')))
          in case existing_download S fh of
               Some s \<Rightarrow>
                 if dl_status s = Downloading then (Inr s, S)
                 else if dl_missing s \<noteq> [] then go (s\<lparr>dl_status := Downloading, dl_password := password\<rparr>)
                 else go (fresh_download (sy_now S) fh m password)
             | None \<Rightarrow> go (fresh_download (sy_now S) fh m password))"

definition resume_download ::
    "lib \<Rightarrow> string \<Rightarrow> string \<Rightarrow> dl_system \<Rightarrow> download_state option res \<times> dl_system" where
  "resume_download L fh password S =
     (case existing_download S fh of
        None \<Rightarrow> (Inr None, S)
      | Some s \<Rightarrow>
          if dl_status s = Downloading then (Inr (Some s), S)
          else case load_manifest (aw_store (sy_world S)) fh of
                 None \<Rightarrow> (Inr None, S)
               | Some d \<Rightarrow>
                   (case from_dict L d of
                      Inl e \<Rightarrow> (Inl e, S)
                    | Inr m \<Rightarrow>
                        let s' = s\<lparr>dl_status := Downloading, dl_password := password\<rparr>
                        in (Inr (Some s'), launch fh m s' (put_download fh s' S))))"

subsection \<open>The worker\<close>

definition output_path :: "string \<Rightarrow> string" where
  "output_path fh = ''temp_'' @ take 16 fh @ ''.bin''"

definition set_task :: "string \<Rightarrow> worker option \<Rightarrow> dl_system \<Rightarrow> dl_system" where
  "set_task fh t S = S\<lparr>sy_tasks := dict_set fh t (sy_tasks S)\<rparr>"

definition final_merge :: "lib \<Rightarrow> string \<Rightarrow> file_manifest \<Rightarrow> download_state \<Rightarrow> dl_system \<Rightarrow> dl_system" where
  "final_merge L fh m s S =
     (let (res, files, store) = pipeline_merge_to_disk L m store_load_fn (output_path fh)
                                  (Some (dl_password s)) (sy_files S) (aw_store (sy_world S));
          S1 = S\<lparr>sy_files := files, sy_world := (sy_world S)\<lparr>aw_store := store\<rparr>\<rparr>
      in case res of
           Inr _ \<Rightarrow>
             let (s', S2) = save_resume (s\<lparr>dl_status := Completed, dl_updated_at := sy_now S1\<rparr>) S1
             in put_download fh s' (delete_resume fh S2)
         | Inl e \<Rightarrow>
             let (s', S2) = save_resume (s\<lparr>dl_status := Errored, dl_error := MergeFailed e\<rparr>) S1
             in put_download fh s' (S2\<lparr>sy_files := (sy_files S2)(output_path fh := None)\<rparr>))"

text \<open>A chunk has arrived: keep it, move its index, flush every \<open>FLUSH_INTERVAL\<close> chunks.\<close>

definition mark_chunk :: "int \<Rightarrow> download_state \<Rightarrow> download_state" where
  "mark_chunk i s =
     s\<lparr>dl_missing := remove1 i (dl_missing s),
       dl_completed := (if i \<in> set (dl_completed s) then dl_completed s else dl_completed s @ [i])\<rparr>"

definition chunk_arrived ::
    "string \<Rightarrow> worker \<Rightarrow> chunk_info \<Rightarrow> chunk_info list \<Rightarrow> bytes \<Rightarrow> download_state \<Rightarrow> dl_system \<Rightarrow> dl_system" where
  "chunk_arrived fh wk info rest data s S =
     (let st = aw_store (sy_world S);
          S1 = (if has_chunk st (ci_hash info) then S
                else S\<lparr>sy_world := (sy_world S)\<lparr>aw_store := save_chunk (ci_hash info) data st\<rparr>\<rparr>);
          s1 = mark_chunk (ci_index info) s;
          n = Suc (wk_since_flush wk);
          (s2, S2) = (if n \<ge> FLUSH_INTERVAL then save_resume s1 S1 else (s1, S1));
          wk' = wk\<lparr>wk_todo := rest, wk_since_flush := (if n \<ge> FLUSH_INTERVAL then 0 else n)\<rparr>
      in set_task fh (Some wk') (put_download fh s2 S2))"

text \<open>One pass of the loop of \<^verbatim>\<open>_download_worker\<close>; the final merge when no chunk is left.\<close>

definition worker_tick :: "lib \<Rightarrow> api_world load_fn \<Rightarrow> string \<Rightarrow> dl_system \<Rightarrow> dl_system" where
  "worker_tick L load fh S =
     (case (dict_get (sy_tasks S) fh, dict_get (sy_downloads S) fh) of
        (Some (Some wk), Some s) \<Rightarrow>
          (case dropWhile (\<lambda>info. ci_index info \<notin> set (wk_missing_set wk)) (wk_todo wk) of
             [] \<Rightarrow>
               let (s', S') = save_resume s S
               in set_task fh None (final_merge L fh (wk_manifest wk) s' (put_download fh s' S'))
           | info # rest \<Rightarrow>
               if dict_get (sy_cancel S) fh = Some True then set_task fh None S
               else
                 let (got, w) = load (ci_hash info) (sy_world S);
                     S1 = S\<lparr>sy_world := w\<rparr>
                 in case got of
                      Inr data \<Rightarrow> chunk_arrived fh wk info rest data s S1
                    | Inl e \<Rightarrow>
                        let (s', S2) = save_resume s S1
                        in set_task fh None
                             (put_download fh (s'\<lparr>dl_status := Errored, dl_error := ChunkFailed e\<rparr>) S2))
      | _ \<Rightarrow> S)"

text \<open>
  \<^verbatim>\<open>pause_download\<close>: set the cancel event, give the worker up to three seconds (\<open>ticks\<close> of its
  steps fit into them), cancel it if it is still running, then mark the download as paused.
\<close>

definition cancel_worker :: "string \<Rightarrow> dl_system \<Rightarrow> dl_system" where
  "cancel_worker fh S =
     (case (dict_get (sy_tasks S) fh, dict_get (sy_downloads S) fh) of
        (Some (Some wk), Some s) \<Rightarrow>
          let (s', S') = save_resume (s\<lparr>dl_status := Paused\<rparr>) S
          in set_task fh None (put_download fh s' S')
      | _ \<Rightarrow> S)"

definition pause_download ::
    "lib \<Rightarrow> api_world load_fn \<Rightarrow> nat \<Rightarrow> string \<Rightarrow> dl_system \<Rightarrow> download_state option \<times> dl_system" where
  "pause_download L load ticks fh S =
     (case dict_get (sy_downloads S) fh of
        None \<Rightarrow> (None, S)
      | Some s0 \<Rightarrow>
          if dl_status s0 \<noteq> Downloading then (Some s0, S)
          else
            let S1 = (if dict_get (sy_cancel S) fh = None then S
                      else S\<lparr>sy_cancel := dict_set fh True (sy_cancel S)\<rparr>);
                S2 = cancel_worker fh ((worker_tick L load fh ^^ ticks) S1);
                s = the (dict_get (sy_downloads S2) fh);
                (s', S3) = save_resume (s\<lparr>dl_status := Paused\<rparr>) S2
            in (Some s', (put_download fh s' S3)
                  \<lparr>sy_tasks := dict_del fh (sy_tasks S3), sy_cancel := dict_del fh (sy_cancel S3)\<rparr>))"

definition get_download :: "dl_system \<Rightarrow> string \<Rightarrow> download_state option" where
  "get_download S fh = dict_get (sy_downloads S) fh"

definition clear_completed :: "dl_system \<Rightarrow> dl_system" where
  "clear_completed S =
     (let to_remove = map fst (filter (\<lambda>(fh, s). dl_status s \<in> {Completed, Errored}) (sy_downloads S))
      in S\<lparr>sy_downloads := fold dict_del to_remove (sy_downloads S),
           sy_tasks := fold dict_del to_remove (sy_tasks S),
           sy_cancel := fold dict_del to_remove (sy_cancel S)\<rparr>)"

subsection \<open>The progress invariant\<close>

text \<open>Every chunk index is either missing or completed, exactly once.\<close>

definition progress_ok :: "download_state \<Rightarrow> bool" where
  "progress_ok s \<longleftrightarrow> 0 \<le> dl_total_chunks s \<and>
     mset (dl_missing s @ dl_completed s) = mset (map int [0..<nat (dl_total_chunks s)])"

lemma progress_distinct: "progress_ok s \<Longrightarrow> distinct (dl_missing s @ dl_completed s)"
proof -
  assume "progress_ok s"
  then have "mset (dl_missing s @ dl_completed s) = mset (map int [0..<nat (dl_total_chunks s)])"
    by (simp add: progress_ok_def)
  moreover have "distinct (map int [0..<nat (dl_total_chunks s)])" by (simp add: distinct_map)
  ultimately show ?thesis by (metis mset_eq_imp_distinct_iff)
qed

lemma progress_ok_fields:
  "dl_missing s' = dl_missing s \<Longrightarrow> dl_completed s' = dl_completed s \<Longrightarrow>
   dl_total_chunks s' = dl_total_chunks s \<Longrightarrow> progress_ok s' \<longleftrightarrow> progress_ok s"
  by (simp add: progress_ok_def)

lemma fresh_progress_ok: "progress_ok (fresh_download now fh m password)"
  by (simp add: progress_ok_def fresh_download_def)

lemma mark_chunk_progress:
  assumes "progress_ok s"
  shows "i \<in> set (dl_missing s) \<Longrightarrow> progress_ok (mark_chunk i s)"
    and "i \<in> set (dl_completed s) \<Longrightarrow> mark_chunk i s = s"
proof -
  have d: "distinct (dl_missing s @ dl_completed s)" by (rule progress_distinct [OF assms])
  show "progress_ok (mark_chunk i s)" if i: "i \<in> set (dl_missing s)"
  proof -
    have "i \<notin> set (dl_completed s)" using d i by auto
    then have "mset (dl_missing (mark_chunk i s) @ dl_completed (mark_chunk i s)) =
        mset (dl_missing s @ dl_completed s)"
      using i by (simp add: mark_chunk_def)
    then show ?thesis using assms by (simp add: progress_ok_def mark_chunk_def)
  qed
  show "mark_chunk i s = s" if "i \<in> set (dl_completed s)"
  proof -
    have "i \<notin> set (dl_missing s)" using that d by auto
    then show ?thesis using that by (cases s) (simp add: mark_chunk_def remove1_idem)
  qed
qed

definition indices :: "download_state \<Rightarrow> int set" where
  "indices s = set (dl_missing s) \<union> set (dl_completed s)"

lemma mark_chunk_ok: "progress_ok s \<Longrightarrow> i \<in> indices s \<Longrightarrow> progress_ok (mark_chunk i s) \<and> indices (mark_chunk i s) = indices s"
proof -
  assume ok: "progress_ok s" and i: "i \<in> indices s"
  have "set (dl_missing (mark_chunk i s)) \<union> set (dl_completed (mark_chunk i s)) = indices s"
    using i progress_distinct [OF ok] by (auto simp: mark_chunk_def indices_def)
  then show ?thesis using mark_chunk_progress [OF ok, of i] i ok by (auto simp: indices_def)
qed

text \<open>
  The invariant of the whole manager: the downloads and the readable resume files are consistent,
  and a running worker only looks for indices its download has.
\<close>

definition resume_ok :: "(string, resume_dict option) dict \<Rightarrow> bool" where
  "resume_ok files \<longleftrightarrow> (\<forall>fh d s. (fh, Some d) \<in> set files \<and> from_resume_dict d = Inr s \<longrightarrow> progress_ok s)"

definition sys_ok :: "dl_system \<Rightarrow> bool" where
  "sys_ok S \<longleftrightarrow> resume_ok (sy_resume S) \<and>
     (\<forall>fh s. dict_get (sy_downloads S) fh = Some s \<longrightarrow> progress_ok s \<and>
        (\<forall>wk. dict_get (sy_tasks S) fh = Some (Some wk) \<longrightarrow> set (wk_missing_set wk) \<subseteq> indices s))"

lemma sys_okD:
  assumes "sys_ok S" and "dict_get (sy_downloads S) fh = Some s"
  shows "progress_ok s" and "dict_get (sy_tasks S) fh = Some (Some wk) \<Longrightarrow> set (wk_missing_set wk) \<subseteq> indices s"
  using assms by (auto simp: sys_ok_def)

text \<open>States that agree on everything the invariant reads.\<close>

definition same_progress :: "download_state \<Rightarrow> download_state \<Rightarrow> bool" where
  "same_progress s s' \<longleftrightarrow> dl_missing s' = dl_missing s \<and> dl_completed s' = dl_completed s \<and>
     dl_total_chunks s' = dl_total_chunks s"

lemma same_progress_ok: "same_progress s s' \<Longrightarrow> progress_ok s' = progress_ok s \<and> indices s' = indices s"
  by (simp add: same_progress_def progress_ok_def indices_def)

lemma same_progress_updates [simp]:
  "same_progress s (s\<lparr>dl_status := x\<rparr>)" "same_progress s (s\<lparr>dl_status := x, dl_error := e\<rparr>)"
  "same_progress s (s\<lparr>dl_status := x, dl_password := pw\<rparr>)" "same_progress s (s\<lparr>dl_status := x, dl_updated_at := t\<rparr>)"
  "same_progress s (s\<lparr>dl_updated_at := t\<rparr>)"
  "same_progress s s"
  by (simp_all add: same_progress_def)

lemma same_progress_trans: "same_progress a b \<Longrightarrow> same_progress b c \<Longrightarrow> same_progress a c"
  by (simp add: same_progress_def)

text \<open>The system after \<open>save_resume\<close>.\<close>

definition flushed :: "download_state \<Rightarrow> dl_system \<Rightarrow> dl_system" where
  "flushed s S = S\<lparr>sy_resume := dict_set (dl_file_hash s)
     (Some (to_resume_dict (s\<lparr>dl_updated_at := sy_now S\<rparr>))) (sy_resume S)\<rparr>"

lemma save_resume_eq [simp]: "save_resume s S = (s\<lparr>dl_updated_at := sy_now S\<rparr>, flushed s S)"
  by (simp add: save_resume_def flushed_def Let_def)

lemma flushed_simps [simp]:
  "sy_downloads (flushed s S) = sy_downloads S" "sy_tasks (flushed s S) = sy_tasks S"
  "sy_cancel (flushed s S) = sy_cancel S" "sy_world (flushed s S) = sy_world S"
  "sy_files (flushed s S) = sy_files S"
  by (simp_all add: flushed_def)

lemma from_to_resume [simp]:
  "from_resume_dict (to_resume_dict s) = Inr (s\<lparr>dl_error := NoError, dl_password := []\<rparr>)"
  by (simp add: from_resume_dict_def to_resume_dict_def)

lemma resume_ok_put:
  "resume_ok files \<Longrightarrow> progress_ok s \<Longrightarrow> resume_ok (dict_set fh (Some (to_resume_dict s)) files)"
proof -
  have "(k, v) \<in> set (dict_set fh x files) \<Longrightarrow> (k, v) \<in> set files \<or> v = x" for k v and x :: "resume_dict option" and files
    by (induction files) (auto split: if_splits)
  then show "resume_ok files \<Longrightarrow> progress_ok s \<Longrightarrow> resume_ok (dict_set fh (Some (to_resume_dict s)) files)"
    unfolding resume_ok_def
    by (metis from_to_resume option.inject progress_ok_fields sum.inject(2) download_state.ext_inject
        download_state.surjective download_state.update_convs(10) download_state.update_convs(11))
qed

lemma sys_ok_save: "sys_ok S \<Longrightarrow> progress_ok s \<Longrightarrow> sys_ok (flushed s S)"
  unfolding sys_ok_def
  by (auto simp: flushed_def intro!: resume_ok_put) (simp_all add: progress_ok_def)

lemma sys_ok_put:
  "sys_ok S \<Longrightarrow> progress_ok s \<Longrightarrow>
   (\<And>wk. dict_get (sy_tasks S) fh = Some (Some wk) \<Longrightarrow> set (wk_missing_set wk) \<subseteq> indices s) \<Longrightarrow>
   sys_ok (put_download fh s S)"
  by (auto simp: sys_ok_def put_download_def)

lemma sys_ok_put_same:
  assumes "sys_ok S" and "dict_get (sy_downloads S) fh = Some s0" and "same_progress s0 s"
  shows "sys_ok (put_download fh s S)"
  using sys_ok_put [OF assms(1), of s fh] sys_okD [OF assms(1,2)] same_progress_ok [OF assms(3)] by simp

lemma sys_ok_task: "sys_ok S \<Longrightarrow> sys_ok (set_task fh None S)"
  by (auto simp: sys_ok_def set_task_def split: if_splits)

lemma sys_ok_worker:
  "sys_ok S \<Longrightarrow> (\<And>s. dict_get (sy_downloads S) fh = Some s \<Longrightarrow> set (wk_missing_set wk) \<subseteq> indices s) \<Longrightarrow>
   sys_ok (set_task fh (Some wk) S)"
  by (auto simp: sys_ok_def set_task_def split: if_splits)

lemma sys_ok_frame:
  "sys_ok S \<Longrightarrow> sys_ok (S\<lparr>sy_world := w\<rparr>)" "sys_ok S \<Longrightarrow> sys_ok (S\<lparr>sy_files := f\<rparr>)"
  "sys_ok S \<Longrightarrow> sys_ok (S\<lparr>sy_cancel := c\<rparr>)"
  "sys_ok S \<Longrightarrow> sys_ok (delete_resume fh S)"
  by (auto simp: sys_ok_def delete_resume_def resume_ok_def AList.delete_eq)

lemma put_download_simps [simp]:
  "sy_tasks (put_download fh s S) = sy_tasks S" "sy_resume (put_download fh s S) = sy_resume S"
  "sy_world (put_download fh s S) = sy_world S" "sy_files (put_download fh s S) = sy_files S"
  "sy_cancel (put_download fh s S) = sy_cancel S"
  "dict_get (sy_downloads (put_download fh s S)) k = (if k = fh then Some s else dict_get (sy_downloads S) k)"
  by (simp_all add: put_download_def)

lemma set_task_simps [simp]:
  "sy_downloads (set_task fh t S) = sy_downloads S" "sy_resume (set_task fh t S) = sy_resume S"
  "sy_world (set_task fh t S) = sy_world S" "sy_files (set_task fh t S) = sy_files S"
  "sy_cancel (set_task fh t S) = sy_cancel S"
  "dict_get (sy_tasks (set_task fh t S)) k = (if k = fh then Some t else dict_get (sy_tasks S) k)"
  by (simp_all add: set_task_def)

lemma delete_resume_simps [simp]:
  "sy_downloads (delete_resume fh S) = sy_downloads S" "sy_tasks (delete_resume fh S) = sy_tasks S"
  "sy_world (delete_resume fh S) = sy_world S" "sy_files (delete_resume fh S) = sy_files S"
  "sy_cancel (delete_resume fh S) = sy_cancel S"
  by (simp_all add: delete_resume_def)

subsection \<open>Every operation keeps the invariant\<close>

lemma launch_ok:
  assumes "sys_ok S" and "dict_get (sy_downloads S) fh = Some s0" and "dl_missing s0 = dl_missing s"
  shows "sys_ok (launch fh m s S)"
  using assms by (auto simp: sys_ok_def launch_def new_worker_def indices_def split: if_splits)

lemma launch_replaced_ok:
  assumes "sys_ok S" and "progress_ok s"
  shows "sys_ok (launch fh m s (put_download fh s S))"
  using assms by (auto simp: sys_ok_def launch_def put_download_def new_worker_def indices_def split: if_splits)

lemma load_resume_ok: "resume_ok (sy_resume S) \<Longrightarrow> load_resume S fh = Some s \<Longrightarrow> progress_ok s"
  unfolding load_resume_def resume_ok_def
  by (auto split: option.splits sum.splits dest: dict_get_SomeD)

lemma existing_ok: "sys_ok S \<Longrightarrow> existing_download S fh = Some s \<Longrightarrow> progress_ok s"
  by (auto simp: existing_download_def sys_ok_def split: option.splits intro: load_resume_ok)

lemma progress_ok_updates [simp]:
  "progress_ok (s\<lparr>dl_status := x\<rparr>) = progress_ok s" "progress_ok (s\<lparr>dl_password := pw\<rparr>) = progress_ok s"
  "progress_ok (s\<lparr>dl_updated_at := t\<rparr>) = progress_ok s" "progress_ok (s\<lparr>dl_error := e\<rparr>) = progress_ok s"
  by (simp_all add: progress_ok_def)

lemma start_go_ok:
  assumes "sys_ok S" and "progress_ok s"
  shows "sys_ok (launch fh m (s\<lparr>dl_updated_at := t\<rparr>) (put_download fh (s\<lparr>dl_updated_at := t\<rparr>) (flushed s S)))"
  by (rule launch_replaced_ok [OF sys_ok_save [OF assms]]) (simp add: assms(2))

lemma start_download_ok:
  assumes ok: "sys_ok S"
  shows "sys_ok (snd (start_download L fh d password S))"
proof (cases "from_dict L d")
  case (Inr m)
  note fresh = start_go_ok [OF ok fresh_progress_ok]
  show ?thesis
  proof (cases "existing_download S fh")
    case None
    then show ?thesis using fresh by (simp add: start_download_def Inr Let_def)
  next
    case (Some s)
    then have "progress_ok (s\<lparr>dl_status := Downloading, dl_password := password\<rparr>)"
      using existing_ok [OF ok Some] by simp
    from start_go_ok [OF ok this] show ?thesis using Some fresh ok by (simp add: start_download_def Inr Let_def)
  qed
qed (simp add: start_download_def ok)

lemma resume_download_ok:
  assumes ok: "sys_ok S"
  shows "sys_ok (snd (resume_download L fh password S))"
proof (cases "existing_download S fh")
  case (Some s)
  then have "progress_ok (s\<lparr>dl_status := Downloading, dl_password := password\<rparr>)"
    using existing_ok [OF ok Some] by simp
  from launch_replaced_ok [OF ok this] show ?thesis
    using Some ok by (simp add: resume_download_def Let_def split: option.splits sum.splits)
qed (simp add: resume_download_def ok)

lemma final_merge_ok:
  assumes "sys_ok S" and "dict_get (sy_downloads S) fh = Some s0" and "same_progress s0 s"
  shows "sys_ok (final_merge L fh m s S)"
proof -
  obtain res files store where r: "pipeline_merge_to_disk L m store_load_fn (output_path fh)
      (Some (dl_password s)) (sy_files S) (aw_store (sy_world S)) = (res, files, store)"
    by (metis prod.exhaust)
  let ?S = "S\<lparr>sy_files := files, sy_world := (sy_world S)\<lparr>aw_store := store\<rparr>\<rparr>"
  have S: "sys_ok ?S" using assms(1) by (simp add: sys_ok_def)
  have p: "progress_ok s" using sys_okD(1) [OF assms(1,2)] same_progress_ok [OF assms(3)] by simp
  show ?thesis
  proof (cases res)
    case (Inl e)
    let ?s = "s\<lparr>dl_status := Errored, dl_error := MergeFailed e\<rparr>"
    have "sys_ok (flushed ?s ?S)" by (rule sys_ok_save [OF S]) (simp add: p)
    note sys_ok_put_same [OF sys_ok_frame(2) [OF this], where fh = fh and ?s0.0 = s0]
    then show ?thesis
      using assms(2,3) by (simp add: final_merge_def r Inl same_progress_def Let_def)
  next
    case (Inr x)
    let ?s = "s\<lparr>dl_status := Completed, dl_updated_at := sy_now ?S\<rparr>"
    have "sys_ok (flushed ?s ?S)" by (rule sys_ok_save [OF S]) (simp add: p)
    note sys_ok_put_same [OF sys_ok_frame(4) [OF this, of fh], where fh = fh and ?s0.0 = s0]
    then show ?thesis
      using assms(2,3) by (simp add: final_merge_def r Inr same_progress_def Let_def)
  qed
qed

lemma chunk_arrived_ok:
  assumes "sys_ok S" and "dict_get (sy_downloads S) fh = Some s" and "dict_get (sy_tasks S) fh = Some (Some wk)"
    and "ci_index info \<in> set (wk_missing_set wk)"
  shows "sys_ok (chunk_arrived fh wk info rest data s S)"
proof -
  have ms: "set (wk_missing_set wk) \<subseteq> indices s" and p: "progress_ok s"
    using sys_okD [OF assms(1,2)] assms(3) by blast+
  let ?s1 = "mark_chunk (ci_index info) s"
  have m: "progress_ok ?s1" "indices ?s1 = indices s" using mark_chunk_ok [OF p] assms(4) ms by auto
  let ?S1 = "if has_chunk (aw_store (sy_world S)) (ci_hash info) then S
      else S\<lparr>sy_world := (sy_world S)\<lparr>aw_store := save_chunk (ci_hash info) data (aw_store (sy_world S))\<rparr>\<rparr>"
  have S1: "sys_ok ?S1" "sy_downloads ?S1 = sy_downloads S" "sy_tasks ?S1 = sy_tasks S"
    using assms(1) by (simp_all add: sys_ok_frame)
  have step: "sys_ok (set_task fh (Some wk') (put_download fh s2 S2))"
    if "sys_ok S2" "sy_tasks S2 = sy_tasks S" "same_progress ?s1 s2" "wk_missing_set wk' = wk_missing_set wk" for wk' s2 S2
  proof (rule sys_ok_worker)
    show "sys_ok (put_download fh s2 S2)"
      using sys_ok_put [OF that(1), of s2 fh] same_progress_ok [OF that(3)] m ms assms(3) that(2) by simp
    show "set (wk_missing_set wk') \<subseteq> indices s'" if "dict_get (sy_downloads (put_download fh s2 S2)) fh = Some s'" for s'
      using that ms m same_progress_ok [OF \<open>same_progress ?s1 s2\<close>] \<open>wk_missing_set wk' = wk_missing_set wk\<close> by simp
  qed
  show ?thesis
  proof (cases "Suc (wk_since_flush wk) \<ge> FLUSH_INTERVAL")
    case True
    then show ?thesis
      using step [OF sys_ok_save [OF S1(1) m(1)], of "?s1\<lparr>dl_updated_at := sy_now ?S1\<rparr>"] S1(3)
      by (simp add: chunk_arrived_def Let_def)
  next
    case False
    then show ?thesis using step [OF S1(1), of ?s1] S1(3) by (simp add: chunk_arrived_def Let_def)
  qed
qed

lemma worker_tick_ok:
  assumes ok: "sys_ok S"
  shows "sys_ok (worker_tick L load fh S)"
proof (cases "\<exists>wk s. dict_get (sy_tasks S) fh = Some (Some wk) \<and> dict_get (sy_downloads S) fh = Some s")
  case True
  then obtain wk s where wk: "dict_get (sy_tasks S) fh = Some (Some wk)"
    and s: "dict_get (sy_downloads S) fh = Some s" by blast
  have p: "progress_ok s" by (rule sys_okD(1) [OF ok s])
  show ?thesis
  proof (cases "dropWhile (\<lambda>info. ci_index info \<notin> set (wk_missing_set wk)) (wk_todo wk)")
    case Nil
    let ?s = "s\<lparr>dl_updated_at := sy_now S\<rparr>"
    have 1: "sys_ok (put_download fh ?s (flushed s S))"
      by (rule sys_ok_put_same [OF sys_ok_save [OF ok p]]) (simp_all add: s same_progress_def)
    have "sys_ok (final_merge L fh (wk_manifest wk) ?s (put_download fh ?s (flushed s S)))"
      by (rule final_merge_ok [OF 1, where ?s0.0 = ?s]) (simp_all add: same_progress_def)
    then show ?thesis by (simp add: worker_tick_def wk s Nil sys_ok_task)
  next
    case (Cons info rest)
    then have i: "ci_index info \<in> set (wk_missing_set wk)"
      by (metis dropWhile_eq_Cons_conv)
    obtain got w where l: "load (ci_hash info) (sy_world S) = (got, w)" by (metis prod.exhaust)
    have w: "sys_ok (S\<lparr>sy_world := w\<rparr>)" by (rule sys_ok_frame(1) [OF ok])
    have err: "sys_ok (put_download fh (s\<lparr>dl_updated_at := t, dl_status := Errored, dl_error := e\<rparr>) (flushed s (S\<lparr>sy_world := w\<rparr>)))" for t e
      by (rule sys_ok_put_same [OF sys_ok_save [OF w p]]) (simp_all add: s same_progress_def)
    have arr: "sys_ok (chunk_arrived fh wk info rest data s (S\<lparr>sy_world := w\<rparr>))" for data
      by (rule chunk_arrived_ok [OF w _ _ i]) (simp_all add: s wk)
    show ?thesis
      using ok arr err by (simp add: worker_tick_def wk s Cons l sys_ok_task Let_def split: sum.splits)
  qed
next
  case False
  then have "worker_tick L load fh S = S"
    by (auto simp: worker_tick_def split: option.splits)
  then show ?thesis using ok by simp
qed

lemma worker_ticks_ok: "sys_ok S \<Longrightarrow> sys_ok ((worker_tick L load fh ^^ n) S)"
  by (induction n) (simp_all add: worker_tick_ok)

lemma cancel_worker_ok:
  assumes ok: "sys_ok S"
  shows "sys_ok (cancel_worker fh S)"
proof (cases "\<exists>wk s. dict_get (sy_tasks S) fh = Some (Some wk) \<and> dict_get (sy_downloads S) fh = Some s")
  case True
  then obtain wk s where wk: "dict_get (sy_tasks S) fh = Some (Some wk)"
    and s: "dict_get (sy_downloads S) fh = Some s" by blast
  have "progress_ok (s\<lparr>dl_status := Paused\<rparr>)" using sys_okD(1) [OF ok s] by simp
  from sys_ok_put_same [OF sys_ok_save [OF ok this], of fh s] show ?thesis
    by (simp add: cancel_worker_def wk s sys_ok_task same_progress_def)
next
  case False
  then have "cancel_worker fh S = S" by (auto simp: cancel_worker_def split: option.splits)
  then show ?thesis using ok by simp
qed

text \<open>No operation of the worker forgets a download.\<close>

lemma worker_tick_has:
  "dict_get (sy_downloads S) k \<noteq> None \<Longrightarrow> dict_get (sy_downloads (worker_tick L load fh S)) k \<noteq> None"
  by (auto simp: worker_tick_def final_merge_def chunk_arrived_def Let_def
      split: option.splits list.splits sum.splits prod.splits if_splits)

lemma worker_ticks_has:
  "dict_get (sy_downloads S) k \<noteq> None \<Longrightarrow> dict_get (sy_downloads ((worker_tick L load fh ^^ n) S)) k \<noteq> None"
  by (induction n) (simp_all add: worker_tick_has)

lemma cancel_worker_has:
  "dict_get (sy_downloads S) k \<noteq> None \<Longrightarrow> dict_get (sy_downloads (cancel_worker fh S)) k \<noteq> None"
  by (auto simp: cancel_worker_def Let_def split: option.splits)

text \<open>The system in which \<open>pause_download\<close> marks the download as paused.\<close>

definition pause_wait :: "lib \<Rightarrow> api_world load_fn \<Rightarrow> nat \<Rightarrow> string \<Rightarrow> dl_system \<Rightarrow> dl_system" where
  "pause_wait L load ticks fh S =
     cancel_worker fh ((worker_tick L load fh ^^ ticks)
       (if dict_get (sy_cancel S) fh = None then S else S\<lparr>sy_cancel := dict_set fh True (sy_cancel S)\<rparr>))"

lemma pause_wait_ok: "sys_ok S \<Longrightarrow> sys_ok (pause_wait L load ticks fh S)"
  by (simp add: pause_wait_def cancel_worker_ok worker_ticks_ok sys_ok_frame)

lemma pause_wait_has:
  "dict_get (sy_downloads S) fh \<noteq> None \<Longrightarrow> \<exists>s. dict_get (sy_downloads (pause_wait L load ticks fh S)) fh = Some s"
  unfolding pause_wait_def not_None_eq [symmetric]
  by (intro cancel_worker_has worker_ticks_has) simp

lemma pause_download_eq:
  assumes "dict_get (sy_downloads S) fh = Some s0" and "dl_status s0 = Downloading"
    and "dict_get (sy_downloads (pause_wait L load ticks fh S)) fh = Some s"
  shows "pause_download L load ticks fh S =
     (let S2 = pause_wait L load ticks fh S; s' = s\<lparr>dl_status := Paused\<rparr>; t = sy_now S2;
          S3 = flushed s' S2
      in (Some (s'\<lparr>dl_updated_at := t\<rparr>), (put_download fh (s'\<lparr>dl_updated_at := t\<rparr>) S3)
            \<lparr>sy_tasks := dict_del fh (sy_tasks S3), sy_cancel := dict_del fh (sy_cancel S3)\<rparr>))"
  using assms by (simp add: pause_download_def pause_wait_def Let_def)

lemma drop_task_ok: "sys_ok S \<Longrightarrow> sys_ok (S\<lparr>sy_tasks := dict_del fh (sy_tasks S), sy_cancel := c\<rparr>)"
  by (auto simp: sys_ok_def split: if_splits)

lemma pause_download_ok:
  assumes ok: "sys_ok S"
  shows "sys_ok (snd (pause_download L load ticks fh S))"
proof (cases "\<exists>s0. dict_get (sy_downloads S) fh = Some s0 \<and> dl_status s0 = Downloading")
  case True
  then obtain s0 where s0: "dict_get (sy_downloads S) fh = Some s0" "dl_status s0 = Downloading" by blast
  then obtain s where s: "dict_get (sy_downloads (pause_wait L load ticks fh S)) fh = Some s"
    using pause_wait_has by blast
  note W = pause_wait_ok [OF ok, of L load ticks fh]
  have "progress_ok (s\<lparr>dl_status := Paused\<rparr>)" using sys_okD(1) [OF W s] by simp
  note sys_ok_put_same [OF sys_ok_save [OF W this], where fh = fh and ?s0.0 = s]
  then have "sys_ok (put_download fh (s\<lparr>dl_status := Paused, dl_updated_at := sy_now (pause_wait L load ticks fh S)\<rparr>)
      (flushed (s\<lparr>dl_status := Paused\<rparr>) (pause_wait L load ticks fh S)))"
    by (simp add: s same_progress_def)
  from drop_task_ok [OF this, where fh = fh] show ?thesis
    by (simp add: pause_download_eq [OF s0 s] Let_def)
next
  case False
  then show ?thesis using ok by (auto simp: pause_download_def split: option.splits)
qed

lemma fold_del_get: "dict_get (fold dict_del ks d) k = (if k \<in> set ks then None else dict_get d k)"
  by (induction ks arbitrary: d) auto

lemma clear_completed_ok: "sys_ok S \<Longrightarrow> sys_ok (clear_completed S)"
  by (auto simp: sys_ok_def clear_completed_def Let_def fold_del_get split: if_splits)

definition recover_one :: "string \<times> resume_dict option \<Rightarrow> (string, download_state) dict \<Rightarrow> (string, download_state) dict" where
  "recover_one = (\<lambda>(name, file) ds.
     case file of
       None \<Rightarrow> ds
     | Some d \<Rightarrow> (case from_resume_dict d of
                    Inl e \<Rightarrow> ds
                  | Inr s \<Rightarrow> dict_set (dl_file_hash s) (s\<lparr>dl_status := Paused\<rparr>) ds))"

lemma recover_one_ok:
  "\<forall>d s. snd f = Some d \<and> from_resume_dict d = Inr s \<longrightarrow> progress_ok s \<Longrightarrow>
   \<forall>fh s. dict_get ds fh = Some s \<longrightarrow> progress_ok s \<Longrightarrow>
   dict_get (recover_one f ds) fh = Some s \<Longrightarrow> progress_ok s"
  by (cases f) (auto simp: recover_one_def split: option.splits sum.splits if_splits)

lemma recover_fold_ok:
  assumes "\<forall>f \<in> set files. \<forall>d s. snd f = Some d \<and> from_resume_dict d = Inr s \<longrightarrow> progress_ok s"
    and "\<forall>fh s. dict_get ds fh = Some s \<longrightarrow> progress_ok s"
  shows "dict_get (fold recover_one files ds) fh = Some s \<Longrightarrow> progress_ok s"
  using assms
proof (induction files arbitrary: ds)
  case (Cons f files)
  have f: "\<forall>d s. snd f = Some d \<and> from_resume_dict d = Inr s \<longrightarrow> progress_ok s"
    using Cons.prems(2) by (rule bspec) simp
  have files: "\<forall>f \<in> set files. \<forall>d s. snd f = Some d \<and> from_resume_dict d = Inr s \<longrightarrow> progress_ok s"
    using Cons.prems(2) by (simp only: list.set Ball_def insert_iff) blast
  have ds: "\<forall>fh s. dict_get (recover_one f ds) fh = Some s \<longrightarrow> progress_ok s"
    using recover_one_ok [OF f Cons.prems(3)] by (intro allI impI)
  have g: "dict_get (fold recover_one files (recover_one f ds)) fh = Some s" using Cons.prems(1) by simp
  show ?case by (rule Cons.IH [OF g files ds])
qed simp

lemma recover_ok:
  assumes "sys_ok S" and "sy_tasks S = []"
  shows "sys_ok (recover_resume_files S)"
proof -
  have r: "\<forall>f \<in> set (sy_resume S). \<forall>d s. snd f = Some d \<and> from_resume_dict d = Inr s \<longrightarrow> progress_ok s"
    using assms(1) by (fastforce simp: sys_ok_def resume_ok_def)
  have d: "\<forall>fh s. dict_get (sy_downloads S) fh = Some s \<longrightarrow> progress_ok s"
    using assms(1) by (simp add: sys_ok_def)
  have e: "recover_resume_files S = S\<lparr>sy_downloads := fold recover_one (sy_resume S) (sy_downloads S)\<rparr>"
    by (simp add: recover_resume_files_def recover_one_def)
  show ?thesis
    using recover_fold_ok [OF r d] assms by (simp add: sys_ok_def e)
qed

subsection \<open>Reachable systems\<close>

text \<open>
  Every API call and every worker step, in any interleaving, with any loader; between the steps the
  store, the network and the other files change in any way.
\<close>

inductive dl_step :: "lib \<Rightarrow> dl_system \<Rightarrow> dl_system \<Rightarrow> bool" for L where
  do_start: "dl_step L S (snd (start_download L fh d password S))"
| do_resume: "dl_step L S (snd (resume_download L fh password S))"
| do_pause: "dl_step L S (snd (pause_download L load ticks fh S))"
| do_tick: "dl_step L S (worker_tick L load fh S)"
| do_clear: "dl_step L S (clear_completed S)"
| do_world: "dl_step L S (S\<lparr>sy_world := w, sy_files := files\<rparr>)"

lemma sys_ok_world: "sys_ok S \<Longrightarrow> sys_ok (S\<lparr>sy_world := w, sy_files := files\<rparr>)"
  by (simp add: sys_ok_def)

lemma dl_step_ok: "dl_step L S S' \<Longrightarrow> sys_ok S \<Longrightarrow> sys_ok S'"
  by (induction rule: dl_step.induct)
    (erule start_download_ok resume_download_ok pause_download_ok worker_tick_ok clear_completed_ok sys_ok_world)+

interpretation downloads: invariant_system "dl_step L" sys_ok for L
  by unfold_locales (rule dl_step_ok)

text \<open>A manager as its constructor leaves it: no tasks, the resume files recovered.\<close>

definition new_manager :: "api_world \<Rightarrow> filesys \<Rightarrow> (string, resume_dict option) dict \<Rightarrow> dl_system" where
  "new_manager w files resume =
     recover_resume_files \<lparr>sy_downloads = [], sy_tasks = [], sy_cancel = [], sy_resume = resume,
       sy_world = w, sy_files = files\<rparr>"

lemma new_manager_ok: "resume_ok resume \<Longrightarrow> sys_ok (new_manager w files resume)"
  unfolding new_manager_def by (rule recover_ok) (simp_all add: sys_ok_def)

subsection \<open>Properties\<close>

text \<open>
  C11. The progress of a download is always consistent: in every state the manager can reach from a
  start on consistent resume files, whatever is started, paused, resumed, cleared or fails in
  whatever order, each chunk index of each download is either missing or completed, exactly once,
  and what the resume files say is consistent in the same way.
\<close>

theorem download_progress_consistent:
  assumes "resume_ok resume" and "(dl_step L)\<^sup>*\<^sup>* (new_manager w files resume) S"
  shows "(\<forall>fh s. get_download S fh = Some s \<longrightarrow>
       distinct (dl_missing s @ dl_completed s) \<and>
       set (dl_missing s @ dl_completed s) = {0..<dl_total_chunks s} \<and>
       int (downloaded_chunks s) + int (length (dl_missing s)) = dl_total_chunks s) \<and>
     resume_ok (sy_resume S)"
proof -
  have S: "sys_ok S"
    by (rule downloads.runs_keep [OF assms(2) new_manager_ok [OF assms(1)]])
  have p: "distinct (dl_missing s @ dl_completed s) \<and>
       set (dl_missing s @ dl_completed s) = {0..<dl_total_chunks s} \<and>
       int (downloaded_chunks s) + int (length (dl_missing s)) = dl_total_chunks s" if "progress_ok s" for s
  proof (intro conjI)
    show "distinct (dl_missing s @ dl_completed s)" by (rule progress_distinct [OF that])
    have n: "0 \<le> dl_total_chunks s" and m: "mset (dl_missing s @ dl_completed s) = mset (map int [0..<nat (dl_total_chunks s)])"
      using that by (simp_all add: progress_ok_def)
    have "set (dl_missing s @ dl_completed s) = int ` {0..<nat (dl_total_chunks s)}"
      using mset_eq_setD [OF m] by simp
    also have "\<dots> = {0..<dl_total_chunks s}" using n by (simp add: image_int_atLeastLessThan)
    finally show "set (dl_missing s @ dl_completed s) = {0..<dl_total_chunks s}" .
    have "length (dl_missing s @ dl_completed s) = nat (dl_total_chunks s)"
      using mset_eq_length [OF m] by simp
    then show "int (downloaded_chunks s) + int (length (dl_missing s)) = dl_total_chunks s"
      using n by (simp add: downloaded_chunks_def)
  qed
  show ?thesis using S p by (auto simp: sys_ok_def get_download_def)
qed

subsection \<open>A download runs to completion\<close>

text \<open>
  An honest swarm for a list of chunks: a peer alive that answers every request for them, and no
  peer alive that answers with other bytes. \<open>clean\<close>: the local store has no other bytes either.
\<close>

definition honest :: "lib \<Rightarrow> (nat \<Rightarrow> peer_info \<Rightarrow> string \<Rightarrow> bytes option) \<Rightarrow> (string, peer_info) dict \<Rightarrow> bytes list \<Rightarrow> bool" where
  "honest L net_chunk peers es \<longleftrightarrow>
     (\<forall>e \<in> set es. (\<forall>(nid, p) \<in> set peers. \<forall>n. net_chunk n p (sha256 L e) \<in> {None, Some e}) \<and>
        (\<exists>(nid, q) \<in> set peers. \<forall>n. net_chunk n q (sha256 L e) = Some e))"

definition clean :: "lib \<Rightarrow> bytes list \<Rightarrow> api_world \<Rightarrow> bool" where
  "clean L es w \<longleftrightarrow> (\<forall>e \<in> set es. world_chunks w (sha256 L e) \<in> {None, Some e})"

lemma ask_peers_honest:
  assumes "\<forall>(nid, p) \<in> set peers. \<forall>n. get n p \<in> {None, Some e}"
    and "\<exists>(nid, q) \<in> set peers. \<forall>n. get n q = Some e"
  shows "fst (ask_peers get peers n) = Some e"
  using assms
proof (induction get peers n rule: ask_peers.induct)
  case (2 get nid peer rest n)
  show ?case
  proof (cases "get n peer")
    case None
    then have "\<exists>(nid, q) \<in> set rest. \<forall>n. get n q = Some e" using "2.prems"(2) by auto
    then show ?thesis using "2.IH" [OF None] "2.prems"(1) None by auto
  next
    case (Some a)
    have "get n peer \<in> {None, Some e}" using "2.prems"(1) by simp
    then have "a = e" using Some by simp
    then show ?thesis using Some by simp
  qed
qed simp

lemma load_chunk_now [simp]: "ls_now (snd (load_chunk st h)) = ls_now st"
  by (simp add: load_chunk_def Let_def split: option.splits)

lemma save_chunk_now [simp]: "ls_now (save_chunk h d st) = ls_now st"
  by (simp add: save_chunk_def Let_def)

lemma loader_world:
  "aw_node (snd (chunk_loader net_chunk missing h w)) = aw_node w"
  "ls_now (aw_store (snd (chunk_loader net_chunk missing h w))) = ls_now (aw_store w)"
  using load_chunk_now [of "aw_store w" h]
  by (cases "load_chunk (aw_store w) h"; auto simp: chunk_loader_def Let_def split: prod.splits option.splits)+

lemma loader_alive: "alive_peers (snd (chunk_loader net_chunk missing h w)) = alive_peers w"
  by (simp add: alive_peers_def loader_world)

lemma loader_view:
  "world_chunks (snd (chunk_loader net_chunk missing h w)) k =
     (if k = h \<and> world_chunks w h = None
      then fst (ask_peers (\<lambda>n p. net_chunk n p h) (alive_peers w) (aw_requests w)) else world_chunks w k)"
proof (cases "load_chunk (aw_store w) h")
  case (Pair data st)
  have "data = world_chunks w h" "\<And>k. chunk_view st k = world_chunks w k"
    using load_chunk_value [of "aw_store w" h] load_chunk_frame [of "aw_store w" h]
    by (simp_all add: Pair world_chunks_def)
  then show ?thesis
    by (auto simp: chunk_loader_def Pair Let_def chunk_view_save world_chunks_def split: prod.splits option.splits)
qed

text \<open>No two chunks that an honest peer serves have one digest.\<close>

lemma honest_injective:
  assumes "honest L net_chunk peers es" and "e \<in> set es" and "e' \<in> set es" and "sha256 L e = sha256 L e'"
  shows "e = e'"
proof -
  obtain nid q where q: "(nid, q) \<in> set peers" "net_chunk 0 q (sha256 L e) = Some e"
    using assms(1,2) by (fastforce simp: honest_def)
  have "\<forall>(nid, p) \<in> set peers. \<forall>n. net_chunk n p (sha256 L e') \<in> {None, Some e'}"
    using assms(1,3) by (simp add: honest_def)
  then have "net_chunk 0 q (sha256 L e') \<in> {None, Some e'}" using q(1) by blast
  then show ?thesis using q(2) assms(4) by simp
qed

lemma loader_honest:
  assumes "honest L net_chunk (alive_peers w) es" and "clean L es w" and "e \<in> set es"
  shows "fst (chunk_loader net_chunk missing (sha256 L e) w) = Inr e"
    and "clean L es (snd (chunk_loader net_chunk missing (sha256 L e) w))"
    and "world_chunks (snd (chunk_loader net_chunk missing (sha256 L e) w)) (sha256 L e) = Some e"
proof -
  let ?ask = "fst (ask_peers (\<lambda>n p. net_chunk n p (sha256 L e)) (alive_peers w) (aw_requests w))"
  have ask: "?ask = Some e"
    by (rule ask_peers_honest) (use assms(1,3) in \<open>auto simp: honest_def\<close>)
  have v: "world_chunks w (sha256 L e) \<in> {None, Some e}" using assms(2,3) by (simp add: clean_def)
  show view: "world_chunks (snd (chunk_loader net_chunk missing (sha256 L e) w)) (sha256 L e) = Some e"
    using v ask by (auto simp: loader_view)
  show "fst (chunk_loader net_chunk missing (sha256 L e) w) = Inr e"
  proof (cases "world_chunks w (sha256 L e)")
    case None
    then show ?thesis using peer_chunk_loaded(1) [of w "sha256 L e" net_chunk e missing] ask by simp
  next
    case (Some d)
    then show ?thesis using v world_source.load_hit [OF Some] by auto
  qed
  have "e' = e" if "e' \<in> set es" "sha256 L e' = sha256 L e" for e'
    using honest_injective [OF assms(1) that(1) assms(3) that(2)] .
  then show "clean L es (snd (chunk_loader net_chunk missing (sha256 L e) w))"
    using assms(2) ask by (auto simp: clean_def loader_view)
qed

text \<open>A worker with the chunks \<open>xs\<close> still to do, in a healthy world.\<close>

definition working :: "lib \<Rightarrow> string \<Rightarrow> file_manifest \<Rightarrow> string \<Rightarrow> bytes list \<Rightarrow> (chunk_info \<times> bytes) list \<Rightarrow>
    (string, peer_info) dict \<Rightarrow> filesys \<Rightarrow> dl_system \<Rightarrow> bool" where
  "working L fh m pw es xs peers files S \<longleftrightarrow>
     (\<exists>wk s. dict_get (sy_tasks S) fh = Some (Some wk) \<and> dict_get (sy_downloads S) fh = Some s \<and>
        wk_manifest wk = m \<and> wk_todo wk = map fst xs \<and>
        (\<forall>(info, d) \<in> set xs. ci_index info \<in> set (wk_missing_set wk) \<and> ci_hash info = sha256 L d \<and> d \<in> set es) \<and>
        dl_password s = pw \<and> dict_get (sy_cancel S) fh = Some False) \<and>
     sy_files S = files \<and> clean L es (sy_world S) \<and> alive_peers (sy_world S) = peers \<and>
     (\<forall>e \<in> set es. e \<in> snd ` set xs \<or> world_chunks (sy_world S) (sha256 L e) = Some e)"

lemma working_tick:
  assumes w: "working L fh m pw es ((info, d) # xs) peers files S" and h: "honest L net_chunk peers es"
  shows "working L fh m pw es xs peers files (worker_tick L (chunk_loader net_chunk missing) fh S)"
proof -
  obtain wk s where wk: "dict_get (sy_tasks S) fh = Some (Some wk)" "wk_manifest wk = m"
      "wk_todo wk = info # map fst xs" "dict_get (sy_cancel S) fh = Some False"
    and s: "dict_get (sy_downloads S) fh = Some s" "dl_password s = pw"
    and xs: "ci_index info \<in> set (wk_missing_set wk)" "ci_hash info = sha256 L d" "d \<in> set es"
      "\<forall>(info, d) \<in> set xs. ci_index info \<in> set (wk_missing_set wk) \<and> ci_hash info = sha256 L d \<and> d \<in> set es"
    and S: "sy_files S = files" "clean L es (sy_world S)" "alive_peers (sy_world S) = peers"
      "\<forall>e \<in> set es. e \<in> snd ` set ((info, d) # xs) \<or> world_chunks (sy_world S) (sha256 L e) = Some e"
    using w by (auto simp: working_def)
  let ?w = "snd (chunk_loader net_chunk missing (sha256 L d) (sy_world S))"
  have hon: "honest L net_chunk (alive_peers (sy_world S)) es" using h S(3) by simp
  note l = loader_honest [OF hon S(2) xs(3), of missing]
  obtain W where ld: "chunk_loader net_chunk missing (sha256 L d) (sy_world S) = (Inr d, W)"
    using l(1) by (cases "chunk_loader net_chunk missing (sha256 L d) (sy_world S)") simp
  then have W: "W = ?w" by simp
  have has: "has_chunk (aw_store ?w) (ci_hash info)"
    using l(3) xs(2) by (simp add: has_chunk_view world_chunks_def)
  have cl: "clean L es ?w" by (rule l(2))
  have seen: "world_chunks ?w k = Some e" if "world_chunks (sy_world S) k = Some e" for k e
    using world_source.load_keep [OF that] .
  have "worker_tick L (chunk_loader net_chunk missing) fh S =
      chunk_arrived fh wk info (map fst xs) d s (S\<lparr>sy_world := ?w\<rparr>)"
    unfolding W [symmetric] using wk s xs(1,2) ld by (simp add: worker_tick_def)
  also have "working L fh m pw es xs peers files \<dots>"
    unfolding working_def
    using wk s xs has cl S l(3) seen loader_alive [of net_chunk missing "sha256 L d" "sy_world S"]
    by (auto simp: chunk_arrived_def Let_def mark_chunk_def)
  finally show ?thesis .
qed

lemma working_ticks:
  "working L fh m pw es xs peers files S \<Longrightarrow> honest L net_chunk peers es \<Longrightarrow>
   working L fh m pw es [] peers files ((worker_tick L (chunk_loader net_chunk missing) fh ^^ length xs) S)"
proof (induction xs arbitrary: S)
  case (Cons x xs)
  obtain info d where x: "x = (info, d)" by (cases x)
  show ?case
    using Cons.IH [OF working_tick [OF _ Cons.prems(2)], of info d S missing] Cons.prems
    by (simp add: x funpow_swap1)
qed simp

lemma working_done:
  assumes w: "working L fh m pw es [] peers files S" and m: "stored_file L (Some pw) content es m"
  shows "\<exists>s. get_download (worker_tick L load fh S) fh = Some s \<and> dl_status s = Completed \<and>
     sy_files (worker_tick L load fh S) = files(output_path fh \<mapsto> content) \<and>
     dict_get (sy_resume (worker_tick L load fh S)) fh = None"
proof -
  obtain wk s where wk: "dict_get (sy_tasks S) fh = Some (Some wk)" "wk_manifest wk = m" "wk_todo wk = []"
    and s: "dict_get (sy_downloads S) fh = Some s" "dl_password s = pw"
    and S: "sy_files S = files" "\<forall>e \<in> set es. world_chunks (sy_world S) (sha256 L e) = Some e"
    using w by (auto simp: working_def)
  have "\<forall>e \<in> set es. chunk_view (aw_store (sy_world S)) (sha256 L e) = Some e"
    using S(2) by (simp add: world_chunks_def)
  from stored_chunks.merge_stored_file [OF m this] obtain st' where
    "pipeline_merge_to_disk L m store_load_fn (output_path fh) (Some pw) files (aw_store (sy_world S)) =
       (Inr (output_path fh), files(output_path fh \<mapsto> content), st')" by blast
  then show ?thesis
    using wk s S(1)
    by (simp add: worker_tick_def final_merge_def get_download_def delete_resume_def Let_def)
qed

lemma stored_file_password:
  "stored_file L (if pw = [] then None else Some pw) content es m = stored_file L (Some pw) content es m"
  by (simp add: stored_file_def fresh_keysalt_def)

definition started :: "dl_system \<Rightarrow> string \<Rightarrow> file_manifest \<Rightarrow> string \<Rightarrow> download_state" where
  "started S fh m pw = (fresh_download (sy_now S) fh m pw)\<lparr>dl_updated_at := sy_now S\<rparr>"

lemma start_fresh:
  assumes "from_dict L d = Inr m" and "existing_download S fh = None"
  shows "start_download L fh d pw S =
     (Inr (started S fh m pw), launch fh m (started S fh m pw)
        (put_download fh (started S fh m pw) (flushed (fresh_download (sy_now S) fh m pw) S)))"
  using assms by (simp add: start_download_def started_def Let_def)

lemma start_working:
  assumes m: "stored_file L (Some pw) content es m" and d: "from_dict L d = Inr m"
    and e: "existing_download S fh = None" and c: "clean L es (sy_world S)"
  obtains xs where "length xs = length es"
    and "working L fh m pw es xs (alive_peers (sy_world S)) (sy_files S) (snd (start_download L fh d pw S))"
proof -
  obtain xs where xs: "sort_key ci_index (chunks m) = map fst xs" "map snd xs = es"
    "\<forall>(info, d) \<in> set xs. ci_hash info = sha256 L d"
    by (rule stored_file_parts [OF m]) blast
  have "set (map ci_index (map fst xs)) = set (map ci_index (chunks m))"
    by (simp flip: xs(1))
  then have idx: "ci_index info \<in> int ` {0..<length (chunks m)}" if "(info, d) \<in> set xs" for info d
    using that stored_file_indices(1) [OF m] by (force simp: image_iff)
  have "working L fh m pw es xs (alive_peers (sy_world S)) (sy_files S) (snd (start_download L fh d pw S))"
  proof -
    let ?S = "snd (start_download L fh d pw S)" and ?wk = "new_worker m (started S fh m pw)"
    have t: "dict_get (sy_tasks ?S) fh = Some (Some ?wk)" "dict_get (sy_downloads ?S) fh = Some (started S fh m pw)"
      "dict_get (sy_cancel ?S) fh = Some False" "sy_files ?S = sy_files S" "sy_world ?S = sy_world S"
      unfolding start_fresh [OF d e] by (simp_all add: launch_def)
    have k: "wk_manifest ?wk = m" "wk_todo ?wk = map fst xs" "dl_password (started S fh m pw) = pw"
      "set (wk_missing_set ?wk) = int ` {0..<length (chunks m)}"
      using xs(1) by (simp_all add: new_worker_def started_def fresh_download_def)
    have "\<forall>(info, d) \<in> set xs. ci_index info \<in> set (wk_missing_set ?wk) \<and> ci_hash info = sha256 L d \<and> d \<in> set es"
    proof (clarify)
      fix info d
      assume x: "(info, d) \<in> set xs"
      have "d \<in> set es" using x unfolding xs(2) [symmetric] by force
      moreover have "ci_hash info = sha256 L d" using bspec [OF xs(3) x] by simp
      ultimately show "ci_index info \<in> set (wk_missing_set ?wk) \<and> ci_hash info = sha256 L d \<and> d \<in> set es"
        using idx [OF x] unfolding k(4) by blast
    qed
    moreover have "\<forall>e \<in> set es. e \<in> snd ` set xs" using xs(2) by auto
    ultimately show ?thesis unfolding working_def t(4,5) using t(1-3) k(1-3) c by blast
  qed
  moreover have "length xs = length es" using xs(2) by auto
  ultimately show ?thesis using that by blast
qed

text \<open>
  C12. A download runs to completion: started for a file that some node chunked, with the manifest
  it published, in a swarm where some peer alive serves the chunks and none serves other bytes, it
  is completed after one worker step per chunk and one for the merge; then the output file has
  exactly the original content and the resume file is gone.
\<close>

theorem download_completes:
  assumes "lib_ok L" and "fs path = Some content" and "csize \<noteq> 0"
    and "chunk_file L fs path csize (if pw = [] then None else Some pw) r = (Inr (m, es), r')"
    and "existing_download S fh = None"
    and "clean L es (sy_world S)" and "honest L net_chunk (alive_peers (sy_world S)) es"
    and "S' = (worker_tick L (chunk_loader net_chunk missing) fh ^^ Suc (length es))
                (snd (start_download L fh (to_dict m) pw S))"
  shows "\<exists>s. get_download S' fh = Some s \<and> dl_status s = Completed \<and>
     sy_files S' = (sy_files S)(output_path fh \<mapsto> content) \<and> dict_get (sy_resume S') fh = None"
proof -
  have m: "stored_file L (Some pw) content es m"
    using chunk_file_stored_file [of L fs path content csize "if pw = [] then None else Some pw" r] assms(1-4)
    by (auto simp: stored_file_password)
  have d: "from_dict L (to_dict m) = Inr m" by (simp add: from_to_dict stored_file_with_root [OF m])
  let ?S1 = "snd (start_download L fh (to_dict m) pw S)" and ?load = "chunk_loader net_chunk missing"
  obtain xs where xs: "length xs = length es"
    "working L fh m pw es xs (alive_peers (sy_world S)) (sy_files S) ?S1"
    by (rule start_working [OF m d assms(5,6)])
  have "working L fh m pw es [] (alive_peers (sy_world S)) (sy_files S) ((worker_tick L ?load fh ^^ length es) ?S1)"
    using working_ticks [OF xs(2) assms(7), of missing] xs(1) by simp
  from working_done [OF this m, of ?load] show ?thesis by (simp add: assms(8))
qed

text \<open>
  Pausing overwrites the outcome: if the worker finishes the download while
  \<^verbatim>\<open>pause_download\<close> waits for it, the completed download is reported and kept as paused, and
  the resume file that completion deleted is written again.
\<close>

theorem pause_overwrites_completion:
  assumes "get_download S fh = Some s0" and "dl_status s0 = Downloading"
    and "get_download (pause_wait L load ticks fh S) fh = Some s" and "dl_status s = Completed"
    and "dl_file_hash s = fh" and "pause_download L load ticks fh S = (res, S')"
  shows "\<exists>s'. res = Some s' \<and> dl_status s' = Paused \<and> dl_missing s' = dl_missing s \<and>
     get_download S' fh = Some s' \<and> dict_get (sy_resume S') fh = Some (Some (to_resume_dict s'))"
proof -
  have s0: "dict_get (sy_downloads S) fh = Some s0" and s: "dict_get (sy_downloads (pause_wait L load ticks fh S)) fh = Some s"
    using assms(1,3) by (simp_all add: get_download_def)
  let ?s = "s\<lparr>dl_status := Paused, dl_updated_at := sy_now (pause_wait L load ticks fh S)\<rparr>"
  have r: "res = Some ?s" and S': "sy_downloads S' = dict_set fh ?s (sy_downloads (pause_wait L load ticks fh S))"
    "sy_resume S' = dict_set fh (Some (to_resume_dict ?s)) (sy_resume (pause_wait L load ticks fh S))"
    using assms(5,6) pause_download_eq [OF s0 assms(2) s]
    by (auto simp: Let_def put_download_def flushed_def)
  then show ?thesis by (simp add: get_download_def)
qed

lemma clear_completed_get:
  assumes "fh \<in> set (map fst (filter (\<lambda>(fh, s). dl_status s \<in> {Completed, Errored}) (sy_downloads S)))"
  shows "dict_get (sy_downloads (clear_completed S)) fh = None" "dict_get (sy_tasks (clear_completed S)) fh = None"
  using assms unfolding clear_completed_def Let_def by (simp_all del: set_map add: fold_del_get)

text \<open>
  A failed download that is cleared cannot be started again: the failing worker saves the
  resume file before it sets the error, so the file says that the download is running; once the
  tracker has forgotten the download, both \<^verbatim>\<open>start_download\<close> and \<^verbatim>\<open>resume_download\<close> believe the
  file and return without launching a worker, leaving the system unchanged.
\<close>

theorem cleared_failure_is_stuck:
  assumes "get_download S fh = Some s" and "dl_status s = Downloading" and "dl_file_hash s = fh"
    and "dict_get (sy_tasks S) fh = Some (Some wk)" and "dict_get (sy_cancel S) fh = Some False"
    and "dropWhile (\<lambda>i. ci_index i \<notin> set (wk_missing_set wk)) (wk_todo wk) = info # rest"
    and "load (ci_hash info) (sy_world S) = (Inl e, w)"
    and "S' = clear_completed (worker_tick L load fh S)"
  shows "get_download S' fh = None \<and> dict_get (sy_tasks S') fh = None \<and>
     (\<exists>s'. dl_status s' = Downloading \<and>
        (\<forall>d m pw. from_dict L d = Inr m \<longrightarrow> start_download L fh d pw S' = (Inr s', S')) \<and>
        (\<forall>pw. resume_download L fh pw S' = (Inr (Some s'), S')))"
proof -
  let ?T = "worker_tick L load fh S"
  let ?err = "s\<lparr>dl_updated_at := sy_now (S\<lparr>sy_world := w\<rparr>), dl_status := Errored, dl_error := ChunkFailed e\<rparr>"
  have T: "?T = set_task fh None (put_download fh ?err (flushed s (S\<lparr>sy_world := w\<rparr>)))"
    using assms(1-7) by (simp add: worker_tick_def get_download_def Let_def)
  then have "dict_get (sy_downloads ?T) fh = Some ?err" by simp
  then have "(fh, ?err) \<in> set (sy_downloads ?T)" by (rule dict_get_SomeD)
  then have mem: "fh \<in> set (map fst (filter (\<lambda>(fh, s). dl_status s \<in> {Completed, Errored}) (sy_downloads ?T)))"
    by force
  then have gone: "dict_get (sy_downloads S') fh = None" "dict_get (sy_tasks S') fh = None"
    unfolding assms(8) by (simp_all only: clear_completed_get [OF mem])
  have "sy_resume S' = sy_resume ?T" by (simp add: assms(8) clear_completed_def Let_def)
  then have "dict_get (sy_resume S') fh = Some (Some (to_resume_dict (s\<lparr>dl_updated_at := sy_now (S\<lparr>sy_world := w\<rparr>)\<rparr>)))"
    using assms(3) by (simp add: T flushed_def)
  then have "load_resume S' fh = Some (s\<lparr>dl_updated_at := sy_now (S\<lparr>sy_world := w\<rparr>), dl_error := NoError, dl_password := []\<rparr>)"
    by (simp add: load_resume_def)
  then show ?thesis
    using gone assms(2) by (simp add: get_download_def start_download_def resume_download_def existing_download_def Let_def)
qed

subsection \<open>A concrete swarm\<close>

definition example_world :: api_world where
  "example_world = \<lparr>aw_node = example_node, aw_store = example_store, aw_requests = 0\<rparr>"

definition example_chunks :: "bytes list" where
  "example_chunks = [[40, 1, 2], [40, 3]]"

definition example_net :: "nat \<Rightarrow> peer_info \<Rightarrow> string \<Rightarrow> bytes option" where
  "example_net n p h = find (\<lambda>e. sha256 ref_lib e = h) example_chunks"

definition example_system :: dl_system where
  "example_system = new_manager example_world (one_file [1, 2, 3]) []"

lemma example_stream: "stream_chunks 2 0 [1, 2, 3] = [(0, [1, 2]), (1, [3])]"
  by (simp add: stream_chunks.simps [of 2] fread_def)

lemma example_chunk_file:
  "\<exists>m. chunk_file ref_lib (one_file [1, 2, 3]) ''f.txt'' 2 None ((\<lambda>i. 0), 0) = (Inr (m, example_chunks), ((\<lambda>i. 0), 0))"
  by (simp add: chunk_file_def one_file_def example_stream example_chunks_def Let_def) (simp add: ref_lib_def)

lemma example_alive: "alive_peers example_world = [(''n1'', example_peer\<lparr>pi_last_seen := 4\<rparr>)]"
  by (simp add: example_world_def alive_peers_def get_alive_peers_def example_node_def example_store_def add_peer_def
      set_database_def new_node_state_def example_peer_def is_alive_def Let_def)

lemma example_world_empty: "length h = 64 \<Longrightarrow> world_chunks example_world h = None"
  by (auto simp: world_chunks_def example_world_def chunk_view_def example_store_def) (simp_all add: chunk_filename_def)

lemma example_clean: "clean ref_lib example_chunks example_world"
  by (simp add: clean_def example_world_empty sha256_length [OF ref_lib_ok])

lemma example_honest: "honest ref_lib example_net (alive_peers example_world) example_chunks"
proof -
  have "sha256 ref_lib [40, 1, 2] \<noteq> sha256 ref_lib [40, 3]" by (simp add: ref_lib_def hex_digit_def)
  then show ?thesis by (simp add: honest_def example_alive example_net_def example_chunks_def)
qed

lemma example_system_world [simp]: "sy_world example_system = example_world" "existing_download example_system fh = None"
  by (simp_all add: example_system_def new_manager_def recover_resume_files_def existing_download_def load_resume_def)

theorem download_completes_witness:
  "\<exists>m s. get_download ((worker_tick ref_lib (chunk_loader example_net download_missing) ''f0'' ^^ 3)
              (snd (start_download ref_lib ''f0'' (to_dict m) [] example_system))) ''f0'' = Some s \<and>
     dl_status s = Completed"
proof -
  obtain m where m: "chunk_file ref_lib (one_file [1, 2, 3]) ''f.txt'' 2 None ((\<lambda>i. 0), 0) = (Inr (m, example_chunks), ((\<lambda>i. 0), 0))"
    using example_chunk_file by blast
  have f: "one_file [1, 2, 3] ''f.txt'' = Some [1, 2, 3 :: byte]" by (simp add: one_file_def)
  have "Suc (length example_chunks) = 3" by (simp add: example_chunks_def)
  then show ?thesis
    using download_completes [of ref_lib "one_file [1, 2, 3]" "''f.txt''" "[1, 2, 3]" 2 "[]" "((\<lambda>i. 0), 0)" m example_chunks
        "((\<lambda>i. 0), 0)" example_system "''f0''" example_net _ download_missing]
      ref_lib_ok f m example_clean example_honest
    by (simp del: funpow.simps) blast
qed

text \<open>A manifest of two chunks, of which nothing can be fetched.\<close>

definition two_chunk_manifest :: file_manifest where
  "two_chunk_manifest = empty_manifest\<lparr>merkle_root := ''r'', chunks :=
     [\<lparr>ci_index = 0, ci_hash = ''c0'', ci_size = 1, ci_encrypted = False\<rparr>,
      \<lparr>ci_index = 1, ci_hash = ''c1'', ci_size = 1, ci_encrypted = False\<rparr>]\<rparr>"

definition two_chunk_system :: dl_system where
  "two_chunk_system = snd (start_download ref_lib ''f0'' (to_dict two_chunk_manifest) ''pw'' example_system)"

lemma two_chunk_start:
  "two_chunk_system = launch ''f0'' two_chunk_manifest (started example_system ''f0'' two_chunk_manifest ''pw'')
     (put_download ''f0'' (started example_system ''f0'' two_chunk_manifest ''pw'')
       (flushed (fresh_download (sy_now example_system) ''f0'' two_chunk_manifest ''pw'') example_system))"
proof -
  have "with_root ref_lib two_chunk_manifest = two_chunk_manifest"
    by (simp add: with_root_def two_chunk_manifest_def)
  then have "from_dict ref_lib (to_dict two_chunk_manifest) = Inr two_chunk_manifest" by (simp add: from_to_dict)
  from start_fresh [OF this, of example_system "''f0''" "''pw''"] show ?thesis by (simp add: two_chunk_system_def)
qed

lemma two_chunk_download:
  "get_download two_chunk_system ''f0'' = Some (started example_system ''f0'' two_chunk_manifest ''pw'')"
  by (simp add: two_chunk_start launch_def get_download_def)

theorem download_progress_consistent_witness:
  "\<exists>s. get_download two_chunk_system ''f0'' = Some s \<and> dl_missing s = [0, 1] \<and>
     set (dl_missing s @ dl_completed s) = {0..<dl_total_chunks s} \<and> resume_ok (sy_resume two_chunk_system)"
proof -
  have "resume_ok []" by (simp add: resume_ok_def)
  moreover have "(dl_step ref_lib)\<^sup>*\<^sup>* (new_manager example_world (one_file [1, 2, 3]) []) two_chunk_system"
    unfolding two_chunk_system_def example_system_def by (rule r_into_rtranclp) (rule do_start)
  moreover have "get_download two_chunk_system ''f0'' = Some (started example_system ''f0'' two_chunk_manifest ''pw'')"
    by (rule two_chunk_download)
  moreover have "dl_missing (started example_system ''f0'' two_chunk_manifest ''pw'') = [0, 1]"
    by (simp add: started_def fresh_download_def two_chunk_manifest_def upt_rec)
  ultimately show ?thesis
    using download_progress_consistent [of "[]" ref_lib example_world "one_file [1, 2, 3]" two_chunk_system] by blast
qed

theorem cleared_failure_is_stuck_witness:
  "let S' = clear_completed (worker_tick ref_lib (chunk_loader (\<lambda>n p h. None) download_missing) ''f0'' two_chunk_system) in
     get_download S' ''f0'' = None \<and> (\<exists>s'. resume_download ref_lib ''f0'' ''pw'' S' = (Inr (Some s'), S'))"
proof -
  let ?s = "started example_system ''f0'' two_chunk_manifest ''pw''" and ?wk = "new_worker two_chunk_manifest (started example_system ''f0'' two_chunk_manifest ''pw'')"
  let ?c = "\<lparr>ci_index = 0, ci_hash = ''c0'', ci_size = 1, ci_encrypted = False\<rparr>"
  let ?d = "\<lparr>ci_index = 1, ci_hash = ''c1'', ci_size = 1, ci_encrypted = False\<rparr>"
  have t: "dict_get (sy_tasks two_chunk_system) ''f0'' = Some (Some ?wk)" "dict_get (sy_cancel two_chunk_system) ''f0'' = Some False"
    "sy_world two_chunk_system = example_world"
    by (simp_all add: two_chunk_start launch_def)
  have d: "dropWhile (\<lambda>i. ci_index i \<notin> set (wk_missing_set ?wk)) (wk_todo ?wk) = ?c # [?d]"
    by (simp add: new_worker_def started_def fresh_download_def two_chunk_manifest_def upt_rec)
  have "fst (chunk_loader (\<lambda>n p h. None) download_missing ''c0'' example_world) = Inl (download_missing ''c0'')"
    by (simp add: chunk_loader_def example_world_def load_chunk_def example_store_def chunk_filename_def Let_def
        example_alive [unfolded example_world_def example_store_def chunk_filename_def, simplified])
  then obtain w where ld: "chunk_loader (\<lambda>n p h. None) download_missing (ci_hash ?c) (sy_world two_chunk_system) = (Inl (download_missing ''c0''), w)"
    by (cases "chunk_loader (\<lambda>n p h. None) download_missing ''c0'' example_world") (simp add: t)
  have st: "dl_status ?s = Downloading" "dl_file_hash ?s = ''f0''"
    by (simp_all add: started_def fresh_download_def)
  note cleared_failure_is_stuck [of two_chunk_system "''f0''" ?s ?wk ?c "[?d]"
      "chunk_loader (\<lambda>n p h. None) download_missing" "download_missing ''c0''" w _ ref_lib,
      OF two_chunk_download st t(1,2) d ld refl]
  then show ?thesis unfolding Let_def by blast
qed

text \<open>A download without chunks that the worker finishes while it is being paused.\<close>

definition empty_system :: dl_system where
  "empty_system = snd (start_download ref_lib ''f0'' (to_dict empty_manifest) [] example_system)"

lemma empty_start:
  "empty_system = launch ''f0'' empty_manifest (started example_system ''f0'' empty_manifest [])
     (put_download ''f0'' (started example_system ''f0'' empty_manifest [])
       (flushed (fresh_download (sy_now example_system) ''f0'' empty_manifest []) example_system))"
proof -
  have "with_root ref_lib empty_manifest = empty_manifest"
    by (simp add: with_root_def empty_manifest_def new_manifest_def)
  then have "from_dict ref_lib (to_dict empty_manifest) = Inr empty_manifest" by (simp add: from_to_dict)
  from start_fresh [OF this, of example_system "''f0''" "[]"] show ?thesis by (simp add: empty_system_def)
qed

lemma empty_parts:
  "dict_get (sy_tasks empty_system) ''f0'' = Some (Some (new_worker empty_manifest (started example_system ''f0'' empty_manifest [])))"
  "get_download empty_system ''f0'' = Some (started example_system ''f0'' empty_manifest [])"
  "dict_get (sy_downloads empty_system) ''f0'' = Some (started example_system ''f0'' empty_manifest [])"
  by (simp_all add: empty_start launch_def get_download_def)

lemma empty_merge:
  "pipeline_merge_to_disk ref_lib empty_manifest store_load_fn out pw fs st = (Inr out, fs(out \<mapsto> []), st)"
  by (simp add: pipeline_merge_to_disk_def empty_manifest_def new_manifest_def)

lemma empty_pause_wait:
  "\<exists>s. get_download (pause_wait ref_lib (chunk_loader example_net download_missing) 1 ''f0'' empty_system) ''f0'' = Some s \<and>
     dl_status s = Completed \<and> dl_file_hash s = ''f0''"
proof -
  have todo: "wk_todo (new_worker empty_manifest s) = []" "wk_manifest (new_worker empty_manifest s) = empty_manifest" for s
    by (simp_all add: new_worker_def empty_manifest_def new_manifest_def)
  have st: "dl_file_hash (started example_system ''f0'' empty_manifest []) = ''f0''"
    by (simp add: started_def fresh_download_def)
  show ?thesis
    by (simp add: pause_wait_def worker_tick_def empty_parts todo final_merge_def empty_merge Let_def
        cancel_worker_def get_download_def st)
qed

theorem pause_overwrites_completion_witness:
  "\<exists>s' S'. pause_download ref_lib (chunk_loader example_net download_missing) 1 ''f0'' empty_system = (Some s', S') \<and>
     dl_status s' = Paused \<and> dict_get (sy_resume S') ''f0'' = Some (Some (to_resume_dict s'))"
proof -
  obtain s where s: "get_download (pause_wait ref_lib (chunk_loader example_net download_missing) 1 ''f0'' empty_system) ''f0'' = Some s"
    "dl_status s = Completed" "dl_file_hash s = ''f0''" using empty_pause_wait by blast
  obtain res S' where r: "pause_download ref_lib (chunk_loader example_net download_missing) 1 ''f0'' empty_system = (res, S')"
    by (rule prod.exhaust)
  have "dl_status (started example_system ''f0'' empty_manifest []) = Downloading"
    by (simp add: started_def fresh_download_def)
  from pause_overwrites_completion [OF empty_parts(2) this s r] show ?thesis using r by auto
qed

end
