(* ===== verification/Wire.thy ===== *)
theory Wire
  imports NodeState
begin

section \<open>Messages and framing (backend/network/protocol.py, backend/network/connection.py)\<close>

text \<open>
  The message builders, the length-prefixed frames on a TCP stream, and the loop that reads them.
  A message is a Python dictionary with string keys. \<^verbatim>\<open>msgpack\<close> is a parameter: \<open>packb\<close> is
  \<open>None\<close> where it raises (an integer beyond 64 bits, say); \<open>unpackb\<close> is \<open>None\<close> where it raises, and where
  the bytes hold no dictionary: every reader of a message then stops without acting on it, at the
  \<^verbatim>\<open>None\<close> test or at the \<^verbatim>\<open>AttributeError\<close> of the first \<^verbatim>\<open>msg.get\<close>.
\<close>

datatype msg_value =
    VNone
  | VBool bool
  | VInt int
  | VFloat real
  | VStr string
  | VBytes bytes
  | VList "string list"

type_synonym message = "(string, msg_value) dict"

subsection \<open>Builders\<close>

definition MSG_HANDSHAKE :: string where "MSG_HANDSHAKE = ''HANDSHAKE''"
definition MSG_HANDSHAKE_ACK :: string where "MSG_HANDSHAKE_ACK = ''HANDSHAKE_ACK''"
definition MSG_STORE_CHUNK :: string where "MSG_STORE_CHUNK = ''STORE_CHUNK''"
definition MSG_STORE_ACK :: string where "MSG_STORE_ACK = ''STORE_ACK''"
definition MSG_CHUNK_ACK :: string where "MSG_CHUNK_ACK = ''CHUNK_ACK''"
definition MSG_GET_CHUNK :: string where "MSG_GET_CHUNK = ''GET_CHUNK''"
definition MSG_CHUNK_DATA :: string where "MSG_CHUNK_DATA = ''CHUNK_DATA''"
definition MSG_FIND_NODE :: string where "MSG_FIND_NODE = ''FIND_NODE''"
definition MSG_FIND_RESULT :: string where "MSG_FIND_RESULT = ''FIND_RESULT''"
definition MSG_PING :: string where "MSG_PING = ''PING''"
definition MSG_PONG :: string where "MSG_PONG = ''PONG''"
definition MSG_CHAT :: string where "MSG_CHAT = ''CHAT''"

lemmas msg_type_defs =
  MSG_HANDSHAKE_def MSG_HANDSHAKE_ACK_def MSG_STORE_CHUNK_def MSG_STORE_ACK_def MSG_CHUNK_ACK_def
  MSG_GET_CHUNK_def MSG_CHUNK_DATA_def MSG_FIND_NODE_def MSG_FIND_RESULT_def MSG_PING_def MSG_PONG_def
  MSG_CHAT_def

text \<open>\<^verbatim>\<open>msg.update(kwargs)\<close>\<close>

definition build_message :: "real \<Rightarrow> string \<Rightarrow> string \<Rightarrow> message \<Rightarrow> message" where
  "build_message now msg_type sender_id kwargs =
     fold (\<lambda>(k, v). dict_set k v) kwargs
       [(''type'', VStr msg_type), (''sender_id'', VStr sender_id), (''timestamp'', VFloat now)]"

definition auth_handshake_msg :: "(bytes \<Rightarrow> bytes \<Rightarrow> string) \<Rightarrow> string \<Rightarrow> string \<Rightarrow> message" where
  "auth_handshake_msg hmac node_id swarm_key =
     [(''type'', VStr ''AUTH''), (''node_id'', VStr node_id),
      (''signature'', VStr (hmac (encode swarm_key) (encode node_id)))]"

definition store_chunk_msg :: "real \<Rightarrow> string \<Rightarrow> string \<Rightarrow> bytes \<Rightarrow> string \<Rightarrow> message" where
  "store_chunk_msg now sender_id chunk_hash chunk_data fh =
     build_message now MSG_STORE_CHUNK sender_id
       [(''chunk_hash'', VStr chunk_hash), (''chunk_data'', VBytes chunk_data), (''file_hash'', VStr fh)]"

definition store_ack_msg :: "real \<Rightarrow> string \<Rightarrow> string \<Rightarrow> bool \<Rightarrow> message" where
  "store_ack_msg now sender_id chunk_hash success =
     build_message now MSG_STORE_ACK sender_id [(''chunk_hash'', VStr chunk_hash), (''success'', VBool success)]"

definition get_chunk_msg :: "real \<Rightarrow> string \<Rightarrow> string \<Rightarrow> message" where
  "get_chunk_msg now sender_id chunk_hash =
     build_message now MSG_GET_CHUNK sender_id [(''chunk_hash'', VStr chunk_hash)]"

definition chunk_data_msg :: "real \<Rightarrow> string \<Rightarrow> string \<Rightarrow> bytes \<Rightarrow> message" where
  "chunk_data_msg now sender_id chunk_hash chunk_data =
     build_message now MSG_CHUNK_DATA sender_id [(''chunk_hash'', VStr chunk_hash), (''chunk_data'', VBytes chunk_data)]"

definition find_node_msg :: "real \<Rightarrow> string \<Rightarrow> string \<Rightarrow> message" where
  "find_node_msg now sender_id target_hash =
     build_message now MSG_FIND_NODE sender_id [(''target_hash'', VStr target_hash)]"

definition find_result_msg :: "real \<Rightarrow> string \<Rightarrow> string \<Rightarrow> string list \<Rightarrow> message" where
  "find_result_msg now sender_id target_hash closest_peers =
     build_message now MSG_FIND_RESULT sender_id
       [(''target_hash'', VStr target_hash), (''closest_peers'', VList closest_peers)]"

definition ping_msg :: "real \<Rightarrow> string \<Rightarrow> message" where
  "ping_msg now sender_id = build_message now MSG_PING sender_id []"

definition pong_msg :: "real \<Rightarrow> string \<Rightarrow> real \<Rightarrow> int \<Rightarrow> message" where
  "pong_msg now sender_id up free_space =
     build_message now MSG_PONG sender_id [(''uptime'', VFloat up), (''free_space'', VInt free_space)]"

definition chunk_ack_msg :: "real \<Rightarrow> string \<Rightarrow> string \<Rightarrow> int \<Rightarrow> message" where
  "chunk_ack_msg now sender_id chunk_hash index =
     build_message now MSG_CHUNK_ACK sender_id [(''chunk_hash'', VStr chunk_hash), (''index'', VInt index)]"

definition chat_msg :: "real \<Rightarrow> string \<Rightarrow> string \<Rightarrow> string \<Rightarrow> message" where
  "chat_msg now sender_id sender_name txt =
     build_message now MSG_CHAT sender_id [(''sender_name'', VStr sender_name), (''text'', VStr txt)]"

subsection \<open>Frames\<close>

definition STREAM_LIMIT :: nat where "STREAM_LIMIT = 8 * 1024 * 1024"

text \<open>\<^verbatim>\<open>n.to_bytes(4, 'big')\<close> raises \<^verbatim>\<open>OverflowError\<close> when \<open>n\<close> needs more than four bytes.\<close>

definition to_bytes4 :: "nat \<Rightarrow> bytes res" where
  "to_bytes4 n =
     (if n < 2 ^ 32
      then Inr (map (\<lambda>i. word_of_nat (n div 256 ^ i)) [3, 2, 1, 0])
      else Inl OverflowError)"

definition from_bytes :: "bytes \<Rightarrow> nat" where
  "from_bytes bs = fold (\<lambda>b acc. 256 * acc + unat b) bs 0"

record codec =
  packb :: "message \<Rightarrow> bytes option"
  unpackb :: "bytes \<Rightarrow> message option"

text \<open>\<^verbatim>\<open>send\<close>: the bytes appended to the stream.\<close>

definition send_frame :: "codec \<Rightarrow> message \<Rightarrow> bytes res" where
  "send_frame C message =
     (case packb C message of
        None \<Rightarrow> Inl TypeError
      | Some payload \<Rightarrow> bindr (to_bytes4 (length payload)) (\<lambda>header. Inr (header @ payload)))"

text \<open>
  The stream is the bytes that arrive until the peer closes its end. \<^verbatim>\<open>readexactly(n)\<close> takes
  \<open>n\<close> of them, or raises \<^verbatim>\<open>IncompleteReadError\<close> and leaves nothing. \<^verbatim>\<open>receive\<close> turns every
  exception into \<^verbatim>\<open>None\<close>.
\<close>

definition readexactly :: "nat \<Rightarrow> bytes \<Rightarrow> bytes option \<times> bytes" where
  "readexactly n stream = (if n \<le> length stream then (Some (take n stream), drop n stream) else (None, []))"

definition receive :: "codec \<Rightarrow> bytes \<Rightarrow> message option \<times> bytes" where
  "receive C stream =
     (case readexactly 4 stream of
        (None, rest) \<Rightarrow> (None, rest)
      | (Some header, rest) \<Rightarrow>
          if from_bytes header > STREAM_LIMIT then (None, rest)
          else
            (case readexactly (from_bytes header) rest of
               (None, rest') \<Rightarrow> (None, rest')
             | (Some payload, rest') \<Rightarrow> (unpackb C payload, rest')))"

lemma receive_shrinks: "receive C stream = (Some m, rest) \<Longrightarrow> length rest < length stream"
  by (auto simp: receive_def readexactly_def split: prod.splits option.splits if_splits)

text \<open>The message loop: every message until the first \<^verbatim>\<open>None\<close> is handled, in order.\<close>

function message_loop :: "codec \<Rightarrow> bytes \<Rightarrow> message list" where
  "message_loop C stream =
     (case receive C stream of
        (None, rest) \<Rightarrow> []
      | (Some m, rest) \<Rightarrow> m # message_loop C rest)"
  by pat_completeness auto
termination
  by (relation "measure (\<lambda>(C, stream). length stream)") (auto dest: receive_shrinks [OF sym])

declare message_loop.simps [simp del]

subsection \<open>The length prefix\<close>

lemma to_bytes4_length: "to_bytes4 n = Inr h \<Longrightarrow> length h = 4"
  by (auto simp: to_bytes4_def split: if_splits)

lemma unat_byte: "unat (word_of_nat n :: byte) = n mod 256"
  by (simp add: unat_of_nat)

lemma from_to_bytes4: "to_bytes4 n = Inr h \<Longrightarrow> from_bytes h = n"
proof -
  assume "to_bytes4 n = Inr h"
  then have n: "n < 2 ^ 32" and h: "h = map (\<lambda>i. word_of_nat (n div 256 ^ i)) [3, 2, 1, 0]"
    by (auto simp: to_bytes4_def split: if_splits)
  define a b c where abc: "a = n div 256" "b = a div 256" "c = b div 256"
  have "n div 16777216 = c" and "n div 65536 = b"
    by (simp_all add: abc div_mult2_eq [symmetric])
  moreover have "c mod 256 = c"
    using n by (simp add: abc div_mult2_eq [symmetric] less_mult_imp_div_less)
  moreover have "256 * c + b mod 256 = b" "256 * b + a mod 256 = a" "256 * a + n mod 256 = n"
    by (simp_all add: abc)
  ultimately show ?thesis
    by (simp add: h from_bytes_def unat_byte flip: abc(1))
qed

definition codec_ok :: "codec \<Rightarrow> bool" where
  "codec_ok C \<longleftrightarrow> (\<forall>m b. packb C m = Some b \<longrightarrow> unpackb C b = Some m)"

lemma receive_sent:
  assumes "codec_ok C" and "packb C m = Some b" and "send_frame C m = Inr f" and "length b \<le> STREAM_LIMIT"
  shows "receive C (f @ rest) = (Some m, rest)"
proof -
  obtain h where h: "to_bytes4 (length b) = Inr h" "f = h @ b"
    using assms(2,3) by (auto simp: send_frame_def bindr_eq_Inr)
  show ?thesis
    using assms(1,2,4) to_bytes4_length [OF h(1)] from_to_bytes4 [OF h(1)]
    by (simp add: receive_def readexactly_def h(2) codec_ok_def)
qed

lemma receive_oversized:
  assumes "packb C m = Some b" and "send_frame C m = Inr f" and "length b > STREAM_LIMIT"
  shows "fst (receive C (f @ rest)) = None"
proof -
  obtain h where h: "to_bytes4 (length b) = Inr h" "f = h @ b"
    using assms(1,2) by (auto simp: send_frame_def bindr_eq_Inr)
  show ?thesis
    using assms(3) to_bytes4_length [OF h(1)] from_to_bytes4 [OF h(1)]
    by (simp add: receive_def readexactly_def h(2))
qed

lemma small_frame: "packb C m = Some b \<Longrightarrow> length b \<le> STREAM_LIMIT \<Longrightarrow> \<exists>f. send_frame C m = Inr f"
  by (simp add: send_frame_def to_bytes4_def STREAM_LIMIT_def)

text \<open>A message that a frame can carry to the other side.\<close>

definition fits :: "codec \<Rightarrow> message \<Rightarrow> bool" where
  "fits C m \<longleftrightarrow> (case packb C m of None \<Rightarrow> False | Some b \<Rightarrow> length b \<le> STREAM_LIMIT)"

lemma fitsD:
  "fits C m \<Longrightarrow> \<exists>b f. packb C m = Some b \<and> length b \<le> STREAM_LIMIT \<and> send_frame C m = Inr f"
  by (auto simp: fits_def dest: small_frame split: option.splits)

lemma fits_frame: "fits C m \<Longrightarrow> \<exists>f. send_frame C m = Inr f"
  by (auto dest: fitsD)

subsection \<open>What the reader of a stream sees\<close>

text \<open>The bytes of several messages sent one after the other.\<close>

definition send_all_frames :: "codec \<Rightarrow> message list \<Rightarrow> bytes res" where
  "send_all_frames C ms = bindr (mapr (send_frame C) ms) (\<lambda>fs. Inr (concat fs))"

lemma send_all_frames_Cons:
  "send_all_frames C (m # ms) =
     bindr (send_frame C m) (\<lambda>f. bindr (send_all_frames C ms) (\<lambda>fs. Inr (f @ fs)))"
  by (cases "send_frame C m"; cases "mapr (send_frame C) ms") (simp_all add: send_all_frames_def)

lemma message_loop_closed [simp]: "message_loop C [] = []"
  by (subst message_loop.simps) (simp add: receive_def readexactly_def)

lemma message_loop_sent:
  "codec_ok C \<Longrightarrow> fits C m \<Longrightarrow> send_frame C m = Inr f \<Longrightarrow> message_loop C (f @ rest) = m # message_loop C rest"
  using receive_sent [of C m _ f rest] fitsD [of C m]
  by (subst message_loop.simps) auto

lemma message_loop_oversized:
  assumes "packb C m \<noteq> None" and "\<not> fits C m" and "send_frame C m = Inr f"
  shows "message_loop C (f @ rest) = []"
proof -
  have "fst (receive C (f @ rest)) = None"
    using assms receive_oversized [of C m _ f rest] by (auto simp: fits_def split: option.splits)
  then show ?thesis by (subst message_loop.simps) (auto split: prod.splits option.splits)
qed

text \<open>
  C20. Framing on a TCP stream: the reader gets exactly the messages that were sent, in order, up to
  the first one whose payload is larger than the 8 MB limit. \<^verbatim>\<open>send\<close> does not check that limit,
  so the first oversized message is written without an error and the connection delivers nothing
  from it on.
\<close>

theorem frames_delivered:
  assumes "codec_ok C" and "send_all_frames C ms = Inr stream"
  shows "message_loop C stream = takeWhile (fits C) ms"
  using assms(2)
proof (induction ms arbitrary: stream)
  case Nil
  then show ?case by (simp add: send_all_frames_def)
next
  case (Cons m ms)
  then obtain f fs where f: "send_frame C m = Inr f" "send_all_frames C ms = Inr fs" "stream = f @ fs"
    by (auto simp: send_all_frames_Cons bindr_eq_Inr)
  then have "packb C m \<noteq> None" by (auto simp: send_frame_def split: option.splits)
  with f assms(1) Cons.IH [OF f(2)] show ?case
    by (cases "fits C m") (simp_all add: message_loop_sent message_loop_oversized)
qed

text \<open>A codec for the messages of a list, to run the theorems on: a message is packed as its index.\<close>

definition table_codec :: "message list \<Rightarrow> codec" where
  "table_codec ms = \<lparr>
     packb = (\<lambda>m. case find (\<lambda>i. ms ! i = m) [0..<min 256 (length ms)] of None \<Rightarrow> None | Some i \<Rightarrow> Some [word_of_nat i]),
     unpackb = (\<lambda>b. case b of [] \<Rightarrow> None | n # _ \<Rightarrow> if unat n < length ms then Some (ms ! unat n) else None)\<rparr>"

lemma table_codec_ok: "codec_ok (table_codec ms)"
  by (auto simp: codec_ok_def table_codec_def find_Some_iff unat_of_nat split: option.splits)

lemma table_codec_fits: "i < length ms \<Longrightarrow> i < 256 \<Longrightarrow> fits (table_codec ms) (ms ! i)"
  by (force simp: fits_def table_codec_def STREAM_LIMIT_def find_None_iff split: option.splits)

theorem frames_delivered_witness:
  "\<exists>C stream. send_all_frames C [ping_msg 0 ''a'', ping_msg 1 ''b''] = Inr stream \<and>
     message_loop C stream = [ping_msg 0 ''a'', ping_msg 1 ''b'']"
proof -
  let ?ms = "[ping_msg 0 ''a'', ping_msg 1 ''b'']"
  let ?C = "table_codec ?ms"
  have f: "fits ?C (ping_msg 0 ''a'')" "fits ?C (ping_msg 1 ''b'')"
    using table_codec_fits [of 0 ?ms] table_codec_fits [of 1 ?ms] by simp_all
  then obtain stream where s: "send_all_frames ?C ?ms = Inr stream"
    by (auto simp: send_all_frames_Cons send_all_frames_def dest!: fitsD)
  have "takeWhile (fits ?C) ?ms = ?ms" using f by simp
  with s show ?thesis using frames_delivered [OF table_codec_ok s] by auto
qed

end
