(* ===== verification/Network.thy ===== *)
theory Network
  imports Wire
begin

section \<open>TCP connections (backend/network/connection.py)\<close>

text \<open>
  The connection manager of one node. A connection is a number; what is written on it and whether
  it still stands are functions of that number. The handler of an inbound connection is a task that
  runs from one \<^verbatim>\<open>await conn.receive()\<close> to the next: \<open>client_step\<close> is what it does with one
  result of \<^verbatim>\<open>receive\<close>, so that the steps of several connections interleave in any order.
  Every branch that ends the task, the timeout of the first message included, has the same effect as
  a \<^verbatim>\<open>receive\<close> that returns \<^verbatim>\<open>None\<close>.

  The fields of a received message are read with the type the protocol gives them. A field of
  another type is taken to raise: the code then fails at the first use of the value.
\<close>

record net_env =
  ne_codec :: codec
  ne_hmac :: "bytes \<Rightarrow> bytes \<Rightarrow> string"
  ne_swarm_key :: string

record net_state =
  nt_node :: node_state
  nt_api_port :: int
  nt_connections :: "(string, nat) dict"
  nt_written :: "nat \<Rightarrow> bytes"
  nt_open :: "nat \<Rightarrow> bool"

subsection \<open>Reading fields\<close>

definition str_field :: "string \<Rightarrow> string \<Rightarrow> message \<Rightarrow> string res" where
  "str_field k d m =
     (case dict_get m k of None \<Rightarrow> Inr d | Some (VStr s) \<Rightarrow> Inr s | Some _ \<Rightarrow> Inl TypeError)"

definition int_field :: "string \<Rightarrow> int \<Rightarrow> message \<Rightarrow> int res" where
  "int_field k d m =
     (case dict_get m k of None \<Rightarrow> Inr d | Some (VInt n) \<Rightarrow> Inr n | Some _ \<Rightarrow> Inl TypeError)"

definition has_type :: "string \<Rightarrow> message \<Rightarrow> bool" where
  "has_type t m \<longleftrightarrow> dict_get m ''type'' = Some (VStr t)"

lemma str_field_present [simp]: "dict_get m k = Some (VStr s) \<Longrightarrow> str_field k d m = Inr s"
  by (simp add: str_field_def)

subsection \<open>Sending\<close>

text \<open>\<^verbatim>\<open>send\<close> raises when the message cannot be packed or when the connection is lost.\<close>

definition conn_send :: "codec \<Rightarrow> nat \<Rightarrow> message \<Rightarrow> 'a net_state_scheme \<Rightarrow> unit res \<times> 'a net_state_scheme" where
  "conn_send C h m S =
     (case send_frame C m of
        Inl e \<Rightarrow> (Inl e, S)
      | Inr f \<Rightarrow>
          if nt_open S h then (Inr (), S\<lparr>nt_written := (nt_written S)(h := nt_written S h @ f)\<rparr>)
          else (Inl OSError, S))"

definition conn_close :: "nat \<Rightarrow> 'a net_state_scheme \<Rightarrow> 'a net_state_scheme" where
  "conn_close h S = S\<lparr>nt_open := (nt_open S)(h := False)\<rparr>"

definition send_to_peer ::
    "codec \<Rightarrow> string \<Rightarrow> message \<Rightarrow> 'a net_state_scheme \<Rightarrow> bool \<times> 'a net_state_scheme" where
  "send_to_peer C nid m S =
     (case dict_get (nt_connections S) nid of
        None \<Rightarrow> (False, S)
      | Some h \<Rightarrow> let (r, S') = conn_send C h m S in (case r of Inr _ \<Rightarrow> True | Inl _ \<Rightarrow> False, S'))"

fun broadcast_loop ::
    "codec \<Rightarrow> message \<Rightarrow> string list \<Rightarrow> nat \<Rightarrow> 'a net_state_scheme \<Rightarrow> nat \<times> 'a net_state_scheme" where
  "broadcast_loop C m [] sent S = (sent, S)"
| "broadcast_loop C m (nid # nids) sent S =
     (let (ok, S') = send_to_peer C nid m S in broadcast_loop C m nids (if ok then Suc sent else sent) S')"

definition broadcast_to_peers :: "codec \<Rightarrow> message \<Rightarrow> 'a net_state_scheme \<Rightarrow> nat \<times> 'a net_state_scheme" where
  "broadcast_to_peers C m S = broadcast_loop C m (dict_keys (nt_connections S)) 0 S"

definition stop :: "'a net_state_scheme \<Rightarrow> 'a net_state_scheme" where
  "stop S = (fold conn_close (map snd (nt_connections S)) S)\<lparr>nt_connections := []\<rparr>"

subsection \<open>Handshakes\<close>

text \<open>The \<^verbatim>\<open>PeerInfo\<close> of a handshake; the fields it does not set have the defaults of the class.\<close>

definition handshake_peer :: "real \<Rightarrow> string \<Rightarrow> string \<Rightarrow> int \<Rightarrow> message \<Rightarrow> peer_info res" where
  "handshake_peer now nid ip port m =
     bindr (int_field ''tcp_port'' port m) (\<lambda>tcp.
     bindr (str_field ''name'' ''unknown'' m) (\<lambda>name.
     bindr (int_field ''api_port'' 8888 m) (\<lambda>api.
     Inr \<lparr>pi_node_id = nid, pi_ip = ip, pi_tcp_port = tcp, pi_name = name, pi_last_seen = now,
          pi_free_space = 0, pi_uptime = 0, pi_latency = 0, pi_health_score = 0, pi_api_port = api\<rparr>)))"

definition handshake_fields :: "string \<Rightarrow> 'a net_state_scheme \<Rightarrow> message" where
  "handshake_fields t S =
     [(''type'', VStr t), (''node_id'', VStr (ns_node_id (nt_node S))), (''name'', VStr (ns_name (nt_node S))),
      (''tcp_port'', VInt (ns_tcp_port (nt_node S))), (''api_port'', VInt (nt_api_port S))]"

text \<open>\<^verbatim>\<open>start_server\<close> stores the port the system chose.\<close>

definition start_server :: "int \<Rightarrow> 'a net_state_scheme \<Rightarrow> 'a net_state_scheme" where
  "start_server actual_port S = S\<lparr>nt_node := (nt_node S)\<lparr>ns_tcp_port := actual_port\<rparr>\<rparr>"

text \<open>
  Registration of an authenticated connection: the entry of \<^verbatim>\<open>connections\<close> and the task that
  adds the peer to the node's state, which is run at once.
\<close>

definition register_conn :: "real \<Rightarrow> string \<Rightarrow> nat \<Rightarrow> peer_info \<Rightarrow> 'a net_state_scheme \<Rightarrow> 'a net_state_scheme" where
  "register_conn now nid h p S =
     S\<lparr>nt_connections := dict_set nid h (nt_connections S), nt_node := add_peer now p (nt_node S)\<rparr>"

datatype phase = AwaitAuth | AwaitHandshake | InLoop | Finished

record client =
  cl_conn :: nat
  cl_ip :: string
  cl_phase :: phase
  cl_peer_id :: string

definition new_client :: "nat \<Rightarrow> string \<Rightarrow> client" where
  "new_client h ip = \<lparr>cl_conn = h, cl_ip = ip, cl_phase = AwaitAuth, cl_peer_id = []\<rparr>"

text \<open>The \<^verbatim>\<open>finally\<close> block.\<close>

definition client_finish :: "client \<Rightarrow> 'a net_state_scheme \<Rightarrow> client \<times> 'a net_state_scheme" where
  "client_finish cl S =
     (cl\<lparr>cl_phase := Finished\<rparr>,
      conn_close (cl_conn cl) (S\<lparr>nt_connections := dict_del (cl_peer_id cl) (nt_connections S)\<rparr>))"

definition auth_valid :: "net_env \<Rightarrow> message \<Rightarrow> bool" where
  "auth_valid E m \<longleftrightarrow> has_type ''AUTH'' m \<and>
     (case (str_field ''node_id'' [] m, str_field ''signature'' [] m) of
        (Inr nid, Inr sig) \<Rightarrow> sig = ne_hmac E (encode (ne_swarm_key E)) (encode nid)
      | _ \<Rightarrow> False)"

type_synonym 'a msg_handler = "nat \<Rightarrow> message \<Rightarrow> 'a net_state_scheme \<Rightarrow> unit res \<times> 'a net_state_scheme"

text \<open>The handler used when the constructor gets none: it logs.\<close>

definition default_handler :: "'a msg_handler" where
  "default_handler h m S = (Inr (), S)"

definition accept_handshake ::
    "net_env \<Rightarrow> real \<Rightarrow> message \<Rightarrow> client \<Rightarrow> 'a net_state_scheme \<Rightarrow> client \<times> 'a net_state_scheme" where
  "accept_handshake E now m cl S =
     (case str_field ''node_id'' [] m of
        Inl e \<Rightarrow> client_finish cl S
      | Inr nid \<Rightarrow>
          let cl' = cl\<lparr>cl_peer_id := nid\<rparr>
          in case handshake_peer now nid (cl_ip cl) 0 m of
               Inl e \<Rightarrow> client_finish cl' S
             | Inr p \<Rightarrow>
                 let (r, S') = conn_send (ne_codec E) (cl_conn cl) (handshake_fields ''HANDSHAKE_ACK'' S)
                                 (register_conn now nid (cl_conn cl) p S)
                 in case r of
                      Inl e \<Rightarrow> client_finish cl' S'
                    | Inr _ \<Rightarrow> (cl'\<lparr>cl_phase := InLoop\<rparr>, S'))"

definition client_step ::
    "net_env \<Rightarrow> 'a msg_handler \<Rightarrow> real \<Rightarrow> message option \<Rightarrow> client \<Rightarrow> 'a net_state_scheme \<Rightarrow>
     client \<times> 'a net_state_scheme" where
  "client_step E handler now received cl S =
     (case (cl_phase cl, received) of
        (Finished, _) \<Rightarrow> (cl, S)
      | (_, None) \<Rightarrow> client_finish cl S
      | (AwaitAuth, Some m) \<Rightarrow>
          if auth_valid E m then (cl\<lparr>cl_phase := AwaitHandshake\<rparr>, S) else client_finish cl S
      | (AwaitHandshake, Some m) \<Rightarrow>
          if has_type ''HANDSHAKE'' m then accept_handshake E now m cl S else client_finish cl S
      | (InLoop, Some m) \<Rightarrow>
          let (r, S') = handler (cl_conn cl) m S
          in case r of Inr _ \<Rightarrow> (cl, S') | Inl e \<Rightarrow> client_finish cl S')"

text \<open>
  A run of messages on one connection, and \<^verbatim>\<open>_handle_client\<close> on the bytes of a whole connection,
  when no other task runs in between.
\<close>

fun client_feed ::
    "net_env \<Rightarrow> 'a msg_handler \<Rightarrow> real \<Rightarrow> message list \<Rightarrow> client \<Rightarrow> 'a net_state_scheme \<Rightarrow>
     client \<times> 'a net_state_scheme" where
  "client_feed E handler now [] cl S = (cl, S)"
| "client_feed E handler now (m # ms) cl S =
     (let (cl', S') = client_step E handler now (Some m) cl S in client_feed E handler now ms cl' S')"

definition handle_client ::
    "net_env \<Rightarrow> 'a msg_handler \<Rightarrow> real \<Rightarrow> nat \<Rightarrow> string \<Rightarrow> bytes \<Rightarrow> 'a net_state_scheme \<Rightarrow> 'a net_state_scheme" where
  "handle_client E handler now h ip stream S =
     (let (cl, S') = client_feed E handler now (message_loop (ne_codec E) stream) (new_client h ip) S
      in snd (client_step E handler now None cl S'))"

text \<open>
  \<^verbatim>\<open>connect_to_peer\<close>: \<open>dialled\<close> is the connection the system opened and the first message that
  comes back on it, \<open>None\<close> when the peer refuses. A lost connection (an \<^verbatim>\<open>OSError\<close>) gives
  \<^verbatim>\<open>None\<close>; any other exception goes to the caller.
\<close>

definition connect_to_peer ::
    "net_env \<Rightarrow> real \<Rightarrow> (nat \<times> message option) option \<Rightarrow> string \<Rightarrow> int \<Rightarrow> 'a net_state_scheme \<Rightarrow>
     nat option res \<times> 'a net_state_scheme" where
  "connect_to_peer E now dialled ip port S =
     (case dialled of
        None \<Rightarrow> (Inr None, S)
      | Some (h, reply) \<Rightarrow>
          let caught = (\<lambda>e. if e = OSError then Inr None else Inl e);
              (r1, S1) = conn_send (ne_codec E) h
                 (auth_handshake_msg (ne_hmac E) (ns_node_id (nt_node S)) (ne_swarm_key E)) S
          in case r1 of
               Inl e \<Rightarrow> (caught e, S1)
             | Inr _ \<Rightarrow>
                 let (r2, S2) = conn_send (ne_codec E) h (handshake_fields ''HANDSHAKE'' S1) S1
                 in case r2 of
                      Inl e \<Rightarrow> (caught e, S2)
                    | Inr _ \<Rightarrow>
                        (case reply of
                           None \<Rightarrow> (Inr None, conn_close h S2)
                         | Some ack \<Rightarrow>
                             if \<not> has_type ''HANDSHAKE_ACK'' ack then (Inr None, conn_close h S2)
                             else
                               (case str_field ''node_id'' [] ack of
                                  Inl e \<Rightarrow> (Inl e, S2)
                                | Inr nid \<Rightarrow>
                                    (case handshake_peer now nid ip port ack of
                                       Inl e \<Rightarrow> (Inl e, S2)
                                     | Inr p \<Rightarrow> (Inr (Some h), register_conn now nid h p S2)))))"

subsection \<open>Sending changes nothing but the bytes written\<close>

lemma conn_send_frame:
  "conn_send C h m S = (r, S') \<Longrightarrow> nt_connections S' = nt_connections S \<and> nt_node S' = nt_node S \<and>
     nt_open S' = nt_open S \<and> nt_api_port S' = nt_api_port S \<and> (\<forall>g. g \<noteq> h \<longrightarrow> nt_written S' g = nt_written S g)"
  by (auto simp: conn_send_def split: sum.splits if_splits)

lemma conn_send_ok:
  "nt_open S h \<Longrightarrow> send_frame C m = Inr f \<Longrightarrow>
   conn_send C h m S = (Inr (), S\<lparr>nt_written := (nt_written S)(h := nt_written S h @ f)\<rparr>)"
  by (simp add: conn_send_def)

lemma client_finish_simps [simp]:
  "cl_phase (fst (client_finish cl S)) = Finished"
  "nt_node (snd (client_finish cl S)) = nt_node S"
  "nt_written (snd (client_finish cl S)) = nt_written S"
  "nt_connections (snd (client_finish cl S)) = dict_del (cl_peer_id cl) (nt_connections S)"
  by (simp_all add: client_finish_def conn_close_def)

lemma client_step_finished [simp]: "cl_phase cl = Finished \<Longrightarrow> client_step E H now r cl S = (cl, S)"
  by (simp add: client_step_def)

lemma client_feed_finished: "cl_phase cl = Finished \<Longrightarrow> client_feed E H now ms cl S = (cl, S)"
  by (induction ms) simp_all

subsection \<open>Authentication\<close>

text \<open>
  C21. A connection that does not start with an AUTH message signed with the swarm key has no effect:
  no peer is added, no message handled and no byte sent. Only an entry under the empty
  identifier, if there is one, is dropped when it ends.
\<close>

theorem unauthenticated_client_harmless:
  assumes "\<forall>m ms. message_loop (ne_codec E) stream = m # ms \<longrightarrow> \<not> auth_valid E m"
  shows "let S' = handle_client E H now h ip stream S in
     nt_node S' = nt_node S \<and> nt_written S' = nt_written S \<and> nt_connections S' = dict_del [] (nt_connections S)"
proof (cases "message_loop (ne_codec E) stream")
  case Nil
  then show ?thesis by (simp add: handle_client_def new_client_def client_step_def)
next
  case (Cons m ms)
  then have "\<not> auth_valid E m" using assms by blast
  then have step: "client_step E H now (Some m) (new_client h ip) S = client_finish (new_client h ip) S"
    by (simp add: new_client_def client_step_def)
  obtain cl S' where fin: "client_finish (new_client h ip) S = (cl, S')" by fastforce
  then have "cl_phase cl = Finished" "nt_node S' = nt_node S" "nt_written S' = nt_written S"
      "nt_connections S' = dict_del [] (nt_connections S)"
    using client_finish_simps [of "new_client h ip" S] by (simp_all add: new_client_def)
  with fin step Cons show ?thesis
    by (simp add: handle_client_def client_feed_finished)
qed

subsection \<open>Two nodes\<close>

definition peer_of_handshake :: "real \<Rightarrow> string \<Rightarrow> 'a net_state_scheme \<Rightarrow> peer_info" where
  "peer_of_handshake now ip A =
     \<lparr>pi_node_id = ns_node_id (nt_node A), pi_ip = ip, pi_tcp_port = ns_tcp_port (nt_node A),
      pi_name = ns_name (nt_node A), pi_last_seen = now, pi_free_space = 0, pi_uptime = 0, pi_latency = 0,
      pi_health_score = 0, pi_api_port = nt_api_port A\<rparr>"

lemma handshake_message [simp]:
  "has_type t (handshake_fields t' A) \<longleftrightarrow> t' = t"
  "str_field ''node_id'' d (handshake_fields t' A) = Inr (ns_node_id (nt_node A))"
  "handshake_peer now (ns_node_id (nt_node A)) ip port (handshake_fields t' A) = Inr (peer_of_handshake now ip A)"
  by (simp_all add: has_type_def handshake_fields_def handshake_peer_def str_field_def int_field_def
      peer_of_handshake_def)

lemma handshake_fields_cong:
  "nt_node S = nt_node A \<Longrightarrow> nt_api_port S = nt_api_port A \<Longrightarrow> handshake_fields t S = handshake_fields t A"
  by (simp add: handshake_fields_def)

lemma auth_message [simp]: "auth_valid E (auth_handshake_msg (ne_hmac E) nid (ne_swarm_key E))"
  by (simp add: auth_valid_def has_type_def auth_handshake_msg_def str_field_def)

lemma feed_handshake:
  assumes "send_frame (ne_codec E) (handshake_fields ''HANDSHAKE_ACK'' B) = Inr f" and "nt_open B g"
  shows "client_feed E H now [auth_handshake_msg (ne_hmac E) nid (ne_swarm_key E), handshake_fields ''HANDSHAKE'' A]
            (new_client g ip) B =
     (\<lparr>cl_conn = g, cl_ip = ip, cl_phase = InLoop, cl_peer_id = ns_node_id (nt_node A)\<rparr>,
      (register_conn now (ns_node_id (nt_node A)) g (peer_of_handshake now ip A) B)
        \<lparr>nt_written := (nt_written B)(g := nt_written B g @ f)\<rparr>)"
  using assms
  by (simp add: new_client_def client_step_def accept_handshake_def conn_send_def register_conn_def)

lemma connect_handshake:
  assumes "send_frame (ne_codec E) (auth_handshake_msg (ne_hmac E) (ns_node_id (nt_node A)) (ne_swarm_key E)) = Inr f1"
    and "send_frame (ne_codec E) (handshake_fields ''HANDSHAKE'' A) = Inr f2" and "nt_open A h"
  shows "connect_to_peer E now (Some (h, Some (handshake_fields ''HANDSHAKE_ACK'' B))) ip port A =
     (Inr (Some h),
      (register_conn now (ns_node_id (nt_node B)) h (peer_of_handshake now ip B) A)
        \<lparr>nt_written := (nt_written A)(h := nt_written A h @ f1 @ f2)\<rparr>)"
proof -
  let ?A1 = "A\<lparr>nt_written := (nt_written A)(h := nt_written A h @ f1)\<rparr>"
  have "handshake_fields ''HANDSHAKE'' ?A1 = handshake_fields ''HANDSHAKE'' A"
    by (rule handshake_fields_cong) simp_all
  then show ?thesis
    using assms by (simp add: connect_to_peer_def conn_send_def register_conn_def)
qed

lemma add_peer_knows:
  "\<exists>p'. dict_get (ns_peers (add_peer now p st)) (pi_node_id p) = Some p' \<and>
     pi_ip p' = pi_ip p \<and> pi_tcp_port p' = pi_tcp_port p \<and> pi_last_seen p' = now"
  by (auto simp: add_peer_def Let_def merge_peer_def split: option.splits)

text \<open>Both ends of a handshake.\<close>

lemma handshake_both_sides:
  assumes "codec_ok (ne_codec E)" and "nt_open A h" and "nt_open B g" and "nt_written A h = []" and "nt_written B g = []"
    and "fits (ne_codec E) (auth_handshake_msg (ne_hmac E) (ns_node_id (nt_node A)) (ne_swarm_key E))"
    and "fits (ne_codec E) (handshake_fields ''HANDSHAKE'' A)"
    and "fits (ne_codec E) (handshake_fields ''HANDSHAKE_ACK'' B)"
  shows "\<exists>A' B' cl ack.
     connect_to_peer E now (Some (h, Some ack)) ipB port A = (Inr (Some h), A') \<and>
     client_feed E H now (message_loop (ne_codec E) (nt_written A' h)) (new_client g ipA) B = (cl, B') \<and>
     message_loop (ne_codec E) (nt_written B' g) = [ack] \<and> cl_phase cl = InLoop \<and>
     dict_get (nt_connections A') (ns_node_id (nt_node B)) = Some h \<and>
     dict_get (nt_connections B') (ns_node_id (nt_node A)) = Some g \<and>
     (\<exists>p. dict_get (ns_peers (nt_node A')) (ns_node_id (nt_node B)) = Some p \<and>
        pi_ip p = ipB \<and> pi_tcp_port p = ns_tcp_port (nt_node B)) \<and>
     (\<exists>p. dict_get (ns_peers (nt_node B')) (ns_node_id (nt_node A)) = Some p \<and>
        pi_ip p = ipA \<and> pi_tcp_port p = ns_tcp_port (nt_node A))"
proof -
  let ?C = "ne_codec E"
  obtain f1 where f1: "send_frame ?C (auth_handshake_msg (ne_hmac E) (ns_node_id (nt_node A)) (ne_swarm_key E)) = Inr f1"
    using fits_frame [OF assms(6)] by (elim exE)
  obtain f2 where f2: "send_frame ?C (handshake_fields ''HANDSHAKE'' A) = Inr f2"
    using fits_frame [OF assms(7)] by (elim exE)
  obtain f3 where f3: "send_frame ?C (handshake_fields ''HANDSHAKE_ACK'' B) = Inr f3"
    using fits_frame [OF assms(8)] by (elim exE)
  note loop = message_loop_sent [OF assms(1,6) f1] message_loop_sent [OF assms(1,7) f2, of "[]", simplified]
    message_loop_sent [OF assms(1,8) f3, of "[]", simplified]
  define A' where "A' = (register_conn now (ns_node_id (nt_node B)) h (peer_of_handshake now ipB B) A)
      \<lparr>nt_written := (nt_written A)(h := nt_written A h @ f1 @ f2)\<rparr>"
  define B' where "B' = (register_conn now (ns_node_id (nt_node A)) g (peer_of_handshake now ipA A) B)
      \<lparr>nt_written := (nt_written B)(g := nt_written B g @ f3)\<rparr>"
  define cl where "cl = \<lparr>cl_conn = g, cl_ip = ipA, cl_phase = InLoop, cl_peer_id = ns_node_id (nt_node A)\<rparr>"
  have written: "nt_written A' h = f1 @ f2" "nt_written B' g = f3"
    by (simp_all add: A'_def B'_def assms(4,5))
  have conns: "dict_get (nt_connections A') (ns_node_id (nt_node B)) = Some h"
    "dict_get (nt_connections B') (ns_node_id (nt_node A)) = Some g"
    by (simp_all add: A'_def B'_def register_conn_def)
  have nodes: "nt_node A' = add_peer now (peer_of_handshake now ipB B) (nt_node A)"
    "nt_node B' = add_peer now (peer_of_handshake now ipA A) (nt_node B)"
    by (simp_all add: A'_def B'_def register_conn_def)
  have peers: "\<exists>p. dict_get (ns_peers (nt_node A')) (ns_node_id (nt_node B)) = Some p \<and>
        pi_ip p = ipB \<and> pi_tcp_port p = ns_tcp_port (nt_node B)"
    "\<exists>p. dict_get (ns_peers (nt_node B')) (ns_node_id (nt_node A)) = Some p \<and>
        pi_ip p = ipA \<and> pi_tcp_port p = ns_tcp_port (nt_node A)"
    using add_peer_knows [of now "peer_of_handshake now ipB B" "nt_node A"]
      add_peer_knows [of now "peer_of_handshake now ipA A" "nt_node B"]
    unfolding nodes by (auto simp: peer_of_handshake_def)
  have fed: "client_feed E H now (message_loop ?C (nt_written A' h)) (new_client g ipA) B = (cl, B')"
    unfolding written loop cl_def B'_def by (rule feed_handshake [OF f3 assms(3)])
  have connected: "connect_to_peer E now (Some (h, Some (handshake_fields ''HANDSHAKE_ACK'' B))) ipB port A = (Inr (Some h), A')"
    unfolding A'_def by (rule connect_handshake [OF f1 f2 assms(2)])
  have ack: "message_loop ?C (nt_written B' g) = [handshake_fields ''HANDSHAKE_ACK'' B]"
    unfolding written by (rule loop(3))
  have phase: "cl_phase cl = InLoop" by (simp add: cl_def)
  show ?thesis
    by (rule exI [of _ A'], rule exI [of _ B'], rule exI [of _ cl],
        rule exI [of _ "handshake_fields ''HANDSHAKE_ACK'' B"])
      (intro conjI fed connected ack phase conns peers)
qed

text \<open>
  Two nodes with one swarm key: when \<open>A\<close> connects to \<open>B\<close>, the bytes it writes make \<open>B\<close>'s
  handler authenticate it, register it under its identifier with its address, and answer; the
  answer makes \<open>A\<close> register \<open>B\<close> in the same way.
\<close>

theorem handshake_completes:
  assumes "codec_ok (ne_codec E)" and "nt_open A h" and "nt_open B g" and "nt_written A h = []" and "nt_written B g = []"
    and "fits (ne_codec E) (auth_handshake_msg (ne_hmac E) (ns_node_id (nt_node A)) (ne_swarm_key E))"
    and "fits (ne_codec E) (handshake_fields ''HANDSHAKE'' A)"
    and "fits (ne_codec E) (handshake_fields ''HANDSHAKE_ACK'' B)"
  shows "\<exists>A' B' cl ack.
     connect_to_peer E now (Some (h, Some ack)) ipB port A = (Inr (Some h), A') \<and>
     client_feed E H now (message_loop (ne_codec E) (nt_written A' h)) (new_client g ipA) B = (cl, B') \<and>
     message_loop (ne_codec E) (nt_written B' g) = [ack] \<and> cl_phase cl = InLoop \<and>
     dict_get (nt_connections A') (ns_node_id (nt_node B)) = Some h \<and>
     dict_get (nt_connections B') (ns_node_id (nt_node A)) = Some g \<and>
     (\<exists>p. dict_get (ns_peers (nt_node A')) (ns_node_id (nt_node B)) = Some p \<and>
        pi_ip p = ipB \<and> pi_tcp_port p = ns_tcp_port (nt_node B)) \<and>
     (\<exists>p. dict_get (ns_peers (nt_node B')) (ns_node_id (nt_node A)) = Some p \<and>
        pi_ip p = ipA \<and> pi_tcp_port p = ns_tcp_port (nt_node A))"
  by (rule handshake_both_sides [OF assms])

text \<open>Two concrete nodes with one key, for the witnesses.\<close>

definition fresh_net :: "string \<Rightarrow> net_state" where
  "fresh_net nid =
     \<lparr>nt_node = new_node_state 0 nid nid, nt_api_port = 8888, nt_connections = [], nt_written = (\<lambda>_. []),
      nt_open = (\<lambda>_. True)\<rparr>"

definition two_node_env :: net_env where
  "two_node_env =
     \<lparr>ne_codec = table_codec
        [auth_handshake_msg (\<lambda>k d. hex_of (k @ d)) ''aa'' ''k'', handshake_fields ''HANDSHAKE'' (fresh_net ''aa''),
         handshake_fields ''HANDSHAKE_ACK'' (fresh_net ''bb''), ping_msg 0 ''bb''],
      ne_hmac = (\<lambda>k d. hex_of (k @ d)), ne_swarm_key = ''k''\<rparr>"

lemma two_node_env_ok: "codec_ok (ne_codec two_node_env)"
  by (simp add: two_node_env_def table_codec_ok)

lemma two_node_fits:
  "fits (ne_codec two_node_env) (auth_handshake_msg (ne_hmac two_node_env) ''aa'' (ne_swarm_key two_node_env))"
  "fits (ne_codec two_node_env) (handshake_fields ''HANDSHAKE'' (fresh_net ''aa''))"
  "fits (ne_codec two_node_env) (handshake_fields ''HANDSHAKE_ACK'' (fresh_net ''bb''))"
  "fits (ne_codec two_node_env) (ping_msg 0 ''bb'')"
proof -
  let ?ms = "[auth_handshake_msg (\<lambda>k d. hex_of (k @ d)) ''aa'' ''k'', handshake_fields ''HANDSHAKE'' (fresh_net ''aa''),
         handshake_fields ''HANDSHAKE_ACK'' (fresh_net ''bb''), ping_msg 0 ''bb'']"
  show "fits (ne_codec two_node_env) (auth_handshake_msg (ne_hmac two_node_env) ''aa'' (ne_swarm_key two_node_env))"
    "fits (ne_codec two_node_env) (handshake_fields ''HANDSHAKE'' (fresh_net ''aa''))"
    "fits (ne_codec two_node_env) (handshake_fields ''HANDSHAKE_ACK'' (fresh_net ''bb''))"
    "fits (ne_codec two_node_env) (ping_msg 0 ''bb'')"
    using table_codec_fits [of 0 ?ms] table_codec_fits [of 1 ?ms] table_codec_fits [of 2 ?ms] table_codec_fits [of 3 ?ms]
    by (simp_all add: two_node_env_def numeral_2_eq_2 numeral_3_eq_3)
qed

lemma fresh_net_simps [simp]:
  "nt_open (fresh_net nid) = (\<lambda>_. True)" "nt_written (fresh_net nid) = (\<lambda>_. [])"
  "ns_node_id (nt_node (fresh_net nid)) = nid" "ns_tcp_port (nt_node (fresh_net nid)) = 0"
  "nt_connections (fresh_net nid) = []"
  by (simp_all add: fresh_net_def new_node_state_def)

theorem unauthenticated_client_harmless_witness:
  "\<exists>f. message_loop (ne_codec two_node_env) f = [ping_msg 0 ''bb''] \<and>
     nt_connections (handle_client two_node_env default_handler 0 0 ''10.0.0.9'' f (fresh_net ''bb'')) = []"
proof -
  obtain f where f: "send_frame (ne_codec two_node_env) (ping_msg 0 ''bb'') = Inr f"
    using fits_frame [OF two_node_fits(4)] by (elim exE)
  have loop: "message_loop (ne_codec two_node_env) f = [ping_msg 0 ''bb'']"
    using message_loop_sent [OF two_node_env_ok two_node_fits(4) f, of "[]"] by simp
  have "\<not> auth_valid two_node_env (ping_msg 0 ''bb'')"
    by (simp add: auth_valid_def has_type_def ping_msg_def build_message_def MSG_PING_def)
  then show ?thesis
    using unauthenticated_client_harmless [of two_node_env f default_handler 0 0 "''10.0.0.9''" "fresh_net ''bb''"] loop
    by (auto simp: Let_def)
qed

theorem handshake_completes_witness:
  "\<exists>A' ack. connect_to_peer two_node_env 1 (Some (0, Some ack)) ''10.0.0.2'' 50001 (fresh_net ''aa'') = (Inr (Some 0), A') \<and>
     dict_get (nt_connections A') ''bb'' = Some 0"
proof -
  have "\<exists>A' B' cl ack.
     connect_to_peer two_node_env 1 (Some (0, Some ack)) ''10.0.0.2'' 50001 (fresh_net ''aa'') = (Inr (Some 0), A') \<and>
     client_feed two_node_env default_handler 1 (message_loop (ne_codec two_node_env) (nt_written A' 0)) (new_client 0 ''10.0.0.1'') (fresh_net ''bb'') = (cl, B') \<and>
     message_loop (ne_codec two_node_env) (nt_written B' 0) = [ack] \<and> cl_phase cl = InLoop \<and>
     dict_get (nt_connections A') (ns_node_id (nt_node (fresh_net ''bb''))) = Some 0 \<and>
     dict_get (nt_connections B') (ns_node_id (nt_node (fresh_net ''aa''))) = Some 0 \<and>
     (\<exists>p. dict_get (ns_peers (nt_node A')) (ns_node_id (nt_node (fresh_net ''bb''))) = Some p \<and>
        pi_ip p = ''10.0.0.2'' \<and> pi_tcp_port p = ns_tcp_port (nt_node (fresh_net ''bb''))) \<and>
     (\<exists>p. dict_get (ns_peers (nt_node B')) (ns_node_id (nt_node (fresh_net ''aa''))) = Some p \<and>
        pi_ip p = ''10.0.0.1'' \<and> pi_tcp_port p = ns_tcp_port (nt_node (fresh_net ''aa'')))"
    by (rule handshake_completes [OF two_node_env_ok]) (simp_all add: two_node_fits)
  then show ?thesis unfolding fresh_net_simps by blast
qed

lemma send_to_peer_ok:
  "dict_get (nt_connections S) nid = Some h \<Longrightarrow> nt_open S h \<Longrightarrow> fits C m \<Longrightarrow> fst (send_to_peer C nid m S)"
  by (auto simp: send_to_peer_def conn_send_ok dest!: fits_frame)

lemma send_to_peer_unknown: "dict_get (nt_connections S) nid = None \<Longrightarrow> send_to_peer C nid m S = (False, S)"
  by (simp add: send_to_peer_def)

lemma client_step_loop_end: "cl_phase cl = InLoop \<Longrightarrow> client_step E H now None cl S = client_finish cl S"
  by (simp add: client_step_def)

text \<open>
  C37. The identifier of the HANDSHAKE is not bound to the one that was authenticated. Whoever holds
  the signature of any identifier takes over the entry of any peer: what the node then sends
  to that peer goes to the new connection. And when the handler of the peer's own older connection
  ends, it removes the entry of the newer one, which then cannot be sent to although it is
  open and its handler is running.
\<close>

theorem handshake_identity_unbound:
  assumes "nt_open S g" and "fits (ne_codec E) (handshake_fields ''HANDSHAKE_ACK'' S)"
    and "cl_phase old = InLoop" and "cl_peer_id old = ns_node_id (nt_node A)" and "cl_conn old \<noteq> g"
  shows "let (cl, S1) = client_feed E H now
             [auth_handshake_msg (ne_hmac E) nid (ne_swarm_key E), handshake_fields ''HANDSHAKE'' A] (new_client g ip) S;
           S2 = snd (client_step E H now None old S1)
     in cl_phase cl = InLoop \<and> dict_get (nt_connections S1) (ns_node_id (nt_node A)) = Some g \<and>
        (\<forall>m. fits (ne_codec E) m \<longrightarrow> fst (send_to_peer (ne_codec E) (ns_node_id (nt_node A)) m S1)) \<and>
        (\<forall>m. \<not> fst (send_to_peer (ne_codec E) (ns_node_id (nt_node A)) m S2)) \<and> nt_open S2 g"
proof -
  obtain f where f: "send_frame (ne_codec E) (handshake_fields ''HANDSHAKE_ACK'' S) = Inr f"
    using fits_frame [OF assms(2)] by (elim exE)
  show ?thesis
    unfolding feed_handshake [OF f assms(1)]
    using assms(1,3-5) by (simp add: client_step_loop_end register_conn_def send_to_peer_ok send_to_peer_unknown
        client_finish_def conn_close_def)
qed

theorem handshake_identity_unbound_witness:
  "\<exists>cl S1 S2. client_feed two_node_env default_handler 0
       [auth_handshake_msg (ne_hmac two_node_env) ''zz'' (ne_swarm_key two_node_env), handshake_fields ''HANDSHAKE'' (fresh_net ''aa'')]
       (new_client 1 ''10.0.0.9'') (fresh_net ''bb'') = (cl, S1) \<and>
     snd (client_step two_node_env default_handler 0 None
       \<lparr>cl_conn = 0, cl_ip = ''10.0.0.1'', cl_phase = InLoop, cl_peer_id = ''aa''\<rparr> S1) = S2 \<and>
     dict_get (nt_connections (S1 :: net_state)) ''aa'' = Some 1 \<and>
     fst (send_to_peer (ne_codec two_node_env) ''aa'' (ping_msg 0 ''bb'') S1) \<and>
     \<not> fst (send_to_peer (ne_codec two_node_env) ''aa'' (ping_msg 0 ''bb'') S2) \<and> nt_open S2 1"
proof -
  let ?old = "\<lparr>cl_conn = 0, cl_ip = ''10.0.0.1'', cl_phase = InLoop, cl_peer_id = ''aa''\<rparr>"
  let ?run = "client_feed two_node_env default_handler 0
       [auth_handshake_msg (ne_hmac two_node_env) ''zz'' (ne_swarm_key two_node_env), handshake_fields ''HANDSHAKE'' (fresh_net ''aa'')]
       (new_client 1 ''10.0.0.9'') (fresh_net ''bb'')"
  have "let (cl, S1) = ?run; S2 = snd (client_step two_node_env default_handler 0 None ?old S1)
     in cl_phase cl = InLoop \<and> dict_get (nt_connections S1) (ns_node_id (nt_node (fresh_net ''aa''))) = Some 1 \<and>
        (\<forall>m. fits (ne_codec two_node_env) m \<longrightarrow>
           fst (send_to_peer (ne_codec two_node_env) (ns_node_id (nt_node (fresh_net ''aa''))) m S1)) \<and>
        (\<forall>m. \<not> fst (send_to_peer (ne_codec two_node_env) (ns_node_id (nt_node (fresh_net ''aa''))) m S2)) \<and> nt_open S2 1"
    by (rule handshake_identity_unbound) (simp_all add: two_node_fits)
  then show ?thesis
    using two_node_fits(4) by (cases ?run) (auto simp: Let_def)
qed

end
