(* ===== verification/Chat.thy ===== *)
theory Chat
  imports Network Steps
begin

section \<open>The swarm chat and the node's tasks (backend/api/routes.py, backend/node/node.py)\<close>

text \<open>
  The bridge between the browser's web sockets and the TCP peers, the handler of TCP messages, and
  the steps of a running node. A web socket is a number. \<^verbatim>\<open>_seen_chat_ids\<close> is a Python set,
  kept here as a list without repetition; \<^verbatim>\<open>set.pop()\<close> removes an arbitrary element, the one the
  parameter \<open>pick\<close> names.
\<close>

record chat_payload =
  cp_msg_id :: string
  cp_sender_id :: string
  cp_sender_name :: string
  cp_text :: string
  cp_timestamp :: real
  cp_source :: string

record chat_state = net_state +
  ch_active :: "nat list"
  ch_shown :: "nat \<Rightarrow> chat_payload list"
  ch_ws_ok :: "nat \<Rightarrow> bool"
  ch_seen :: "string list"

definition MAX_SEEN :: nat where "MAX_SEEN = 500"

subsection \<open>\<^verbatim>\<open>ChatManager\<close>\<close>

definition chat_connect :: "nat \<Rightarrow> 'a chat_state_scheme \<Rightarrow> 'a chat_state_scheme" where
  "chat_connect ws S = S\<lparr>ch_active := ch_active S @ [ws]\<rparr>"

text \<open>\<^verbatim>\<open>list.remove\<close> raises \<^verbatim>\<open>ValueError\<close> when there is nothing to remove.\<close>

definition chat_disconnect :: "nat \<Rightarrow> 'a chat_state_scheme \<Rightarrow> unit res \<times> 'a chat_state_scheme" where
  "chat_disconnect ws S =
     (if ws \<in> set (ch_active S) then (Inr (), S\<lparr>ch_active := remove1 ws (ch_active S)\<rparr>)
      else (Inl (ValueError NotInList), S))"

fun ws_send_loop :: "chat_payload \<Rightarrow> nat list \<Rightarrow> nat list \<Rightarrow> 'a chat_state_scheme \<Rightarrow> nat list \<times> 'a chat_state_scheme" where
  "ws_send_loop p [] dead S = (dead, S)"
| "ws_send_loop p (ws # rest) dead S =
     (if ch_ws_ok S ws
      then ws_send_loop p rest dead (S\<lparr>ch_shown := (ch_shown S)(ws := ch_shown S ws @ [p])\<rparr>)
      else ws_send_loop p rest (dead @ [ws]) S)"

definition chat_broadcast :: "chat_payload \<Rightarrow> 'a chat_state_scheme \<Rightarrow> 'a chat_state_scheme" where
  "chat_broadcast p S =
     (let (dead, S') = ws_send_loop p (ch_active S) [] S
      in S'\<lparr>ch_active := fold remove1 dead (ch_active S')\<rparr>)"

subsection \<open>Messages\<close>

definition remember :: "(string list \<Rightarrow> string) \<Rightarrow> string \<Rightarrow> string list \<Rightarrow> string list" where
  "remember pick i seen =
     (let s = (if i \<in> set seen then seen else i # seen)
      in if length s > MAX_SEEN then remove1 (pick s) s else s)"

definition real_field :: "string \<Rightarrow> real \<Rightarrow> message \<Rightarrow> real res" where
  "real_field k d m =
     (case dict_get m k of None \<Rightarrow> Inr d | Some (VFloat x) \<Rightarrow> Inr x | Some _ \<Rightarrow> Inl TypeError)"

text \<open>One message from a browser. \<open>msg_id\<close> is the fresh \<^verbatim>\<open>uuid\<close>.\<close>

definition websocket_message ::
    "codec \<Rightarrow> (string list \<Rightarrow> string) \<Rightarrow> real \<Rightarrow> string \<Rightarrow> string option \<Rightarrow> 'a chat_state_scheme \<Rightarrow> 'a chat_state_scheme" where
  "websocket_message C pick now msg_id data S =
     (let txt = strip (get_or [] data)
      in if txt = [] then S
         else
           let nid = ns_node_id (nt_node S);
               name = ns_name (nt_node S);
               m = dict_set ''msg_id'' (VStr msg_id) (chat_msg now nid name txt);
               S1 = S\<lparr>ch_seen := remember pick msg_id (ch_seen S)\<rparr>;
               S2 = chat_broadcast \<lparr>cp_msg_id = msg_id, cp_sender_id = nid, cp_sender_name = name, cp_text = txt,
                      cp_timestamp = now, cp_source = ''local''\<rparr> S1
           in snd (broadcast_to_peers C m S2))"

text \<open>A chat message from a peer: shown to the browsers and passed on to the peers, once.\<close>

definition handle_tcp_chat ::
    "codec \<Rightarrow> (string list \<Rightarrow> string) \<Rightarrow> real \<Rightarrow> message \<Rightarrow> 'a chat_state_scheme \<Rightarrow> unit res \<times> 'a chat_state_scheme" where
  "handle_tcp_chat C pick now m S =
     (case str_field ''msg_id'' [] m of
        Inl e \<Rightarrow> (Inl e, S)
      | Inr msg_id \<Rightarrow>
          if msg_id \<in> set (ch_seen S) then (Inr (), S)
          else
            let S1 = S\<lparr>ch_seen := remember pick msg_id (ch_seen S)\<rparr>;
                payload =
                  bindr (str_field ''sender_id'' [] m) (\<lambda>sid.
                  bindr (str_field ''sender_name'' ''unknown'' m) (\<lambda>name.
                  bindr (str_field ''text'' [] m) (\<lambda>txt.
                  bindr (real_field ''timestamp'' now m) (\<lambda>ts.
                  Inr \<lparr>cp_msg_id = msg_id, cp_sender_id = sid, cp_sender_name = name, cp_text = txt,
                       cp_timestamp = ts, cp_source = ''peer''\<rparr>))))
            in case payload of
                 Inl e \<Rightarrow> (Inl e, S1)
               | Inr p \<Rightarrow> (Inr (), snd (broadcast_to_peers C m (chat_broadcast p S1))))"

text \<open>\<^verbatim>\<open>DistriNode._handle_message\<close>: every message but a chat message is only logged.\<close>

definition node_handler :: "codec \<Rightarrow> (string list \<Rightarrow> string) \<Rightarrow> real \<Rightarrow> 'a chat_state_ext msg_handler" where
  "node_handler C pick now h m S =
     (if has_type MSG_CHAT m then handle_tcp_chat C pick now m S else (Inr (), S))"

subsection \<open>A running node\<close>

text \<open>The handlers of the inbound connections, and the number of the next connection.\<close>

record node_net = chat_state +
  nn_clients :: "nat \<Rightarrow> client option"
  nn_next :: nat

text \<open>\<open>dial ip port\<close> is the first message that comes back, \<open>None\<close> when the peer refuses.\<close>

definition dial_peer ::
    "net_env \<Rightarrow> (string \<Rightarrow> int \<Rightarrow> message option option) \<Rightarrow> real \<Rightarrow> string \<Rightarrow> int \<Rightarrow> 'a node_net_scheme \<Rightarrow>
     nat option res \<times> 'a node_net_scheme" where
  "dial_peer E dial now ip port S =
     (case dial ip port of
        None \<Rightarrow> connect_to_peer E now None ip port S
      | Some reply \<Rightarrow>
          connect_to_peer E now (Some (nn_next S, reply)) ip port
            (S\<lparr>nn_next := Suc (nn_next S), nt_open := (nt_open S)(nn_next S := True)\<rparr>))"

text \<open>One round of \<^verbatim>\<open>_peer_connector_loop\<close>; an exception ends the task.\<close>

fun connector_loop ::
    "net_env \<Rightarrow> (string \<Rightarrow> int \<Rightarrow> message option option) \<Rightarrow> real \<Rightarrow> (string \<times> peer_info) list \<Rightarrow>
     'a node_net_scheme \<Rightarrow> unit res \<times> 'a node_net_scheme" where
  "connector_loop E dial now [] S = (Inr (), S)"
| "connector_loop E dial now ((nid, p) # rest) S =
     (if dict_get (nt_connections S) nid \<noteq> None then connector_loop E dial now rest S
      else
        let (r, S') = dial_peer E dial now (pi_ip p) (pi_tcp_port p) S
        in case r of Inl e \<Rightarrow> (Inl e, S') | Inr _ \<Rightarrow> connector_loop E dial now rest S')"

definition connector_round ::
    "net_env \<Rightarrow> (string \<Rightarrow> int \<Rightarrow> message option option) \<Rightarrow> real \<Rightarrow> real \<Rightarrow> 'a node_net_scheme \<Rightarrow>
     unit res \<times> 'a node_net_scheme" where
  "connector_round E dial peer_timeout now S =
     connector_loop E dial now (get_alive_peers now peer_timeout (nt_node S)) S"

inductive net_step :: "net_env \<Rightarrow> (string list \<Rightarrow> string) \<Rightarrow> node_net \<Rightarrow> node_net \<Rightarrow> bool"
  for E :: net_env and pick :: "string list \<Rightarrow> string" where
  accepts: "net_step E pick S
     (S\<lparr>nn_clients := (nn_clients S)(nn_next S \<mapsto> new_client (nn_next S) ip), nn_next := Suc (nn_next S),
        nt_open := (nt_open S)(nn_next S := True)\<rparr>)"
| receives: "nn_clients S h = Some cl \<Longrightarrow>
     client_step E (node_handler (ne_codec E) pick now) now received cl S = (cl', S') \<Longrightarrow>
     net_step E pick S (S'\<lparr>nn_clients := (nn_clients S')(h \<mapsto> cl')\<rparr>)"
| dials: "dial_peer E dial now ip port S = (r, S') \<Longrightarrow> net_step E pick S S'"
| is_lost: "net_step E pick S (S\<lparr>nt_open := (nt_open S)(h := False)\<rparr>)"
| ws_opens: "net_step E pick S (chat_connect ws S)"
| ws_closes: "net_step E pick S (snd (chat_disconnect ws S))"
| ws_fails: "net_step E pick S (S\<lparr>ch_ws_ok := (ch_ws_ok S)(ws := ok)\<rparr>)"
| ws_talks: "net_step E pick S (websocket_message (ne_codec E) pick now msg_id data S)"

inductive_cases net_stepE: "net_step E pick S S'"

definition net_started :: "node_net \<Rightarrow> bool" where
  "net_started S \<longleftrightarrow> nt_connections S = [] \<and> nn_clients S = (\<lambda>_. None) \<and> ch_seen S = []"

definition net_reachable :: "net_env \<Rightarrow> (string list \<Rightarrow> string) \<Rightarrow> node_net \<Rightarrow> bool" where
  "net_reachable E pick S \<longleftrightarrow> (\<exists>S0. net_started S0 \<and> (net_step E pick)\<^sup>*\<^sup>* S0 S)"

subsection \<open>What the operations leave alone\<close>

lemma written_self: "\<exists>w. S = S\<lparr>nt_written := w\<rparr>"
  by (rule exI [of _ "nt_written S"]) simp

lemma conn_send_written: "\<exists>w. snd (conn_send C h m S) = S\<lparr>nt_written := w\<rparr>"
  by (auto simp: conn_send_def written_self split: sum.split)

lemma send_to_peer_written: "\<exists>w. snd (send_to_peer C nid m S) = S\<lparr>nt_written := w\<rparr>"
proof (cases "dict_get (nt_connections S) nid")
  case None
  then show ?thesis by (simp add: send_to_peer_def written_self)
next
  case (Some h)
  then show ?thesis
    using conn_send_written [of C h m S] by (auto simp: send_to_peer_def split: prod.split)
qed

lemma broadcast_loop_written: "\<exists>w. snd (broadcast_loop C m nids n S) = S\<lparr>nt_written := w\<rparr>"
proof (induction nids arbitrary: n S)
  case Nil
  then show ?case by (simp add: written_self)
next
  case (Cons nid nids)
  obtain ok S1 where s: "send_to_peer C nid m S = (ok, S1)" by fastforce
  obtain w where w: "S1 = S\<lparr>nt_written := w\<rparr>"
    using send_to_peer_written [of C nid m S] s by auto
  obtain w' where "snd (broadcast_loop C m nids (if ok then Suc n else n) S1) = S1\<lparr>nt_written := w'\<rparr>"
    using Cons.IH by blast
  then show ?case using s w by auto
qed

lemma broadcast_written: "\<exists>w. snd (broadcast_to_peers C m S) = S\<lparr>nt_written := w\<rparr>"
  unfolding broadcast_to_peers_def by (rule broadcast_loop_written)

lemma broadcast_frame [simp]:
  "nt_connections (snd (broadcast_to_peers C m S)) = nt_connections S"
  "nt_node (snd (broadcast_to_peers C m S)) = nt_node S"
  "nt_open (snd (broadcast_to_peers C m S)) = nt_open S"
  using broadcast_written [of C m S] by auto

lemma ws_send_loop_shown:
  "\<exists>s. snd (ws_send_loop p wss dead S) = S\<lparr>ch_shown := s\<rparr>"
proof (induction wss arbitrary: dead S)
  case Nil
  then show ?case by (auto intro: exI [of _ "ch_shown S"])
next
  case (Cons ws wss)
  obtain s where "snd (ws_send_loop p wss dead (S\<lparr>ch_shown := (ch_shown S)(ws := ch_shown S ws @ [p])\<rparr>)) =
      S\<lparr>ch_shown := (ch_shown S)(ws := ch_shown S ws @ [p])\<rparr>\<lparr>ch_shown := s\<rparr>"
    using Cons.IH by blast
  then show ?case using Cons.IH by auto
qed

lemma chat_broadcast_shown: "\<exists>s a. chat_broadcast p S = S\<lparr>ch_shown := s, ch_active := a\<rparr>"
proof -
  obtain dead S1 where r: "ws_send_loop p (ch_active S) [] S = (dead, S1)" by fastforce
  obtain s where "S1 = S\<lparr>ch_shown := s\<rparr>"
    using ws_send_loop_shown [of p "ch_active S" "[]" S] r by auto
  then show ?thesis using r by (auto simp: chat_broadcast_def)
qed

text \<open>Handling a chat message only writes, shows and remembers.\<close>

definition chat_effect :: "string list \<Rightarrow> 'a chat_state_scheme \<Rightarrow> 'a chat_state_scheme \<Rightarrow> bool" where
  "chat_effect seen S S' \<longleftrightarrow>
     (\<exists>w s a. S' = S\<lparr>nt_written := w, ch_shown := s, ch_active := a, ch_seen := seen\<rparr>)"

lemma chat_effect_refl [simp]: "chat_effect (ch_seen S) S S"
  unfolding chat_effect_def by (rule exI [of _ "nt_written S"], rule exI [of _ "ch_shown S"], rule exI [of _ "ch_active S"]) simp

lemma chat_effect_send:
  "chat_effect seen S (snd (broadcast_to_peers C m (chat_broadcast p (S\<lparr>ch_seen := seen\<rparr>))))"
proof -
  obtain s a where c: "chat_broadcast p (S\<lparr>ch_seen := seen\<rparr>) = S\<lparr>ch_seen := seen, ch_shown := s, ch_active := a\<rparr>"
    using chat_broadcast_shown [of p "S\<lparr>ch_seen := seen\<rparr>"] by auto
  obtain w where "snd (broadcast_to_peers C m (S\<lparr>ch_seen := seen, ch_shown := s, ch_active := a\<rparr>)) =
      S\<lparr>ch_seen := seen, ch_shown := s, ch_active := a\<rparr>\<lparr>nt_written := w\<rparr>"
    using broadcast_written by blast
  then show ?thesis unfolding c chat_effect_def by (intro exI [of _ w] exI [of _ s] exI [of _ a]) simp
qed

lemma chat_effect_seen: "chat_effect seen S (S\<lparr>ch_seen := seen\<rparr>)"
  unfolding chat_effect_def by (rule exI [of _ "nt_written S"], rule exI [of _ "ch_shown S"], rule exI [of _ "ch_active S"]) simp

lemma handle_tcp_chat_effect:
  "\<exists>seen. (seen = ch_seen S \<or> (\<exists>i. seen = remember pick i (ch_seen S))) \<and>
     chat_effect seen S (snd (handle_tcp_chat C pick now m S))"
proof (cases "str_field ''msg_id'' [] m")
  case (Inl e)
  then show ?thesis by (auto simp: handle_tcp_chat_def intro: exI [of _ "ch_seen S"])
next
  case (Inr i)
  show ?thesis
  proof (cases "i \<in> set (ch_seen S)")
    case True
    then show ?thesis using Inr by (auto simp: handle_tcp_chat_def intro: exI [of _ "ch_seen S"])
  next
    case False
    then have "chat_effect (remember pick i (ch_seen S)) S (snd (handle_tcp_chat C pick now m S))"
      using Inr by (simp add: handle_tcp_chat_def Let_def chat_effect_send chat_effect_seen split: sum.split)
    then show ?thesis by blast
  qed
qed

lemma websocket_message_effect:
  "\<exists>seen. (seen = ch_seen S \<or> (\<exists>i. seen = remember pick i (ch_seen S))) \<and>
     chat_effect seen S (websocket_message C pick now i data S)"
proof (cases "strip (get_or [] data) = []")
  case True
  then show ?thesis by (auto simp: websocket_message_def intro: exI [of _ "ch_seen S"])
next
  case False
  then have "chat_effect (remember pick i (ch_seen S)) S (websocket_message C pick now i data S)"
    by (simp add: websocket_message_def Let_def chat_effect_send)
  then show ?thesis by blast
qed

lemma node_handler_effect:
  "\<exists>seen. (seen = ch_seen S \<or> (\<exists>i. seen = remember pick i (ch_seen S))) \<and>
     chat_effect seen S (snd (node_handler C pick now h m S))"
  using handle_tcp_chat_effect [of S pick C now m]
  by (auto simp: node_handler_def intro: exI [of _ "ch_seen S"])

subsection \<open>The set of seen messages\<close>

lemma length_remember:
  assumes "\<And>xs. xs \<noteq> [] \<Longrightarrow> pick xs \<in> set xs" and "length seen \<le> MAX_SEEN"
  shows "length (remember pick i seen) \<le> MAX_SEEN"
proof -
  define s where "s = (if i \<in> set seen then seen else i # seen)"
  have "length s \<le> Suc MAX_SEEN" using assms(2) by (simp add: s_def)
  moreover have "length (remove1 (pick s) s) = length s - 1" if "length s > MAX_SEEN"
  proof -
    have "s \<noteq> []" using that by auto
    then show ?thesis using assms(1) by (simp add: length_remove1)
  qed
  ultimately show ?thesis by (auto simp: remember_def Let_def simp flip: s_def)
qed

text \<open>
  A chat message is shown and passed on at most once: delivering it again, from any peer, leaves
  the node as it is. This holds while fewer than 500 identifiers are remembered; after that,
  \<^verbatim>\<open>set.pop\<close> may forget the very identifier that was just added.
\<close>

theorem chat_duplicate_ignored:
  assumes "length (ch_seen S) < MAX_SEEN" and "str_field ''msg_id'' [] m = Inr i"
  shows "let S' = snd (handle_tcp_chat C pick now m S) in handle_tcp_chat C' pick' later m S' = (Inr (), S')"
proof (cases "i \<in> set (ch_seen S)")
  case True
  then show ?thesis using assms by (simp add: handle_tcp_chat_def)
next
  case False
  then have r: "remember pick i (ch_seen S) = i # ch_seen S" using assms(1) by (simp add: remember_def)
  have "chat_effect (i # ch_seen S) S (snd (handle_tcp_chat C pick now m S))"
    using False assms(2) chat_effect_send [of "i # ch_seen S" S] chat_effect_seen [of "i # ch_seen S" S]
    by (simp add: handle_tcp_chat_def Let_def r split: sum.split)
  then have "i \<in> set (ch_seen (snd (handle_tcp_chat C pick now m S)))" by (auto simp: chat_effect_def)
  then show ?thesis using assms(2) by (simp add: Let_def) (simp add: handle_tcp_chat_def)
qed

definition chat_node :: node_net where
  "chat_node =
     \<lparr>nt_node = new_node_state 0 ''aa'' ''aa'', nt_api_port = 8888, nt_connections = [], nt_written = (\<lambda>_. []),
      nt_open = (\<lambda>_. True), ch_active = [0], ch_shown = (\<lambda>_. []), ch_ws_ok = (\<lambda>_. True), ch_seen = [],
      nn_clients = (\<lambda>_. None), nn_next = 0\<rparr>"

theorem chat_duplicate_ignored_witness:
  "let m = dict_set ''msg_id'' (VStr ''1'') (chat_msg 0 ''bb'' ''bb'' ''hello'');
       S' = snd (handle_tcp_chat (table_codec []) hd 0 m chat_node)
   in handle_tcp_chat (table_codec []) hd 1 m S' = (Inr (), S')"
  using chat_duplicate_ignored [of chat_node "dict_set ''msg_id'' (VStr ''1'') (chat_msg 0 ''bb'' ''bb'' ''hello'')" "''1''"
      "table_codec []" hd 0 "table_codec []" hd 1]
  by (simp add: chat_node_def MAX_SEEN_def str_field_def Let_def)

subsection \<open>The connections of a running node\<close>

text \<open>
  A registered connection is an outbound one or an inbound one whose handler is in its message
  loop under that identifier.
\<close>

definition conns_ok :: "node_net \<Rightarrow> bool" where
  "conns_ok S \<longleftrightarrow>
     (\<forall>h cl. nn_clients S h = Some cl \<longrightarrow> h < nn_next S \<and> cl_conn cl = h) \<and>
     (\<forall>nid h. dict_get (nt_connections S) nid = Some h \<longrightarrow> h < nn_next S \<and>
        (\<forall>cl. nn_clients S h = Some cl \<longrightarrow> cl_phase cl = InLoop \<and> cl_peer_id cl = nid))"

lemma conns_ok_fields:
  "nt_connections S' = nt_connections S \<Longrightarrow> nn_clients S' = nn_clients S \<Longrightarrow> nn_next S' = nn_next S \<Longrightarrow>
   conns_ok S' \<longleftrightarrow> conns_ok S"
  by (simp add: conns_ok_def)

lemma conns_ok_client:
  assumes "conns_ok S" and "nn_clients S h = Some cl" and "cl_conn cl' = h"
    and "\<And>nid g. dict_get conns nid = Some g \<Longrightarrow>
      (g \<noteq> h \<and> dict_get (nt_connections S) nid = Some g) \<or> (g = h \<and> cl_phase cl' = InLoop \<and> cl_peer_id cl' = nid)"
    and "nt_connections S' = conns" and "nn_clients S' = (nn_clients S)(h \<mapsto> cl')" and "nn_next S' = nn_next S"
  shows "conns_ok S'"
  unfolding conns_ok_def assms(5-7)
proof (intro conjI allI impI)
  fix g c assume "((nn_clients S)(h \<mapsto> cl')) g = Some c"
  then show "g < nn_next S" "cl_conn c = g"
    using assms(1-3) by (auto simp: conns_ok_def split: if_splits)
next
  fix nid g assume g: "dict_get conns nid = Some g"
  show "g < nn_next S" using assms(4) [OF g] assms(1,2) by (auto simp: conns_ok_def)
  fix c assume "((nn_clients S)(h \<mapsto> cl')) g = Some c"
  then show "cl_phase c = InLoop" "cl_peer_id c = nid"
    using assms(4) [OF g] assms(1) by (auto simp: conns_ok_def split: if_splits)
qed

lemma client_finish_ok:
  assumes "conns_ok S" and "nn_clients S h = Some cl" and "cl_peer_id cl' = cl_peer_id cl \<or> cl_phase cl \<noteq> InLoop"
    and "cl_conn cl' = h" and "client_finish cl' (S\<lparr>nt_written := w\<rparr>) = (cl2, S')"
  shows "conns_ok (S'\<lparr>nn_clients := (nn_clients S')(h \<mapsto> cl2)\<rparr>)"
proof (rule conns_ok_client [OF assms(1,2)])
  show "cl_conn cl2 = h" using assms(4,5) by (auto simp: client_finish_def)
  have s: "nt_connections S' = dict_del (cl_peer_id cl') (nt_connections S)" "nn_clients S' = nn_clients S"
      "nn_next S' = nn_next S"
    using assms(5) by (auto simp: client_finish_def conn_close_def)
  then show "nt_connections (S'\<lparr>nn_clients := (nn_clients S')(h \<mapsto> cl2)\<rparr>) = dict_del (cl_peer_id cl') (nt_connections S)"
    "nn_clients (S'\<lparr>nn_clients := (nn_clients S')(h \<mapsto> cl2)\<rparr>) = (nn_clients S)(h \<mapsto> cl2)"
    "nn_next (S'\<lparr>nn_clients := (nn_clients S')(h \<mapsto> cl2)\<rparr>) = nn_next S"
    by simp_all
  fix nid g assume g: "dict_get (dict_del (cl_peer_id cl') (nt_connections S)) nid = Some g"
  have "g \<noteq> h"
  proof
    assume "g = h"
    then have "cl_phase cl = InLoop" "cl_peer_id cl = nid"
      using g assms(1,2) by (auto simp: conns_ok_def split: if_splits)
    then show False using g assms(3) by (auto split: if_splits)
  qed
  then show "(g \<noteq> h \<and> dict_get (nt_connections S) nid = Some g) \<or> (g = h \<and> cl_phase cl2 = InLoop \<and> cl_peer_id cl2 = nid)"
    using g by (auto split: if_splits)
qed

lemma accept_handshake_ok:
  assumes "conns_ok S" and "nn_clients S h = Some cl" and "cl_phase cl \<noteq> InLoop"
    and "accept_handshake E now m cl S = (cl2, S')"
  shows "conns_ok (S'\<lparr>nn_clients := (nn_clients S')(h \<mapsto> cl2)\<rparr>)"
proof -
  have h: "cl_conn cl = h" using assms(1,2) by (auto simp: conns_ok_def)
  have fin: "conns_ok (S2\<lparr>nn_clients := (nn_clients S2)(h \<mapsto> c2)\<rparr>)"
    if "client_finish c (S\<lparr>nt_written := nt_written S\<rparr>) = (c2, S2)" "cl_conn c = h" for c c2 S2
    using client_finish_ok [OF assms(1,2) _ that(2,1)] assms(3) by simp
  show ?thesis
  proof (cases "str_field ''node_id'' [] m")
    case (Inl e)
    then show ?thesis using fin [of cl] h assms(4) by (simp add: accept_handshake_def)
  next
    case (Inr nid)
    let ?c = "cl\<lparr>cl_peer_id := nid\<rparr>"
    show ?thesis
    proof (cases "handshake_peer now nid (cl_ip cl) 0 m")
      case (Inl e)
      then show ?thesis using fin [of ?c] h Inr assms(4) by (simp add: accept_handshake_def)
    next
      case (Inr p)
      let ?R = "register_conn now nid (cl_conn cl) p S"
      obtain r S1 where s: "conn_send (ne_codec E) (cl_conn cl) (handshake_fields ''HANDSHAKE_ACK'' S) ?R = (r, S1)"
        by fastforce
      obtain w where w: "S1 = ?R\<lparr>nt_written := w\<rparr>"
        using conn_send_written [of "ne_codec E" "cl_conn cl" "handshake_fields ''HANDSHAKE_ACK'' S" ?R] s by auto
      have R: "nt_connections S1 = dict_set nid h (nt_connections S)" "nn_clients S1 = nn_clients S" "nn_next S1 = nn_next S"
        by (simp_all add: w register_conn_def h)
      have other: "g \<noteq> h" if "dict_get (nt_connections S) k = Some g" for k g
        using assms(1-3) that by (auto simp: conns_ok_def)
      show ?thesis
      proof (cases r)
        case (Inr u)
        then have res: "cl2 = ?c\<lparr>cl_phase := InLoop\<rparr>" "S' = S1"
          using \<open>str_field ''node_id'' [] m = Inr nid\<close> \<open>handshake_peer now nid (cl_ip cl) 0 m = Inr p\<close> s assms(4)
          by (simp_all add: accept_handshake_def Let_def)
        show ?thesis
          by (rule conns_ok_client [OF assms(1,2), where cl' = cl2 and conns = "dict_set nid h (nt_connections S)"])
            (use other h in \<open>auto simp: res R split: if_splits\<close>)
      next
        case (Inl e)
        then have res: "client_finish ?c S1 = (cl2, S')"
          using \<open>str_field ''node_id'' [] m = Inr nid\<close> \<open>handshake_peer now nid (cl_ip cl) 0 m = Inr p\<close> s assms(4)
          by (simp add: accept_handshake_def Let_def)
        then have f: "cl_conn cl2 = h" "nt_connections S' = dict_del nid (nt_connections S1)"
            "nn_clients S' = nn_clients S1" "nn_next S' = nn_next S1"
          by (auto simp: client_finish_def conn_close_def h)
        show ?thesis
          by (rule conns_ok_client [OF assms(1,2), where cl' = cl2 and conns = "dict_del nid (nt_connections S1)"])
            (use other in \<open>auto simp: f R split: if_splits\<close>)
      qed
    qed
  qed
qed

lemma client_step_ok:
  assumes "conns_ok S" and "nn_clients S h = Some cl"
    and "client_step E (node_handler C pick now) now received cl S = (cl2, S')"
  shows "conns_ok (S'\<lparr>nn_clients := (nn_clients S')(h \<mapsto> cl2)\<rparr>)"
proof -
  have h: "cl_conn cl = h" using assms(1,2) by (auto simp: conns_ok_def)
  have same: "conns_ok (S\<lparr>nn_clients := (nn_clients S)(h \<mapsto> c)\<rparr>)"
    if "cl_conn c = h" "cl_phase c = cl_phase cl \<or> cl_phase cl \<noteq> InLoop" "cl_peer_id c = cl_peer_id cl" for c
    by (rule conns_ok_client [OF assms(1,2), where cl' = c and conns = "nt_connections S"])
      (use assms(1,2) that in \<open>auto simp: conns_ok_def\<close>)
  have fin: "conns_ok (S2\<lparr>nn_clients := (nn_clients S2)(h \<mapsto> c2)\<rparr>)"
    if "client_finish cl (S\<lparr>nt_written := nt_written S\<rparr>) = (c2, S2)" for c2 S2
    using client_finish_ok [OF assms(1,2) _ h that] by simp
  consider "cl_phase cl = Finished" | "cl_phase cl \<noteq> Finished" "received = None"
    | m where "cl_phase cl = AwaitAuth" "received = Some m"
    | m where "cl_phase cl = AwaitHandshake" "received = Some m"
    | m where "cl_phase cl = InLoop" "received = Some m"
    by (cases "cl_phase cl"; cases received) auto
  then show ?thesis
  proof cases
    case 1
    then show ?thesis using same [of cl] h assms(3) by simp
  next
    case 2
    then show ?thesis using fin assms(3) by (cases "cl_phase cl") (simp_all add: client_step_def)
  next
    case 3
    then show ?thesis using fin same [of "cl\<lparr>cl_phase := AwaitHandshake\<rparr>"] h assms(3)
      by (auto simp: client_step_def split: if_splits)
  next
    case 4
    then show ?thesis using fin accept_handshake_ok [OF assms(1,2)] assms(3)
      by (auto simp: client_step_def split: if_splits)
  next
    case 5
    obtain r S1 where s: "node_handler C pick now (cl_conn cl) m S = (r, S1)" by fastforce
    obtain seen where "chat_effect seen S S1"
      using node_handler_effect [of S pick C now "cl_conn cl" m] s by auto
    then have S1: "nt_connections S1 = nt_connections S" "nn_clients S1 = nn_clients S" "nn_next S1 = nn_next S"
      by (auto simp: chat_effect_def)
    then have ok: "conns_ok S1" and cl: "nn_clients S1 h = Some cl"
      using assms(1,2) conns_ok_fields [of S1 S] by simp_all
    show ?thesis
    proof (cases r)
      case (Inl e)
      then have "client_finish cl (S1\<lparr>nt_written := nt_written S1\<rparr>) = (cl2, S')"
        using 5 s assms(3) by (simp add: client_step_def)
      then show ?thesis using client_finish_ok [OF ok cl _ h] by blast
    next
      case (Inr u)
      then have "cl2 = cl" "S' = S1" using 5 s assms(3) by (simp_all add: client_step_def)
      then show ?thesis using ok cl conns_ok_fields [of "S1\<lparr>nn_clients := (nn_clients S1)(h \<mapsto> cl)\<rparr>" S1]
        by (simp add: fun_upd_idem)
    qed
  qed
qed

text \<open>Connecting writes bytes, closes connections, and may register the new connection.\<close>

lemma connect_to_peer_effect:
  assumes "connect_to_peer E now (Some (h, reply)) ip port S = (r, S')"
  shows "(\<exists>w op. S' = S\<lparr>nt_written := w, nt_open := op\<rparr>) \<or>
     (\<exists>w nid p. r = Inr (Some h) \<and> S' = (register_conn now nid h p S)\<lparr>nt_written := w\<rparr>)"
proof -
  let ?C = "ne_codec E"
  obtain r1 S1 where s1: "conn_send ?C h (auth_handshake_msg (ne_hmac E) (ns_node_id (nt_node S)) (ne_swarm_key E)) S = (r1, S1)"
    by fastforce
  obtain w1 where w1: "S1 = S\<lparr>nt_written := w1\<rparr>"
    using conn_send_written s1 by (metis snd_conv)
  obtain r2 S2 where s2: "conn_send ?C h (handshake_fields ''HANDSHAKE'' S1) S1 = (r2, S2)" by fastforce
  obtain w2 where w2: "S2 = S\<lparr>nt_written := w2\<rparr>"
  proof -
    obtain w where "S2 = S1\<lparr>nt_written := w\<rparr>" using conn_send_written s2 by (metis snd_conv)
    then show thesis using that by (simp add: w1)
  qed
  have quiet: "\<exists>w op. S\<lparr>nt_written := v\<rparr> = S\<lparr>nt_written := w, nt_open := op\<rparr>" for v
    by (rule exI [of _ v], rule exI [of _ "nt_open S"]) simp
  have closed: "\<exists>w op. conn_close h S2 = S\<lparr>nt_written := w, nt_open := op\<rparr>"
    by (rule exI [of _ w2], rule exI [of _ "(nt_open S)(h := False)"]) (simp add: w2 conn_close_def)
  show ?thesis
  proof (cases "\<exists>u v ack nid p. r1 = Inr u \<and> r2 = Inr v \<and> reply = Some ack \<and> has_type ''HANDSHAKE_ACK'' ack \<and>
      str_field ''node_id'' [] ack = Inr nid \<and> handshake_peer now nid ip port ack = Inr p")
    case True
    then obtain ack nid p where t: "r1 = Inr ()" "r2 = Inr ()" "reply = Some ack" "has_type ''HANDSHAKE_ACK'' ack"
      "str_field ''node_id'' [] ack = Inr nid" "handshake_peer now nid ip port ack = Inr p" by auto
    have "r = Inr (Some h)" "S' = (register_conn now nid h p S)\<lparr>nt_written := w2\<rparr>"
      using assms t s1 s2 by (simp, cases S, auto simp: connect_to_peer_def Let_def w2 register_conn_def)
    then show ?thesis by blast
  next
    case False
    then have "S' = S1 \<or> S' = S2 \<or> S' = conn_close h S2"
      using assms s1 s2
      by (auto simp: connect_to_peer_def Let_def split: sum.splits option.splits if_splits)
    then show ?thesis using quiet [of w1] quiet [of w2] closed w1 w2 by auto
  qed
qed

lemma dial_peer_effect:
  assumes "dial_peer E dial now ip port S = (r, S')"
  shows "S' = S \<or> (\<exists>w op. S' = S\<lparr>nn_next := Suc (nn_next S), nt_written := w, nt_open := op\<rparr>) \<or>
     (\<exists>w op nid p. r = Inr (Some (nn_next S)) \<and>
        S' = (register_conn now nid (nn_next S) p S)\<lparr>nn_next := Suc (nn_next S), nt_written := w, nt_open := op\<rparr>)"
proof (cases "dial ip port")
  case None
  then show ?thesis using assms by (simp add: dial_peer_def connect_to_peer_def)
next
  case (Some reply)
  let ?S = "S\<lparr>nn_next := Suc (nn_next S), nt_open := (nt_open S)(nn_next S := True)\<rparr>"
  have "connect_to_peer E now (Some (nn_next S, reply)) ip port ?S = (r, S')"
    using assms Some by (simp add: dial_peer_def)
  from connect_to_peer_effect [OF this] show ?thesis
  proof (elim disjE exE conjE)
    fix w op assume "S' = ?S\<lparr>nt_written := w, nt_open := op\<rparr>"
    then have "S' = S\<lparr>nn_next := Suc (nn_next S), nt_written := w, nt_open := op\<rparr>" by simp
    then show ?thesis by blast
  next
    fix w nid p assume r: "r = Inr (Some (nn_next S))"
      and "S' = (register_conn now nid (nn_next S) p ?S)\<lparr>nt_written := w\<rparr>"
    then have "S' = (register_conn now nid (nn_next S) p S)\<lparr>nn_next := Suc (nn_next S), nt_written := w,
        nt_open := (nt_open S)(nn_next S := True)\<rparr>" by (simp add: register_conn_def)
    with r show ?thesis by blast
  qed
qed

lemma fresh_client_none: "conns_ok S \<Longrightarrow> nn_clients S (nn_next S) = None"
  by (cases "nn_clients S (nn_next S)") (auto simp: conns_ok_def)

lemma dial_peer_ok:
  assumes "conns_ok S" and "dial_peer E dial now ip port S = (r, S')"
  shows "conns_ok S'"
  using dial_peer_effect [OF assms(2)] assms(1) fresh_client_none [OF assms(1)]
  by (auto simp: conns_ok_def register_conn_def less_Suc_eq split: if_splits)

text \<open>Two invariants of a running node in one rule induction.\<close>

definition seen_ok :: "node_net \<Rightarrow> bool" where
  "seen_ok S \<longleftrightarrow> length (ch_seen S) \<le> MAX_SEEN"

text \<open>Connection handling leaves the chat's part of the state alone.\<close>

lemma more_seen: "net_state.more S' = net_state.more S \<Longrightarrow> ch_seen S' = ch_seen S"
  by (cases S; cases S') simp

lemma conn_send_more: "conn_send C h m S = (r, S') \<Longrightarrow> net_state.more S' = net_state.more S"
  by (auto simp: conn_send_def split: sum.splits if_splits)

lemma client_finish_more: "client_finish cl S = (cl', S') \<Longrightarrow> net_state.more S' = net_state.more S"
  by (auto simp: client_finish_def conn_close_def)

lemma register_conn_more [simp]: "net_state.more (register_conn now nid h p S) = net_state.more S"
  by (simp add: register_conn_def)

lemma accept_handshake_more:
  "accept_handshake E now m cl S = (cl', S') \<Longrightarrow> net_state.more S' = net_state.more S"
  by (auto simp: accept_handshake_def Let_def split: sum.splits prod.splits
      dest!: client_finish_more conn_send_more)

lemma connect_to_peer_more:
  "connect_to_peer E now dialled ip port S = (r, S') \<Longrightarrow> net_state.more S' = net_state.more S"
  by (auto simp: connect_to_peer_def conn_close_def Let_def split: sum.splits prod.splits option.splits if_splits
      dest!: conn_send_more)

lemma client_step_seen:
  assumes "client_step E (node_handler C pick now) now received cl S = (cl2, S')"
  shows "ch_seen S' = ch_seen S \<or> (\<exists>i. ch_seen S' = remember pick i (ch_seen S))"
proof -
  have hd: "ch_seen S1 = ch_seen S \<or> (\<exists>i. ch_seen S1 = remember pick i (ch_seen S))"
    if "node_handler C pick now h m S = (r, S1)" for h m r S1
    using node_handler_effect [of S pick C now h m] that by (auto simp: chat_effect_def)
  have fin: "ch_seen T' = ch_seen T" if "client_finish c T = (c', T')" for c c' T T'
    using client_finish_more [OF that] by (rule more_seen)
  have acc: "ch_seen T' = ch_seen T" if "accept_handshake E now m c T = (c', T')" for m c c' T T'
    using accept_handshake_more [OF that] by (rule more_seen)
  show ?thesis
    using assms
    by (auto simp: client_step_def split: phase.splits option.splits if_splits prod.splits sum.splits
        dest!: fin acc) (use hd fin in metis)+
qed

lemma dial_peer_seen: "dial_peer E dial now ip port S = (r, S') \<Longrightarrow> ch_seen S' = ch_seen S"
  using dial_peer_effect by (fastforce simp: register_conn_def)

lemma net_step_conns: "net_step E pick S S' \<Longrightarrow> conns_ok S \<Longrightarrow> conns_ok S'"
proof (erule net_stepE)
  fix h cl now received cl' S1
  assume "conns_ok S" and "nn_clients S h = Some cl" and "S' = S1\<lparr>nn_clients := (nn_clients S1)(h \<mapsto> cl')\<rparr>"
    and "client_step E (node_handler (ne_codec E) pick now) now received cl S = (cl', S1)"
  then show "conns_ok S'" using client_step_ok by blast
next
  fix now msg_id data assume "conns_ok S" and "S' = websocket_message (ne_codec E) pick now msg_id data S"
  then show "conns_ok S'"
    using websocket_message_effect [of S pick "ne_codec E" now msg_id data] conns_ok_fields [of S' S]
    by (auto simp: chat_effect_def)
next
  fix ip assume "conns_ok S" and "S' = S\<lparr>nn_clients := (nn_clients S)(nn_next S \<mapsto> new_client (nn_next S) ip),
      nn_next := Suc (nn_next S), nt_open := (nt_open S)(nn_next S := True)\<rparr>"
  then show "conns_ok S'" by (auto simp: conns_ok_def new_client_def less_Suc_eq)
next
  fix dial now ip port r assume "conns_ok S" and "dial_peer E dial now ip port S = (r, S')"
  then show "conns_ok S'" by (rule dial_peer_ok)
qed (auto simp: conns_ok_def chat_connect_def chat_disconnect_def)

lemma net_step_seen:
  assumes "net_step E pick S S'" and "\<And>xs. xs \<noteq> [] \<Longrightarrow> pick xs \<in> set xs" and "seen_ok S"
  shows "seen_ok S'"
  using assms(1)
proof (cases rule: net_step.cases)
  case (receives h cl now received cl' S1)
  then show ?thesis
    using client_step_seen [of E "ne_codec E" pick now received cl S cl' S1] assms(3) length_remember [OF assms(2)]
    by (auto simp: seen_ok_def)
next
  case (ws_talks now msg_id data)
  then show ?thesis
    using websocket_message_effect [of S pick "ne_codec E" now msg_id data] assms(3) length_remember [OF assms(2)]
    by (auto simp: chat_effect_def seen_ok_def)
qed (use assms(3) in \<open>auto simp: seen_ok_def dial_peer_seen chat_connect_def chat_disconnect_def\<close>)

interpretation connections: invariant_system "net_step E pick" conns_ok for E pick
  by unfold_locales (rule net_step_conns)

interpretation memory: invariant_system "net_step E pick" "\<lambda>S. (\<forall>xs. xs \<noteq> [] \<longrightarrow> pick xs \<in> set xs) \<longrightarrow> seen_ok S" for E pick
  by unfold_locales (use net_step_seen in blast)

lemma reachable_conns: "net_reachable E pick S \<Longrightarrow> conns_ok S"
  unfolding net_reachable_def by (elim exE conjE connections.runs_keep) (simp add: net_started_def conns_ok_def)

text \<open>
  In every reachable state of a node, each registered connection is an outbound one or an
  inbound one whose authenticated handler is running under exactly that identifier, and at most
  500 chat identifiers are remembered.
\<close>

theorem node_connections_invariant:
  assumes "net_reachable E pick S" and "\<And>xs. xs \<noteq> [] \<Longrightarrow> pick xs \<in> set xs"
  shows "conns_ok S \<and> length (ch_seen S) \<le> MAX_SEEN"
proof -
  obtain S0 where S0: "net_started S0" "(net_step E pick)\<^sup>*\<^sup>* S0 S" using assms(1) by (auto simp: net_reachable_def)
  have "(\<forall>xs. xs \<noteq> [] \<longrightarrow> pick xs \<in> set xs) \<longrightarrow> seen_ok S"
    by (rule memory.runs_keep [OF S0(2)]) (use S0(1) in \<open>simp add: net_started_def seen_ok_def\<close>)
  then show ?thesis using reachable_conns [OF assms(1)] assms(2) by (simp add: seen_ok_def)
qed

theorem node_connections_invariant_witness:
  "\<exists>S. nn_clients S 0 = Some (new_client 0 ''10.0.0.9'') \<and> conns_ok S \<and> length (ch_seen S) \<le> MAX_SEEN"
proof -
  let ?S = "chat_node\<lparr>nn_clients := (nn_clients chat_node)(nn_next chat_node \<mapsto> new_client (nn_next chat_node) ''10.0.0.9''),
      nn_next := Suc (nn_next chat_node), nt_open := (nt_open chat_node)(nn_next chat_node := True)\<rparr>"
  have "net_started chat_node" by (simp add: net_started_def chat_node_def)
  moreover have "net_step two_node_env hd chat_node ?S" by (rule accepts)
  ultimately have "net_reachable two_node_env hd ?S" by (auto simp: net_reachable_def)
  from node_connections_invariant [OF this] have "conns_ok ?S \<and> length (ch_seen ?S) \<le> MAX_SEEN" by simp
  moreover have "nn_clients ?S 0 = Some (new_client 0 ''10.0.0.9'')" by (simp add: chat_node_def)
  ultimately show ?thesis by blast
qed

end
