(* ===== verification/Dht.thy ===== *)
theory Dht
  imports NodeState
begin

unbundle bit_operations_syntax

section \<open>The distributed hash table (backend/dht/routing.py, backend/dht/lookup.py)\<close>

text \<open>
  The XOR distance of hexadecimal identifiers, the choice of the closest peers, the table of chunk
  holders, and the lookups that combine the table with the peers alive.
\<close>

subsection \<open>\<^verbatim>\<open>int(s, 16)\<close>\<close>

text \<open>
  Python's parser for base 16: surrounding white space, a sign, the prefix \<^verbatim>\<open>0x\<close>, and
  single underscores between digits (and after the prefix) are accepted. Identifiers are ASCII
  here; the decimal digits and spaces of other scripts, which \<^verbatim>\<open>int\<close> accepts too, are not modelled.
\<close>

definition hex_value :: "char \<Rightarrow> int option" where
  "hex_value c =
     (let n = of_char c :: nat
      in if 48 \<le> n \<and> n \<le> 57 then Some (int n - 48)
         else if 97 \<le> n \<and> n \<le> 102 then Some (int n - 87)
         else if 65 \<le> n \<and> n \<le> 70 then Some (int n - 55)
         else None)"

text \<open>\<open>after_digit\<close>: whether the character before was a digit.\<close>

fun hex_digits :: "bool \<Rightarrow> int \<Rightarrow> string \<Rightarrow> int option" where
  "hex_digits after_digit acc [] = (if after_digit then Some acc else None)"
| "hex_digits after_digit acc (c # cs) =
     (if c = CHR ''_'' then if after_digit then hex_digits False acc cs else None
      else case hex_value c of None \<Rightarrow> None | Some d \<Rightarrow> hex_digits True (16 * acc + d) cs)"

definition hex_unsigned :: "string \<Rightarrow> int option" where
  "hex_unsigned s =
     (if take 2 s = ''0x'' \<or> take 2 s = ''0X''
      then hex_digits False 0 (if take 1 (drop 2 s) = ''_'' then drop 3 s else drop 2 s)
      else hex_digits False 0 s)"

definition int16 :: "string \<Rightarrow> int res" where
  "int16 s =
     (let t = strip s;
          v = (if take 1 t = ''-'' then map_option uminus (hex_unsigned (tl t))
               else if take 1 t = ''+'' then hex_unsigned (tl t)
               else hex_unsigned t)
      in case v of None \<Rightarrow> Inl (ValueError (InvalidLiteral s)) | Some n \<Rightarrow> Inr n)"

subsection \<open>Distance and closest peers\<close>

definition xor_distance :: "string \<Rightarrow> string \<Rightarrow> int res" where
  "xor_distance id_a id_b = bindr (int16 id_a) (\<lambda>a. bindr (int16 id_b) (\<lambda>b. Inr (a XOR b)))"

text \<open>The loop skips a peer when \<^verbatim>\<open>xor_distance\<close> raises \<^verbatim>\<open>ValueError\<close>, its only exception.\<close>

fun distances :: "string \<Rightarrow> string list \<Rightarrow> (string \<times> int) list" where
  "distances target_hash [] = []"
| "distances target_hash (pid # rest) =
     (case xor_distance target_hash pid of
        Inr d \<Rightarrow> (pid, d) # distances target_hash rest
      | Inl e \<Rightarrow> distances target_hash rest)"

definition find_closest_peers :: "string \<Rightarrow> string list \<Rightarrow> int \<Rightarrow> (string \<times> int) list" where
  "find_closest_peers target_hash peer_ids k =
     (if peer_ids = [] then [] else prefix_to k (sort_key snd (distances target_hash peer_ids)))"

subsection \<open>The routing table\<close>

type_synonym routing_table = "(string, string list) dict"

definition empty_routing :: routing_table where
  "empty_routing = []"

definition assign_chunk :: "string \<Rightarrow> string list \<Rightarrow> routing_table \<Rightarrow> routing_table" where
  "assign_chunk chunk_hash peer_ids t = dict_set chunk_hash peer_ids t"

definition get_holders :: "routing_table \<Rightarrow> string \<Rightarrow> string list" where
  "get_holders t chunk_hash = get_or [] (dict_get t chunk_hash)"

text \<open>\<^verbatim>\<open>peers.remove(peer_id)\<close> removes the first occurrence.\<close>

fun remove_peer_from_all :: "string \<Rightarrow> routing_table \<Rightarrow> string list \<times> routing_table" where
  "remove_peer_from_all peer_id [] = ([], [])"
| "remove_peer_from_all peer_id ((chunk_hash, peers) # rest) =
     (let (affected, t) = remove_peer_from_all peer_id rest
      in if peer_id \<in> set peers then (chunk_hash # affected, (chunk_hash, remove1 peer_id peers) # t)
         else (affected, (chunk_hash, peers) # t))"

definition routing_get_all :: "routing_table \<Rightarrow> routing_table" where
  "routing_get_all t = t"

definition chunk_count :: "routing_table \<Rightarrow> nat" where
  "chunk_count t = length t"

subsection \<open>Lookups\<close>

definition find_chunk_holders :: "real \<Rightarrow> node_state \<Rightarrow> routing_table \<Rightarrow> string \<Rightarrow> string list" where
  "find_chunk_holders now st t chunk_hash =
     (let holders = get_holders t chunk_hash
      in if holders \<noteq> [] then holders
         else
           let peers = get_alive_peers now 15 st
           in if peers = [] then []
              else map fst (find_closest_peers chunk_hash (dict_keys peers) 3))"

definition find_best_storage_peers :: "real \<Rightarrow> node_state \<Rightarrow> string \<Rightarrow> int \<Rightarrow> string list" where
  "find_best_storage_peers now st chunk_hash k =
     (let peers = get_alive_peers now 15 st
      in if peers = [] then [] else map fst (find_closest_peers chunk_hash (dict_keys peers) k))"

subsection \<open>Hexadecimal digests are valid identifiers\<close>

definition is_hex_id :: "string \<Rightarrow> bool" where
  "is_hex_id s \<longleftrightarrow> s \<noteq> [] \<and> (\<forall>c \<in> set s. hex_value c \<noteq> None)"

definition hex_number :: "string \<Rightarrow> int" where
  "hex_number s = fold (\<lambda>c acc. 16 * acc + the (hex_value c)) s 0"

lemma hex_value_bounds: "hex_value c = Some d \<Longrightarrow> 0 \<le> d \<and> d < 16"
  by (auto simp: hex_value_def Let_def split: if_splits)

lemma hex_digits_hex:
  "\<forall>c \<in> set s. hex_value c \<noteq> None \<Longrightarrow> s \<noteq> [] \<or> b \<Longrightarrow>
   hex_digits b acc s = Some (fold (\<lambda>c acc. 16 * acc + the (hex_value c)) s acc)"
proof (induction s arbitrary: b acc)
  case (Cons c s)
  have "hex_value (CHR ''_'') = None" by (simp add: hex_value_def)
  then show ?case using Cons by auto
qed simp

lemma is_space_not_hex: "hex_value c \<noteq> None \<Longrightarrow> \<not> is_space c"
  by (auto simp: hex_value_def is_space_def Let_def split: if_splits)

lemma strip_hex: "\<forall>c \<in> set s. hex_value c \<noteq> None \<Longrightarrow> strip s = s"
proof -
  assume a: "\<forall>c \<in> set s. hex_value c \<noteq> None"
  have "dropWhile is_space t = t" if "set t \<subseteq> set s" for t
    using that a is_space_not_hex by (cases t) auto
  then show ?thesis by (simp add: strip_def)
qed

lemma int16_hex:
  assumes "is_hex_id s"
  shows "int16 s = Inr (hex_number s)"
proof -
  have nx: "hex_value (CHR ''x'') = None" "hex_value (CHR ''X'') = None"
    "hex_value (CHR ''-'') = None" "hex_value (CHR ''+'') = None"
    by (simp_all add: hex_value_def)
  have h: "\<forall>c \<in> set s. hex_value c \<noteq> None" "s \<noteq> []" using assms by (auto simp: is_hex_id_def)
  have "take 2 s \<noteq> ''0x'' \<and> take 2 s \<noteq> ''0X'' \<and> take 1 s \<noteq> ''-'' \<and> take 1 s \<noteq> ''+''"
  proof -
    have "c \<in> set s" if "take n s = xs" "c \<in> set xs" for n c xs using that by (auto dest: in_set_takeD)
    then show ?thesis using h(1) nx by (metis list.set_intros(1,2))
  qed
  then show ?thesis
    using h by (simp add: int16_def strip_hex hex_unsigned_def hex_digits_hex hex_number_def Let_def)
qed

lemma hex_number_nonneg: "is_hex_id s \<Longrightarrow> 0 \<le> hex_number s"
proof -
  have "0 \<le> acc \<Longrightarrow> \<forall>c \<in> set s. hex_value c \<noteq> None \<Longrightarrow>
      0 \<le> fold (\<lambda>c acc. 16 * acc + the (hex_value c)) s acc" for acc
    by (induction s arbitrary: acc) (fastforce dest: hex_value_bounds)+
  then show "is_hex_id s \<Longrightarrow> 0 \<le> hex_number s" by (simp add: is_hex_id_def hex_number_def)
qed

lemma xor_distance_hex:
  "is_hex_id a \<Longrightarrow> is_hex_id b \<Longrightarrow> xor_distance a b = Inr (hex_number a XOR hex_number b)"
  by (simp add: xor_distance_def int16_hex)

subsection \<open>The metric\<close>

lemma xor_triangle:
  assumes "0 \<le> (a :: int)" "0 \<le> b" "0 \<le> c"
  shows "a XOR c \<le> (a XOR b) + (b XOR c)"
proof -
  have "x XOR y \<le> x + y" if "0 \<le> x" "0 \<le> y" for x y :: int
  proof -
    have "(x XOR y) AND (x AND y) = 0" "(x XOR y) OR (x AND y) = x OR y"
      by (rule bit_eqI; auto simp: bit_simps)+
    then have "(x XOR y) + (x AND y) = x OR y" using plus_and_or [of "x XOR y" "x AND y"] by simp
    moreover have "(x AND y) + (x OR y) = x + y" by (rule plus_and_or)
    moreover have "0 \<le> x AND y" using that by simp
    ultimately show ?thesis by linarith
  qed
  from this [of "a XOR b" "b XOR c"] assms show ?thesis
    by (simp add: xor.assoc)
qed

lemma distances_in:
  "(pid, d) \<in> set (distances t ids) \<longleftrightarrow> pid \<in> set ids \<and> xor_distance t pid = Inr d"
  by (induction t ids rule: distances.induct) (auto split: sum.splits)

lemma distances_ids: "map fst (distances t ids) = filter (\<lambda>p. \<exists>d. xor_distance t p = Inr d) ids"
  by (induction t ids rule: distances.induct) (auto split: sum.splits)

lemma distances_hex:
  "is_hex_id t \<Longrightarrow> \<forall>p \<in> set ids. is_hex_id p \<Longrightarrow>
   distances t ids = map (\<lambda>p. (p, hex_number t XOR hex_number p)) ids"
  by (induction ids) (simp_all add: xor_distance_hex)

lemma find_closest_Nil [simp]: "find_closest_peers t [] k = []"
  by (simp add: find_closest_peers_def)

lemma find_closest_eq: "find_closest_peers t ids k = prefix_to k (sort_key snd (distances t ids))"
  by (cases "ids = []") (simp_all add: find_closest_peers_def prefix_to_def)

lemma set_find_closest: "set (find_closest_peers t ids k) \<subseteq> set (distances t ids)"
  using set_prefix_to [of k "sort_key snd (distances t ids)"] by (simp add: find_closest_eq)

lemma find_closest_ids: "pid \<in> fst ` set (find_closest_peers t ids k) \<Longrightarrow> pid \<in> set ids"
  using set_find_closest [of t ids k] by (force simp: distances_in)

lemma find_closest_distinct: "distinct ids \<Longrightarrow> distinct (map fst (find_closest_peers t ids k))"
proof -
  assume "distinct ids"
  then have "distinct (map fst (distances t ids))" by (simp add: distances_ids)
  then have "distinct (map fst (sort_key snd (distances t ids)))"
    by (metis mset_map mset_sort mset_eq_imp_distinct_iff)
  then show ?thesis
    by (simp add: find_closest_eq prefix_to_def take_map [symmetric])
qed

lemma find_closest_length:
  "0 \<le> k \<Longrightarrow> length (find_closest_peers t ids k) = min (nat k) (length (distances t ids))"
  by (simp add: find_closest_eq prefix_to_def)

lemma take_sort_key_min:
  assumes "x \<in> set (take n (sort_key f xs))" and "y \<in> set xs" and "y \<notin> set (take n (sort_key f xs))"
  shows "f x \<le> f y"
proof -
  have "y \<in> set (drop n (sort_key f xs))"
    using assms(2,3) by (metis Un_iff append_take_drop_id set_append set_sort)
  moreover have "sorted (map f (take n (sort_key f xs) @ drop n (sort_key f xs)))" by simp
  ultimately show ?thesis using assms(1) unfolding map_append sorted_append by auto
qed

subsection \<open>The routing table as a keyed store\<close>

lemma assign_get: "dict_get (assign_chunk h ps t) h' = (if h' = h then Some ps else dict_get t h')"
  by (simp add: assign_chunk_def)

interpretation holders: keyed_store assign_chunk dict_get "\<lambda>h ps. ps"
  by unfold_locales (rule assign_get)

lemma remove_peer_keys [simp]: "dict_keys (snd (remove_peer_from_all pid t)) = dict_keys t"
  by (induction pid t rule: remove_peer_from_all.induct) (auto simp: Let_def split: prod.splits)

lemma remove_peer_affected:
  "fst (remove_peer_from_all pid t) = dict_keys (filter (\<lambda>(h, ps). pid \<in> set ps) t)"
  by (induction pid t rule: remove_peer_from_all.induct) (auto simp: Let_def split: prod.splits)

lemma remove_peer_get:
  "dict_get (snd (remove_peer_from_all pid t)) h = map_option (remove1 pid) (dict_get t h)"
  by (induction pid t rule: remove_peer_from_all.induct)
    (auto simp: Let_def remove1_idem split: prod.splits)

subsection \<open>Properties\<close>

text \<open>
  On hexadecimal identifiers the XOR distance is a metric: it never raises, is symmetric and
  not negative, zero exactly for equal numbers, satisfies the triangle inequality, and is
  unidirectional: two identifiers at the same distance from a third are the same number.
\<close>

theorem xor_distance_metric:
  assumes "is_hex_id a" and "is_hex_id b" and "is_hex_id c"
  shows "\<exists>ab bc ac. xor_distance a b = Inr ab \<and> xor_distance b a = Inr ab \<and>
     xor_distance b c = Inr bc \<and> xor_distance a c = Inr ac \<and>
     0 \<le> ab \<and> (ab = 0 \<longleftrightarrow> hex_number a = hex_number b) \<and> ac \<le> ab + bc \<and>
     (ab = ac \<longleftrightarrow> hex_number b = hex_number c)"
proof -
  note nn = hex_number_nonneg [OF assms(1)] hex_number_nonneg [OF assms(2)] hex_number_nonneg [OF assms(3)]
  define x y w where "x = hex_number a" and "y = hex_number b" and "w = hex_number c"
  have "x XOR y = 0 \<longleftrightarrow> x = y" "x XOR y = x XOR w \<longleftrightarrow> y = w"
    by (metis xor.assoc xor.left_neutral xor.right_neutral xor_self_eq)+
  moreover have "0 \<le> x XOR y" "x XOR w \<le> (x XOR y) + (y XOR w)"
    using nn xor_triangle [OF nn] by (simp_all add: x_def y_def w_def)
  moreover have "y XOR x = x XOR y" by (rule xor.commute)
  ultimately show ?thesis
    using assms unfolding x_def y_def w_def by (simp add: xor_distance_hex)
qed

lemma hex_examples: "is_hex_id ''a3''" "is_hex_id ''0f''" "is_hex_id ''B0''"
  by (simp_all add: is_hex_id_def hex_value_def)

theorem xor_distance_metric_witness:
  "\<exists>ab. xor_distance ''a3'' ''0f'' = Inr ab \<and> xor_distance ''0f'' ''a3'' = Inr ab \<and> 0 \<le> ab"
  using xor_distance_metric [OF hex_examples] by blast

text \<open>
  C19. The closest peers: the result lists peers of the input with their true distances, in
  ascending order, as many as asked for or as have valid identifiers, and no valid peer that was
  left out is closer to the target than one that was returned.
\<close>

theorem closest_peers_correct:
  assumes "0 \<le> k" and "rs = find_closest_peers t ids k"
  shows "sorted (map snd rs) \<and>
     length rs = min (nat k) (length (filter (\<lambda>p. \<exists>d. xor_distance t p = Inr d) ids)) \<and>
     (\<forall>(p, d) \<in> set rs. p \<in> set ids \<and> xor_distance t p = Inr d) \<and>
     (\<forall>(p, d) \<in> set rs. \<forall>q \<in> set ids. \<forall>d'. xor_distance t q = Inr d' \<and> (q, d') \<notin> set rs \<longrightarrow> d \<le> d')"
proof (intro conjI)
  have rs: "rs = take (nat k) (sort_key snd (distances t ids))"
    using assms by (simp add: find_closest_eq prefix_to_def)
  show "sorted (map snd rs)" by (simp add: rs take_map [symmetric] sorted_wrt_take)
  show "length rs = min (nat k) (length (filter (\<lambda>p. \<exists>d. xor_distance t p = Inr d) ids))"
    using assms by (simp add: find_closest_length distances_ids [symmetric])
  show "\<forall>(p, d) \<in> set rs. p \<in> set ids \<and> xor_distance t p = Inr d"
    using set_find_closest [of t ids k] assms(2) by (force simp: distances_in)
  show "\<forall>(p, d) \<in> set rs. \<forall>q \<in> set ids. \<forall>d'. xor_distance t q = Inr d' \<and> (q, d') \<notin> set rs \<longrightarrow> d \<le> d'"
  proof (clarify)
    fix p d q d'
    assume pd: "(p, d) \<in> set rs" and q: "q \<in> set ids" "xor_distance t q = Inr d'" "(q, d') \<notin> set rs"
    then have "(q, d') \<in> set (distances t ids)" by (simp add: distances_in)
    from take_sort_key_min [OF pd [unfolded rs] this] q(3) show "d \<le> d'" by (simp add: rs)
  qed
qed

theorem closest_peers_correct_witness:
  "length (find_closest_peers ''a3'' [''0f'', ''zz'', ''B0''] 3) = 2"
proof -
  have "xor_distance ''a3'' ''zz'' = Inl (ValueError (InvalidLiteral ''zz''))" by code_simp
  moreover have "xor_distance ''a3'' ''0f'' = Inr 172" "xor_distance ''a3'' ''B0'' = Inr 19" by code_simp+
  ultimately show ?thesis using closest_peers_correct [OF _ refl, of 3 "''a3''" "[''0f'', ''zz'', ''B0'']"] by simp
qed

text \<open>
  Nodes agree on the closest peers: the choice does not depend on the order in which a node
  learned its peers, as long as their identifiers are different numbers.
\<close>

theorem closest_peers_order_independent:
  assumes "is_hex_id t" and "\<forall>p \<in> set ids. is_hex_id p" and "distinct (map hex_number ids)"
    and "mset ids' = mset ids"
  shows "find_closest_peers t ids' k = find_closest_peers t ids k"
proof -
  have d: "distances t xs = map (\<lambda>p. (p, hex_number t XOR hex_number p)) xs" if "mset xs = mset ids" for xs
    using assms(2) that by (intro distances_hex [OF assms(1)]) (metis mset_eq_setD)
  have u: "x XOR y = x XOR w \<Longrightarrow> y = w" for x y w :: int by (metis xor.assoc xor.left_neutral xor_self_eq)
  have "distinct (map snd (distances t ids'))"
  proof -
    have "distinct (map hex_number ids')" using assms(3,4) by (metis mset_eq_imp_distinct_iff mset_map)
    then show ?thesis by (auto simp: d [OF assms(4)] distinct_map inj_on_def dest!: u)
  qed
  moreover have "mset (distances t ids') = mset (distances t ids)"
    using assms(4) by (simp add: d)
  ultimately show ?thesis by (simp add: find_closest_eq sort_key_perm)
qed

theorem closest_peers_order_independent_witness:
  "find_closest_peers ''a3'' [''B0'', ''0f''] 2 = find_closest_peers ''a3'' [''0f'', ''B0''] 2"
  by (rule closest_peers_order_independent) (simp_all add: is_hex_id_def hex_value_def hex_number_def)

text \<open>
  Removing a dead peer: the reported chunks are exactly those whose holder list had the peer,
  afterwards no holder list has it (lists name a peer once), and every other holder stays, in order.
\<close>

theorem removed_peer_holds_nothing:
  assumes "dict_ok t" and "\<forall>(h, ps) \<in> set t. distinct ps" and "remove_peer_from_all pid t = (affected, t')"
  shows "(\<forall>h. h \<in> set affected \<longleftrightarrow> pid \<in> set (get_holders t h)) \<and>
     (\<forall>h. get_holders t' h = filter (\<lambda>p. p \<noteq> pid) (get_holders t h))"
proof (intro conjI allI)
  fix h
  have a: "affected = dict_keys (filter (\<lambda>(h, ps). pid \<in> set ps) t)"
    using remove_peer_affected [of pid t] assms(3) by simp
  show "h \<in> set affected \<longleftrightarrow> pid \<in> set (get_holders t h)"
  proof (cases "dict_get t h")
    case None
    then have "h \<notin> fst ` set t" by (simp only: map_of_eq_None_iff not_False_eq_True)
    then have "h \<notin> set affected" by (force simp: a)
    then show ?thesis using None by (simp add: get_holders_def)
  next
    case (Some ps)
    then have m: "(h, ps) \<in> set t" by (rule dict_get_SomeD)
    have u: "(h, ps') \<in> set t \<Longrightarrow> ps' = ps" for ps'
      using dict_ok_get [OF assms(1)] Some by fastforce
    have "h \<in> set affected \<longleftrightarrow> (\<exists>ps'. (h, ps') \<in> set t \<and> pid \<in> set ps')" by (auto simp: a image_iff)
    then have "h \<in> set affected \<longleftrightarrow> pid \<in> set ps" using m u by blast
    then show ?thesis using Some by (simp add: get_holders_def)
  qed
  show "get_holders t' h = filter (\<lambda>p. p \<noteq> pid) (get_holders t h)"
    using remove_peer_get [of pid t h] assms(2,3)
    by (cases "dict_get t h") (auto simp: get_holders_def distinct_remove1_removeAll removeAll_filter_not_eq
        eq_commute [of pid] dest!: dict_get_SomeD)
qed

theorem removed_peer_holds_nothing_witness:
  "get_holders (snd (remove_peer_from_all ''p'' [(''c'', [''q'', ''p'']), (''d'', [''q''])])) ''c'' = [''q'']"
  using removed_peer_holds_nothing [of "[(''c'', [''q'', ''p'']), (''d'', [''q''])]" "''p''"
      "[''c'']" "[(''c'', [''q'']), (''d'', [''q''])]"]
  by (simp add: dict_ok_def get_holders_def)

text \<open>
  A lookup answers from the table when the chunk has holders there, and otherwise with at most
  three peers, every one alive, none twice; it comes back empty only when no peer alive has a
  valid identifier.
\<close>

theorem lookup_falls_back_to_alive:
  assumes "dict_ok (ns_peers st)" and "rs = find_chunk_holders now st t h" and "get_holders t h = []"
  shows "length rs \<le> 3 \<and> distinct rs \<and> set rs \<subseteq> fst ` set (get_alive_peers now 15 st) \<and>
     (rs = [] \<longleftrightarrow> (\<forall>nid \<in> fst ` set (get_alive_peers now 15 st). \<forall>d. xor_distance h nid \<noteq> Inr d))"
proof -
  let ?ids = "dict_keys (get_alive_peers now 15 st)"
  have rs: "rs = map fst (find_closest_peers h ?ids 3)"
    using assms(2,3) by (simp add: find_chunk_holders_def Let_def)
  have "distinct ?ids" using assms(1) by (simp add: get_alive_peers_def dict_ok_def distinct_map_filter)
  then have "distinct rs" unfolding rs by (rule find_closest_distinct)
  moreover have "length rs = min 3 (length (filter (\<lambda>p. \<exists>d. xor_distance h p = Inr d) ?ids))"
    by (simp add: rs find_closest_length distances_ids [symmetric])
  then have "length rs \<le> 3 \<and> (length rs = 0 \<longleftrightarrow> length (filter (\<lambda>p. \<exists>d. xor_distance h p = Inr d) ?ids) = 0)"
    by linarith
  then have "length rs \<le> 3 \<and> (rs = [] \<longleftrightarrow> (\<forall>nid \<in> fst ` set (get_alive_peers now 15 st). \<forall>d. xor_distance h nid \<noteq> Inr d))"
    unfolding length_0_conv filter_empty_conv by auto
  moreover have "set rs \<subseteq> fst ` set (get_alive_peers now 15 st)"
    unfolding rs using find_closest_ids [of _ h ?ids 3] by auto
  ultimately show ?thesis by blast
qed

theorem lookup_falls_back_to_alive_witness:
  "length (find_chunk_holders 5 example_node [] ''a3'') \<le> 3"
proof -
  have "dict_ok (ns_peers example_node)" using example_node_ok by (simp add: node_ok_def)
  from lookup_falls_back_to_alive [OF this refl, of "[]" "''a3''" 5] show ?thesis by (simp add: get_holders_def)
qed

end
