(* ===== verification/Replication.thy ===== *)
theory Replication
  imports Chat Dht "HOL-Library.Sublist"
begin

section \<open>Choosing peers and replicating chunks (backend/strategies, backend/advanced/self\_healing.py)\<close>

text \<open>
  The scores of the peers, the choice of the targets of a chunk, the engine that sends the chunks
  of a file to them, and the manager that replaces lost copies. The state is that of a running
  node, its chunk store and its routing table. Scores are real numbers; \<open>r3\<close> and \<open>r4\<close> stand for
  \<^verbatim>\<open>round(x, 3)\<close> and \<^verbatim>\<open>round(x, 4)\<close>.
\<close>

subsection \<open>\<^verbatim>\<open>selector.py\<close>\<close>

definition normalize :: "real list \<Rightarrow> real list" where
  "normalize values =
     (if values = [] then []
      else
        let mn = Min (set values); mx = Max (set values)
        in if mx = mn then replicate (length values) (1 / 2)
           else map (\<lambda>v. (v - mn) / (mx - mn)) values)"

record peer_details =
  pd_free_space :: int
  pd_uptime :: real
  pd_latency :: real
  pd_fs_norm :: real
  pd_up_norm :: real
  pd_lat_norm :: real

definition score_peers ::
    "(real \<Rightarrow> real) \<Rightarrow> (real \<Rightarrow> real) \<Rightarrow> (string, peer_info) dict \<Rightarrow> (string \<times> real \<times> peer_details) list" where
  "score_peers r3 r4 peers =
     (if peers = [] then []
      else
        let infos = map snd peers;
            fs_norm = normalize (map (\<lambda>p. real_of_int (pi_free_space p)) infos);
            up_norm = normalize (map pi_uptime infos);
            lat_norm = normalize (map pi_latency infos);
            results = map (\<lambda>i. let p = infos ! i in
                (dict_keys peers ! i, r4 (fs_norm ! i + up_norm ! i - lat_norm ! i),
                 \<lparr>pd_free_space = pi_free_space p, pd_uptime = pi_uptime p, pd_latency = pi_latency p,
                  pd_fs_norm = r3 (fs_norm ! i), pd_up_norm = r3 (up_norm ! i), pd_lat_norm = r3 (lat_norm ! i)\<rparr>))
              [0..<length peers]
        in sort_key (\<lambda>(pid, score, details). - score) results)"

definition select_best_peers ::
    "(real \<Rightarrow> real) \<Rightarrow> (real \<Rightarrow> real) \<Rightarrow> real \<Rightarrow> node_state \<Rightarrow> int \<Rightarrow> string list" where
  "select_best_peers r3 r4 now st k =
     (let peers = get_alive_peers now 15 st
      in if peers = [] then [] else map fst (prefix_to k (score_peers r3 r4 peers)))"

subsection \<open>\<^verbatim>\<open>replication.py\<close>\<close>

record repl_state = node_net +
  rp_store :: local_store
  rp_routing :: routing_table

text \<open>What the engine is given: the environment, the network, the clock, the two roundings, and \<open>k\<close>.\<close>

record repl_env =
  re_env :: net_env
  re_dial :: "string \<Rightarrow> int \<Rightarrow> message option option"
  re_now :: real
  re_round3 :: "real \<Rightarrow> real"
  re_round4 :: "real \<Rightarrow> real"
  re_k :: int

definition append_new :: "'a list \<Rightarrow> 'a list \<Rightarrow> 'a list" where
  "append_new xs combined = fold (\<lambda>x acc. if x \<in> set acc then acc else acc @ [x]) xs combined"

definition select_targets :: "repl_env \<Rightarrow> node_state \<Rightarrow> string \<Rightarrow> string list" where
  "select_targets R st chunk_hash =
     (let peers = get_alive_peers (re_now R) 15 st
      in if peers = [] then []
         else
           let heuristic_top = map fst (prefix_to (re_k R * 2) (score_peers (re_round3 R) (re_round4 R) peers));
               xor_top = map fst (find_closest_peers chunk_hash (dict_keys peers) (re_k R))
           in prefix_to (re_k R) (append_new heuristic_top (append_new xor_top [])))"

text \<open>
  Sending one message over the registered connection, or over a new one to the address \<open>peer\<close>
  names. Exceptions of \<^verbatim>\<open>connect_to_peer\<close> pass; those of \<^verbatim>\<open>send\<close> are caught.
\<close>

definition send_or_dial ::
    "repl_env \<Rightarrow> string \<Rightarrow> peer_info option \<Rightarrow> message \<Rightarrow> 'a node_net_scheme \<Rightarrow> bool res \<times> 'a node_net_scheme" where
  "send_or_dial R peer_id peer m S =
     (let (conn, S1) =
            (case dict_get (nt_connections S) peer_id of
               Some h \<Rightarrow> (Inr (Some h), S)
             | None \<Rightarrow>
                 (case peer of
                    None \<Rightarrow> (Inr None, S)
                  | Some p \<Rightarrow> dial_peer (re_env R) (re_dial R) (re_now R) (pi_ip p) (pi_tcp_port p) S))
      in case conn of
           Inl e \<Rightarrow> (Inl e, S1)
         | Inr None \<Rightarrow> (Inr False, S1)
         | Inr (Some h) \<Rightarrow>
             let (r, S2) = conn_send (ne_codec (re_env R)) h m S1
             in (Inr (case r of Inr _ \<Rightarrow> True | Inl _ \<Rightarrow> False), S2))"

definition send_chunk_to_peer ::
    "repl_env \<Rightarrow> string \<Rightarrow> chunk_info \<Rightarrow> bytes \<Rightarrow> string \<Rightarrow> 'a node_net_scheme \<Rightarrow> bool res \<times> 'a node_net_scheme" where
  "send_chunk_to_peer R peer_id info data fh S =
     send_or_dial R peer_id (get_peer (nt_node S) peer_id)
       (store_chunk_msg (re_now R) (ns_node_id (nt_node S)) (ci_hash info) data fh) S"

fun send_to_targets ::
    "repl_env \<Rightarrow> chunk_info \<Rightarrow> bytes \<Rightarrow> string \<Rightarrow> string list \<Rightarrow> string list \<Rightarrow> 'a node_net_scheme \<Rightarrow>
     string list res \<times> 'a node_net_scheme" where
  "send_to_targets R info data fh [] replicated_to S = (Inr replicated_to, S)"
| "send_to_targets R info data fh (pid # rest) replicated_to S =
     (let (success, S') = send_chunk_to_peer R pid info data fh S
      in case success of
           Inl e \<Rightarrow> (Inl e, S')
         | Inr ok \<Rightarrow> send_to_targets R info data fh rest (if ok then replicated_to @ [pid] else replicated_to) S')"

record repl_result =
  rr_stored_locally :: bool
  rr_replicated_to :: "string list"
  rr_total_copies :: "nat option"

definition store_locally :: "chunk_info \<Rightarrow> bytes \<Rightarrow> repl_state \<Rightarrow> repl_state" where
  "store_locally info data S =
     S\<lparr>rp_store := save_chunk (ci_hash info) data (rp_store S),
       nt_node := register_chunk (ci_hash info) (ci_hash info) (nt_node S)\<rparr>"

definition replicate_chunk ::
    "repl_env \<Rightarrow> string \<Rightarrow> chunk_info \<times> bytes \<Rightarrow> repl_state \<Rightarrow> repl_result res \<times> repl_state" where
  "replicate_chunk R fh = (\<lambda>(info, data) S.
     let S1 = store_locally info data S;
         targets = select_targets R (nt_node S1) (ci_hash info)
     in if targets = [] then (Inr \<lparr>rr_stored_locally = True, rr_replicated_to = [], rr_total_copies = None\<rparr>, S1)
        else
          let (sent, S2) = send_to_targets R info data fh (prefix_to (re_k R) targets) [] S1
          in case sent of
               Inl e \<Rightarrow> (Inl e, S2)
             | Inr to \<Rightarrow>
                 (Inr \<lparr>rr_stored_locally = True, rr_replicated_to = to, rr_total_copies = Some (1 + length to)\<rparr>,
                  S2\<lparr>rp_routing := assign_chunk (ci_hash info) (ns_node_id (nt_node S2) # to) (rp_routing S2)\<rparr>))"

fun replicate_loop ::
    "repl_env \<Rightarrow> string \<Rightarrow> (chunk_info \<times> bytes) list \<Rightarrow> (string, repl_result) dict \<Rightarrow> repl_state \<Rightarrow>
     (string, repl_result) dict res \<times> repl_state" where
  "replicate_loop R fh [] results S = (Inr results, S)"
| "replicate_loop R fh (c # rest) results S =
     (let (r, S') = replicate_chunk R fh c S
      in case r of
           Inl e \<Rightarrow> (Inl e, S')
         | Inr res \<Rightarrow> replicate_loop R fh rest (dict_set (ci_hash (fst c)) res results) S')"

definition replicate_chunks ::
    "repl_env \<Rightarrow> file_manifest \<Rightarrow> bytes list \<Rightarrow> repl_state \<Rightarrow> (string, repl_result) dict res \<times> repl_state" where
  "replicate_chunks R m chunk_data_list S = replicate_loop R (file_hash m) (zip (chunks m) chunk_data_list) [] S"

subsection \<open>\<^verbatim>\<open>self_healing.py\<close>\<close>

text \<open>The scan: the chunks with too few alive holders, whose entries are cut down to these.\<close>

fun find_under_replicated ::
    "int \<Rightarrow> string list \<Rightarrow> routing_table \<Rightarrow> routing_table \<Rightarrow> (string \<times> string list) list \<times> routing_table" where
  "find_under_replicated k alive_ids [] t = ([], t)"
| "find_under_replicated k alive_ids ((chunk_hash, holders) # rest) t =
     (let alive_holders = filter (\<lambda>h. h \<in> set alive_ids) holders
      in if int (length alive_holders) < k
         then let (low, t') = find_under_replicated k alive_ids rest (assign_chunk chunk_hash alive_holders t)
              in ((chunk_hash, alive_holders) # low, t')
         else find_under_replicated k alive_ids rest t)"

fun heal_targets ::
    "repl_env \<Rightarrow> (string, peer_info) dict \<Rightarrow> string \<Rightarrow> bytes \<Rightarrow> string list \<Rightarrow> string list \<Rightarrow> 'a node_net_scheme \<Rightarrow>
     string list res \<times> 'a node_net_scheme" where
  "heal_targets R alive_peers chunk_hash data [] holders S = (Inr holders, S)"
| "heal_targets R alive_peers chunk_hash data (pid # rest) holders S =
     (let (success, S') = send_or_dial R pid (dict_get alive_peers pid)
            (store_chunk_msg (re_now R) (ns_node_id (nt_node S)) chunk_hash data []) S
      in case success of
           Inl e \<Rightarrow> (Inl e, S')
         | Inr ok \<Rightarrow> heal_targets R alive_peers chunk_hash data rest (if ok then holders @ [pid] else holders) S')"

definition heal_chunk ::
    "repl_env \<Rightarrow> (string, peer_info) dict \<Rightarrow> string \<times> string list \<Rightarrow> repl_state \<Rightarrow> unit res \<times> repl_state" where
  "heal_chunk R alive_peers = (\<lambda>(chunk_hash, alive_holders) S.
     let needed = re_k R - int (length alive_holders)
     in if needed \<le> 0 then (Inr (), S)
        else
          let (chunk_data, st) = load_chunk (rp_store S) chunk_hash;
              S1 = S\<lparr>rp_store := st\<rparr>
          in case chunk_data of
               None \<Rightarrow> (Inr (), S1)
             | Some data \<Rightarrow>
                 let candidates = filter (\<lambda>pid. pid \<notin> set alive_holders) (dict_keys alive_peers)
                 in if candidates = [] then (Inr (), S1)
                    else
                      let (r, S2) = heal_targets R alive_peers chunk_hash data
                                      (map fst (find_closest_peers chunk_hash candidates needed)) alive_holders S1
                      in case r of
                           Inl e \<Rightarrow> (Inl e, S2)
                         | Inr holders \<Rightarrow> (Inr (), S2\<lparr>rp_routing := assign_chunk chunk_hash holders (rp_routing S2)\<rparr>))"

fun heal_loop ::
    "repl_env \<Rightarrow> (string, peer_info) dict \<Rightarrow> (string \<times> string list) list \<Rightarrow> repl_state \<Rightarrow> unit res \<times> repl_state" where
  "heal_loop R alive_peers [] S = (Inr (), S)"
| "heal_loop R alive_peers (u # rest) S =
     (let (r, S') = heal_chunk R alive_peers u S
      in case r of Inl e \<Rightarrow> (Inl e, S') | Inr _ \<Rightarrow> heal_loop R alive_peers rest S')"

definition check_and_heal :: "repl_env \<Rightarrow> repl_state \<Rightarrow> unit res \<times> repl_state" where
  "check_and_heal R S =
     (let alive_peers = get_alive_peers (re_now R) 15 (nt_node S);
          (low, t) = find_under_replicated (re_k R) (dict_keys alive_peers @ [ns_node_id (nt_node S)])
                         (routing_get_all (rp_routing S)) (rp_routing S)
      in heal_loop R alive_peers low (S\<lparr>rp_routing := t\<rparr>))"

subsection \<open>Scores\<close>

lemma length_normalize [simp]: "length (normalize values) = length values"
  by (simp add: normalize_def Let_def)

lemma normalize_nth:
  "i < length values \<Longrightarrow> normalize values ! i =
     (if Max (set values) = Min (set values) then 1 / 2
      else (values ! i - Min (set values)) / (Max (set values) - Min (set values)))"
  by (cases "values = []") (simp_all add: normalize_def Let_def)

lemma normalize_bounds:
  assumes "i < length values"
  shows "0 \<le> normalize values ! i \<and> normalize values ! i \<le> 1"
proof -
  have b: "Min (set values) \<le> values ! i" "values ! i \<le> Max (set values)" using assms by simp_all
  show ?thesis
  proof (cases "Max (set values) = Min (set values)")
    case False
    then have "0 < Max (set values) - Min (set values)" using b by linarith
    then show ?thesis using False b by (simp add: normalize_nth [OF assms])
  qed (simp add: normalize_nth [OF assms])
qed

lemma normalize_mono:
  assumes "i < length values" and "j < length values" and "values ! i \<le> values ! j"
  shows "normalize values ! i \<le> normalize values ! j"
proof -
  have "Min (set values) \<le> values ! i" "values ! i \<le> Max (set values)" using assms(1) by simp_all
  then show ?thesis
    using assms(3) by (simp add: normalize_nth [OF assms(1)] normalize_nth [OF assms(2)] divide_right_mono)
qed

definition raw_score :: "(string, peer_info) dict \<Rightarrow> nat \<Rightarrow> real" where
  "raw_score peers i =
     normalize (map (\<lambda>p. real_of_int (pi_free_space p)) (map snd peers)) ! i +
     normalize (map pi_uptime (map snd peers)) ! i - normalize (map pi_latency (map snd peers)) ! i"

lemma raw_score_bounds: "i < length peers \<Longrightarrow> -1 \<le> raw_score peers i \<and> raw_score peers i \<le> 2"
  using normalize_bounds [of i "map (\<lambda>p. real_of_int (pi_free_space p)) (map snd peers)"]
    normalize_bounds [of i "map pi_uptime (map snd peers)"] normalize_bounds [of i "map pi_latency (map snd peers)"]
  by (simp add: raw_score_def)

lemma raw_score_mono:
  assumes "i < length peers" and "j < length peers"
    and "pi_free_space (snd (peers ! i)) \<le> pi_free_space (snd (peers ! j))"
    and "pi_uptime (snd (peers ! i)) \<le> pi_uptime (snd (peers ! j))"
    and "pi_latency (snd (peers ! j)) \<le> pi_latency (snd (peers ! i))"
  shows "raw_score peers i \<le> raw_score peers j"
  using normalize_mono [of i "map (\<lambda>p. real_of_int (pi_free_space p)) (map snd peers)" j]
    normalize_mono [of i "map pi_uptime (map snd peers)" j] normalize_mono [of j "map pi_latency (map snd peers)" i] assms
  by (simp add: raw_score_def)

definition id_scores :: "(string \<times> real \<times> peer_details) list \<Rightarrow> (string \<times> real) list" where
  "id_scores rs = map (\<lambda>(pid, score, d). (pid, score)) rs"

lemma map_insort_key: "map g (insort_key (\<lambda>x. f (g x)) x xs) = insort_key f (g x) (map g xs)"
  by (induction xs) simp_all

lemma map_sort_key: "map g (sort_key (\<lambda>x. f (g x)) xs) = sort_key f (map g xs)"
  by (induction xs) (simp_all add: map_insort_key)

lemma score_peers_eq:
  "id_scores (score_peers r3 r4 peers) =
     sort_key (\<lambda>(pid, score). - score) (map (\<lambda>i. (dict_keys peers ! i, r4 (raw_score peers i))) [0..<length peers])"
proof (cases "peers = []")
  case True
  then show ?thesis by (simp add: score_peers_def id_scores_def)
next
  case False
  have key: "(\<lambda>(pid, score, d). - score) = (\<lambda>x. (\<lambda>(pid, score). - score) ((\<lambda>(pid, score, d). (pid, score)) x))"
    for score :: real by (simp add: fun_eq_iff)
  have "id_scores (sort_key (\<lambda>(pid, score, d). - score) xs) = sort_key (\<lambda>(pid, score). - score) (id_scores xs)" for xs
    unfolding id_scores_def key by (rule map_sort_key)
  then show ?thesis
    using False by (simp add: score_peers_def Let_def id_scores_def raw_score_def cong: map_cong)
qed

text \<open>
  The scores of the peers: one per peer, in descending order, between -1 and 2, and a peer that is
  at least as good as another in space, uptime and latency never scores lower.
\<close>

theorem score_peers_correct:
  assumes "mono r4" and "r4 (-1) = -1" and "r4 2 = 2"
  shows "let rs = id_scores (score_peers r3 r4 peers) in
     mset (map fst rs) = mset (dict_keys peers) \<and> sorted (rev (map snd rs)) \<and>
     (\<forall>(pid, s) \<in> set rs. -1 \<le> s \<and> s \<le> 2) \<and>
     (\<exists>score. mset rs = mset (map (\<lambda>i. (dict_keys peers ! i, score i)) [0..<length peers]) \<and>
        (\<forall>i j. i < length peers \<and> j < length peers \<and>
           pi_free_space (snd (peers ! i)) \<le> pi_free_space (snd (peers ! j)) \<and>
           pi_uptime (snd (peers ! i)) \<le> pi_uptime (snd (peers ! j)) \<and>
           pi_latency (snd (peers ! j)) \<le> pi_latency (snd (peers ! i)) \<longrightarrow> score i \<le> score j))"
proof -
  let ?xs = "map (\<lambda>i. (dict_keys peers ! i, r4 (raw_score peers i))) [0..<length peers]"
  define rs where "rs = id_scores (score_peers r3 r4 peers)"
  have rs: "rs = sort_key (\<lambda>(pid, score). - score) ?xs" by (simp add: rs_def score_peers_eq)
  have m: "mset rs = mset ?xs" by (simp add: rs)
  have ids: "mset (map fst rs) = mset (dict_keys peers)"
  proof -
    have "map fst ?xs = dict_keys peers" by (rule nth_equalityI) simp_all
    then show ?thesis using m by (metis mset_map)
  qed
  have "sorted (map (\<lambda>(pid, score). - score) rs)" by (simp add: rs)
  then have sorted: "sorted (rev (map snd rs))"
    by (simp add: sorted_wrt_rev sorted_wrt_map case_prod_beta)
  have bounds: "\<forall>(pid, s) \<in> set rs. -1 \<le> s \<and> s \<le> 2"
  proof -
    have "-1 \<le> r4 (raw_score peers i) \<and> r4 (raw_score peers i) \<le> 2" if "i < length peers" for i
      using raw_score_bounds [OF that] assms monoD [OF assms(1), of "-1" "raw_score peers i"]
        monoD [OF assms(1), of "raw_score peers i" 2] by simp
    then show ?thesis by (auto simp: rs)
  qed
  have mono: "\<forall>i j. i < length peers \<and> j < length peers \<and>
           pi_free_space (snd (peers ! i)) \<le> pi_free_space (snd (peers ! j)) \<and>
           pi_uptime (snd (peers ! i)) \<le> pi_uptime (snd (peers ! j)) \<and>
           pi_latency (snd (peers ! j)) \<le> pi_latency (snd (peers ! i)) \<longrightarrow>
           r4 (raw_score peers i) \<le> r4 (raw_score peers j)"
    using raw_score_mono monoD [OF assms(1)] by blast
  show ?thesis
    unfolding Let_def rs_def [symmetric]
    by (intro conjI ids sorted bounds exI [of _ "\<lambda>i. r4 (raw_score peers i)"] m mono)
qed

theorem score_peers_correct_witness:
  "let peers = [(''aa'', example_peer), (''bb'', example_peer)] in
   mset (map fst (id_scores (score_peers id id peers))) = mset [''aa'', ''bb'']"
  using score_peers_correct [of id id "[(''aa'', example_peer), (''bb'', example_peer)]"]
  by (simp add: Let_def mono_def)

subsection \<open>Targets\<close>

lemma append_new_Cons:
  "append_new (x # xs) c = append_new xs (if x \<in> set c then c else c @ [x])"
  by (simp add: append_new_def)

lemma append_new_Nil [simp]: "append_new [] c = c"
  by (simp add: append_new_def)

lemma set_append_new: "set (append_new xs c) = set c \<union> set xs"
  by (induction xs arbitrary: c) (auto simp: append_new_Cons)

lemma distinct_append_new: "distinct c \<Longrightarrow> distinct (append_new xs c)"
  by (induction xs arbitrary: c) (auto simp: append_new_Cons)

lemma append_new_prefix: "\<exists>zs. append_new xs c = c @ zs"
proof (induction xs arbitrary: c)
  case (Cons x xs)
  then obtain zs zs' where "append_new xs c = c @ zs" "append_new xs (c @ [x]) = (c @ [x]) @ zs'" by blast
  then show ?case by (auto simp: append_new_Cons)
qed simp

lemma append_new_known: "set xs \<subseteq> set c \<Longrightarrow> append_new xs c = c"
  by (induction xs) (auto simp: append_new_Cons)

lemma append_new_distinct: "distinct (c @ xs) \<Longrightarrow> append_new xs c = c @ xs"
  by (induction xs arbitrary: c) (auto simp: append_new_Cons)

lemma score_peers_ids: "set (map fst (score_peers r3 r4 peers)) \<subseteq> set (dict_keys peers)"
proof -
  have "map fst (id_scores (score_peers r3 r4 peers)) = map fst (score_peers r3 r4 peers)"
    by (simp add: id_scores_def case_prod_beta comp_def)
  moreover have "set (map fst (id_scores (score_peers r3 r4 peers))) \<subseteq> set (dict_keys peers)"
    by (auto simp: score_peers_eq)
  ultimately show ?thesis by simp
qed

lemma select_targets_ok:
  assumes "0 \<le> re_k R"
  shows "distinct (select_targets R st h)" and "length (select_targets R st h) \<le> nat (re_k R)"
    and "set (select_targets R st h) \<subseteq> set (dict_keys (get_alive_peers (re_now R) 15 st))"
proof -
  let ?peers = "get_alive_peers (re_now R) 15 st"
  have "distinct (append_new xs (append_new ys []))" for xs ys :: "string list"
    by (intro distinct_append_new) simp
  then show "distinct (select_targets R st h)"
    by (simp add: select_targets_def Let_def distinct_prefix_to)
  show "length (select_targets R st h) \<le> nat (re_k R)"
    using assms by (simp add: select_targets_def Let_def prefix_to_def)
  have "set (map fst (prefix_to n (score_peers r3 r4 ?peers))) \<subseteq> set (dict_keys ?peers)" for n r3 r4
    using set_prefix_to [of n "score_peers r3 r4 ?peers"] score_peers_ids [of r3 r4 ?peers] by auto
  moreover have "set (map fst (find_closest_peers h (dict_keys ?peers) n)) \<subseteq> set (dict_keys ?peers)" for n
    using find_closest_ids [of _ h "dict_keys ?peers" n] by auto
  ultimately have sub: "set (append_new (map fst (prefix_to (re_k R * 2) (score_peers (re_round3 R) (re_round4 R) ?peers)))
        (append_new (map fst (find_closest_peers h (dict_keys ?peers) (re_k R))) [])) \<subseteq> set (dict_keys ?peers)"
    by (simp add: set_append_new)
  show "set (select_targets R st h) \<subseteq> set (dict_keys ?peers)"
    using subset_trans [OF set_prefix_to sub] by (simp add: select_targets_def Let_def)
qed

text \<open>
  The heuristic score never decides where a chunk goes: as long as the identifiers of the peers
  and the chunk's hash are hexadecimal, the targets are exactly the peers closest by XOR
  distance, which \<^verbatim>\<open>find_best_storage_peers\<close> returns without any score.
\<close>

theorem heuristic_never_decides:
  assumes "0 \<le> re_k R" and "dict_ok (ns_peers st)" and "is_hex_id h"
    and "\<forall>nid \<in> set (dict_keys (get_alive_peers (re_now R) 15 st)). is_hex_id nid"
  shows "select_targets R st h = find_best_storage_peers (re_now R) st h (re_k R)"
proof -
  define peers where "peers = get_alive_peers (re_now R) 15 st"
  define top where "top = map fst (find_closest_peers h (dict_keys peers) (re_k R))"
  define heur where "heur = map fst (prefix_to (re_k R * 2) (score_peers (re_round3 R) (re_round4 R) peers))"
  have ids: "distinct (dict_keys peers)"
    using assms(2) dict_ok_filter [OF assms(2)] by (simp add: peers_def get_alive_peers_def dict_ok_def)
  have d: "distinct top" unfolding top_def by (rule find_closest_distinct [OF ids])
  have dist: "distances h (dict_keys peers) = map (\<lambda>p. (p, hex_number h XOR hex_number p)) (dict_keys peers)"
    using assms(3,4) by (simp add: distances_hex peers_def)
  have len: "length top = min (nat (re_k R)) (length peers)"
    using find_closest_length [OF assms(1), of h "dict_keys peers"] by (simp add: top_def dist)
  have top_set: "set top \<subseteq> set (dict_keys peers)"
    using find_closest_ids [of _ h "dict_keys peers" "re_k R"] by (auto simp: top_def)
  have heur_set: "set heur \<subseteq> set (dict_keys peers)"
    using set_prefix_to [of "re_k R * 2" "score_peers (re_round3 R) (re_round4 R) peers"]
      score_peers_ids [of "re_round3 R" "re_round4 R" peers] by (auto simp: heur_def)
  have "append_new top [] = top" using d append_new_distinct [of "[]" top] by simp
  moreover have "prefix_to (re_k R) (append_new heur top) = top"
  proof (cases "nat (re_k R) \<le> length peers")
    case True
    obtain zs where "append_new heur top = top @ zs" using append_new_prefix by blast
    then show ?thesis using True len assms(1) by (simp add: prefix_to_def)
  next
    case False
    then have "set top = set (dict_keys peers)"
      using len top_set distinct_card [OF d] distinct_card [OF ids] by (intro card_subset_eq) simp_all
    then show ?thesis using heur_set False len assms(1) by (simp add: append_new_known prefix_to_def)
  qed
  ultimately show ?thesis
    by (simp add: select_targets_def find_best_storage_peers_def Let_def top_def heur_def peers_def)
qed

definition hex_node :: node_state where
  "hex_node = (new_node_state 0 ''a0'' ''a0'')
     \<lparr>ns_peers := [(''0f'', example_peer\<lparr>pi_node_id := ''0f''\<rparr>), (''b0'', example_peer\<lparr>pi_node_id := ''b0''\<rparr>)]\<rparr>"

definition example_engine :: repl_env where
  "example_engine =
     \<lparr>re_env = \<lparr>ne_codec = table_codec [store_chunk_msg 1 ''a0'' ''a3'' [7] ''f''], ne_hmac = (\<lambda>k d. []), ne_swarm_key = ''k''\<rparr>,
      re_dial = (\<lambda>ip port. None), re_now = 1, re_round3 = id, re_round4 = id, re_k = 1\<rparr>"

theorem heuristic_never_decides_witness:
  "select_targets example_engine hex_node ''a3'' = find_best_storage_peers 1 hex_node ''a3'' 1"
proof -
  have "is_hex_id ''a3''" "is_hex_id ''0f''" "is_hex_id ''b0''" by (simp_all add: is_hex_id_def hex_value_def)
  then have "\<forall>nid \<in> set (dict_keys (get_alive_peers (re_now example_engine) 15 hex_node)). is_hex_id nid"
    by (auto simp: get_alive_peers_def hex_node_def)
  then show ?thesis
    using heuristic_never_decides [of example_engine hex_node "''a3''"]
    by (simp add: example_engine_def hex_node_def dict_ok_def is_hex_id_def hex_value_def)
qed

subsection \<open>What replication leaves behind\<close>

lemma dial_peer_more: "dial_peer E dial now ip port S = (r, S') \<Longrightarrow> node_net.more S' = node_net.more S"
  using dial_peer_effect by (fastforce simp: register_conn_def)

lemma conn_send_node_more: "conn_send C h m S = (r, S') \<Longrightarrow> node_net.more S' = node_net.more S"
  by (auto simp: conn_send_def split: sum.splits if_splits)

lemma send_or_dial_more: "send_or_dial R pid peer m S = (r, S') \<Longrightarrow> node_net.more S' = node_net.more S"
  by (auto simp: send_or_dial_def split: prod.splits option.splits sum.splits
      dest!: dial_peer_more conn_send_node_more)

lemma register_conn_id [simp]: "ns_node_id (nt_node (register_conn now nid h p S)) = ns_node_id (nt_node S)"
  by (simp add: register_conn_def add_peer_def Let_def)

lemma dial_peer_id: "dial_peer E dial now ip port S = (r, S') \<Longrightarrow> ns_node_id (nt_node S') = ns_node_id (nt_node S)"
  using dial_peer_effect by fastforce

lemma send_or_dial_id:
  "send_or_dial R pid peer m S = (r, S') \<Longrightarrow> ns_node_id (nt_node S') = ns_node_id (nt_node S)"
  by (auto simp: send_or_dial_def split: prod.splits option.splits sum.splits
      dest!: dial_peer_id conn_send_frame)

lemma send_to_targets_ok:
  assumes "send_to_targets R info data fh pids acc S = (r, S')"
  shows "node_net.more S' = node_net.more S \<and> ns_node_id (nt_node S') = ns_node_id (nt_node S) \<and>
     (\<forall>to. r = Inr to \<longrightarrow> (\<exists>sent. to = acc @ sent \<and> subseq sent pids))"
  using assms
proof (induction pids arbitrary: acc S)
  case Nil
  then show ?case by auto
next
  case (Cons pid pids)
  obtain ok S1 where s: "send_chunk_to_peer R pid info data fh S = (ok, S1)" by fastforce
  have S1: "node_net.more S1 = node_net.more S" "ns_node_id (nt_node S1) = ns_node_id (nt_node S)"
    using send_or_dial_more send_or_dial_id s by (auto simp: send_chunk_to_peer_def)
  show ?case
  proof (cases ok)
    case (Inl e)
    then show ?thesis using Cons.prems s S1 by auto
  next
    case (Inr b)
    then have "send_to_targets R info data fh pids (if b then acc @ [pid] else acc) S1 = (r, S')"
      using Cons.prems s by simp
    from Cons.IH [OF this] S1 show ?thesis
      by (cases b) (auto intro: subseq_Cons' simp: subseq_Cons2)
  qed
qed

lemma subseq_distinct: "subseq xs ys \<Longrightarrow> distinct ys \<Longrightarrow> distinct xs"
  by (induction xs ys rule: list_emb.induct) (auto dest: list_emb_set)

lemma subseq_set: "subseq xs ys \<Longrightarrow> set xs \<subseteq> set ys"
  by (induction xs ys rule: list_emb.induct) auto

lemma more_repl:
  "node_net.more S' = node_net.more S \<Longrightarrow> rp_store S' = rp_store S \<and> rp_routing S' = rp_routing S"
  by (cases S; cases S') simp

text \<open>The result of a chunk agrees with the routing table.\<close>

definition result_ok :: "int \<Rightarrow> repl_state \<Rightarrow> string \<Rightarrow> repl_result \<Rightarrow> bool" where
  "result_ok k S h res \<longleftrightarrow>
     rr_stored_locally res \<and> distinct (rr_replicated_to res) \<and> int (length (rr_replicated_to res)) \<le> k \<and>
     (case rr_total_copies res of
        None \<Rightarrow> rr_replicated_to res = []
      | Some n \<Rightarrow> n = 1 + length (rr_replicated_to res) \<and>
          get_holders (rp_routing S) h = ns_node_id (nt_node S) # rr_replicated_to res)"

lemma result_ok_cong:
  "ns_node_id (nt_node S') = ns_node_id (nt_node S) \<Longrightarrow>
   get_holders (rp_routing S') h = get_holders (rp_routing S) h \<Longrightarrow> result_ok k S' h res = result_ok k S h res"
  by (simp add: result_ok_def split: option.splits)

lemma store_locally_simps [simp]:
  "ns_node_id (nt_node (store_locally info d S)) = ns_node_id (nt_node S)"
  "rp_store (store_locally info d S) = save_chunk (ci_hash info) d (rp_store S)"
  "rp_routing (store_locally info d S) = rp_routing S"
  by (simp_all add: store_locally_def register_chunk_def)

lemma replicate_chunk_ok:
  assumes "0 \<le> re_k R" and "replicate_chunk R fh (info, d) S = (Inr res, S')"
  shows "rp_store S' = save_chunk (ci_hash info) d (rp_store S) \<and> ns_node_id (nt_node S') = ns_node_id (nt_node S) \<and>
     result_ok (re_k R) S' (ci_hash info) res \<and>
     (\<forall>h. h \<noteq> ci_hash info \<longrightarrow> get_holders (rp_routing S') h = get_holders (rp_routing S) h)"
proof -
  let ?S1 = "store_locally info d S"
  define targets where "targets = select_targets R (nt_node ?S1) (ci_hash info)"
  show ?thesis
  proof (cases "targets = []")
    case True
    then show ?thesis using assms by (auto simp: replicate_chunk_def targets_def Let_def result_ok_def)
  next
    case False
    obtain sent S2 where s: "send_to_targets R info d fh (prefix_to (re_k R) targets) [] ?S1 = (sent, S2)" by fastforce
    with False assms(2) obtain to where to: "sent = Inr to"
      by (cases sent) (auto simp: replicate_chunk_def targets_def Let_def)
    from send_to_targets_ok [OF s] to have S2: "rp_store S2 = rp_store ?S1" "rp_routing S2 = rp_routing ?S1"
      "ns_node_id (nt_node S2) = ns_node_id (nt_node S)" and sub: "subseq to (prefix_to (re_k R) targets)"
      using more_repl [of S2 ?S1] by auto
    have "distinct targets" unfolding targets_def by (rule select_targets_ok(1) [OF assms(1)])
    then have "distinct to" using subseq_distinct [OF sub] by (simp add: distinct_prefix_to)
    moreover have "int (length to) \<le> re_k R"
      using list_emb_length [OF sub] assms(1) by (simp add: prefix_to_def le_nat_iff)
    moreover have "res = \<lparr>rr_stored_locally = True, rr_replicated_to = to, rr_total_copies = Some (1 + length to)\<rparr>"
      "S' = S2\<lparr>rp_routing := assign_chunk (ci_hash info) (ns_node_id (nt_node S2) # to) (rp_routing S2)\<rparr>"
      using assms(2) False s to by (simp_all add: replicate_chunk_def targets_def Let_def)
    ultimately show ?thesis using S2 by (simp add: result_ok_def get_holders_def assign_get get_or_def)
  qed
qed

lemma replicate_loop_ok:
  assumes "0 \<le> re_k R" and "replicate_loop R fh cs results S = (Inr results', S')"
    and "\<forall>c \<in> set cs. \<forall>c' \<in> set cs. ci_hash (fst c) = ci_hash (fst c') \<longrightarrow> snd c = snd c'"
  shows "ns_node_id (nt_node S') = ns_node_id (nt_node S) \<and>
     (\<forall>c \<in> set cs. chunk_view (rp_store S') (ci_hash (fst c)) = Some (snd c) \<and>
        (\<exists>res. dict_get results' (ci_hash (fst c)) = Some res \<and> result_ok (re_k R) S' (ci_hash (fst c)) res)) \<and>
     (\<forall>h. h \<notin> (ci_hash \<circ> fst) ` set cs \<longrightarrow> chunk_view (rp_store S') h = chunk_view (rp_store S) h \<and>
        dict_get results' h = dict_get results h \<and> get_holders (rp_routing S') h = get_holders (rp_routing S) h)"
  using assms(2,3)
proof (induction cs arbitrary: results S)
  case Nil
  then show ?case by auto
next
  case (Cons c cs)
  obtain info d where c: "c = (info, d)" by fastforce
  obtain r S1 where s: "replicate_chunk R fh c S = (r, S1)" by fastforce
  with Cons.prems(1) obtain res where r: "r = Inr res" by (cases r) auto
  note one = replicate_chunk_ok [OF assms(1) s [unfolded r c]]
  have rest: "replicate_loop R fh cs (dict_set (ci_hash info) res results) S1 = (Inr results', S')"
    using Cons.prems(1) s r c by simp
  have "\<forall>x \<in> set cs. \<forall>y \<in> set cs. ci_hash (fst x) = ci_hash (fst y) \<longrightarrow> snd x = snd y"
    using Cons.prems(2) by (meson list.set_intros(2))
  note ih = Cons.IH [OF rest this]
  note ih_id = conjunct1 [OF ih] and ih_done = conjunct1 [OF conjunct2 [OF ih]]
    and ih_other = conjunct2 [OF conjunct2 [OF ih]]
  have here: "chunk_view (rp_store S') (ci_hash info) = Some d \<and>
      (\<exists>res. dict_get results' (ci_hash info) = Some res \<and> result_ok (re_k R) S' (ci_hash info) res)"
  proof (cases "ci_hash info \<in> (ci_hash \<circ> fst) ` set cs")
    case True
    then obtain c' where c': "c' \<in> set cs" "ci_hash (fst c') = ci_hash info" by auto
    have "c' \<in> set (c # cs)" "c \<in> set (c # cs)" using c'(1) by simp_all
    from Cons.prems(2) [rule_format, OF this] c'(2) have "snd c' = d" by (simp add: c)
    with bspec [OF ih_done c'(1)] show ?thesis unfolding c'(2) by (simp only:)
  next
    case False
    note o = mp [OF spec [OF ih_other] False]
    note o1 = conjunct1 [OF o] and o2 = conjunct1 [OF conjunct2 [OF o]] and o3 = conjunct2 [OF conjunct2 [OF o]]
    have "result_ok (re_k R) S' (ci_hash info) res"
      by (rule iffD2 [OF result_ok_cong [OF ih_id o3]]) (rule conjunct1 [OF conjunct2 [OF conjunct2 [OF one]]])
    moreover have "dict_get results' (ci_hash info) = Some res" by (simp add: o2)
    moreover have "chunk_view (rp_store S') (ci_hash info) = Some d"
      unfolding o1 conjunct1 [OF one] by (simp add: chunk_view_save)
    ultimately show ?thesis by blast
  qed
  have other: "chunk_view (rp_store S') h = chunk_view (rp_store S) h \<and> dict_get results' h = dict_get results h \<and>
      get_holders (rp_routing S') h = get_holders (rp_routing S) h"
    if "h \<notin> (ci_hash \<circ> fst) ` set (c # cs)" for h
  proof -
    have h: "h \<notin> (ci_hash \<circ> fst) ` set cs" "h \<noteq> ci_hash info" using that c by auto
    show ?thesis using mp [OF spec [OF ih_other] h(1)] one h(2) by (simp add: chunk_view_save)
  qed
  show ?case
  proof (intro conjI ballI allI impI)
    show "ns_node_id (nt_node S') = ns_node_id (nt_node S)" using ih_id one by simp
  next
    fix x assume "x \<in> set (c # cs)"
    then consider "x = c" | "x \<in> set cs" by auto
    then have x: "chunk_view (rp_store S') (ci_hash (fst x)) = Some (snd x) \<and>
      (\<exists>res. dict_get results' (ci_hash (fst x)) = Some res \<and> result_ok (re_k R) S' (ci_hash (fst x)) res)"
    proof cases
      case 1
      then show ?thesis using here by (simp add: c)
    next
      case 2
      then show ?thesis by (rule bspec [OF ih_done])
    qed
    show "chunk_view (rp_store S') (ci_hash (fst x)) = Some (snd x)" by (rule conjunct1 [OF x])
    show "\<exists>res. dict_get results' (ci_hash (fst x)) = Some res \<and> result_ok (re_k R) S' (ci_hash (fst x)) res"
      by (rule conjunct2 [OF x])
  qed (use other in blast)+
qed

text \<open>Without alive peers there is no target for any chunk, and the holder table is left as it is.\<close>

lemma replicate_loop_alone:
  assumes "get_alive_peers (re_now R) 15 (nt_node S) = []" and "replicate_loop R fh cs results S = (r, S')"
  shows "rp_routing S' = rp_routing S \<and> (\<exists>results'. r = Inr results' \<and>
     (\<forall>c \<in> set cs. dict_get results' (ci_hash (fst c)) =
        Some \<lparr>rr_stored_locally = True, rr_replicated_to = [], rr_total_copies = None\<rparr>) \<and>
     (\<forall>h. h \<notin> (ci_hash \<circ> fst) ` set cs \<longrightarrow> dict_get results' h = dict_get results h))"
  using assms
proof (induction cs arbitrary: results S)
  case (Cons c cs)
  let ?S1 = "store_locally (fst c) (snd c) S"
  let ?alone = "\<lparr>rr_stored_locally = True, rr_replicated_to = [], rr_total_copies = None\<rparr>"
  have alone: "get_alive_peers (re_now R) 15 (nt_node ?S1) = []"
    using Cons.prems(1) by (simp add: store_locally_def register_chunk_def get_alive_peers_def)
  then have "replicate_chunk R fh c S = (Inr ?alone, ?S1)"
    by (cases c) (simp add: replicate_chunk_def select_targets_def)
  then have "replicate_loop R fh cs (dict_set (ci_hash (fst c)) ?alone results) ?S1 = (r, S')" using Cons.prems(2) by simp
  from Cons.IH [OF alone this] show ?case by (cases "ci_hash (fst c) \<in> (ci_hash \<circ> fst) ` set cs") force+
qed auto

text \<open>
  C27. After a replication that raises no exception, every chunk of the file is in the local store with
  its data, and its result names at most \<open>k\<close> distinct peers. If the engine had targets for the chunk, the result has
  the total and the routing table lists the node itself and exactly these peers as its holders. If it had none, the result names
  nobody and has no total, and the entry is not written: on a node without alive peers this is so for every chunk, and the whole
  routing table stays as it was.
\<close>

theorem replication_bookkeeping:
  assumes "0 \<le> re_k R" and "replicate_chunks R m datas S = (Inr results, S')"
    and "\<forall>c \<in> set (zip (chunks m) datas). \<forall>c' \<in> set (zip (chunks m) datas).
      ci_hash (fst c) = ci_hash (fst c') \<longrightarrow> snd c = snd c'"
  shows "(\<forall>(info, d) \<in> set (zip (chunks m) datas).
     fst (load_chunk (rp_store S') (ci_hash info)) = Some d \<and>
     (\<exists>res. dict_get results (ci_hash info) = Some res \<and> rr_stored_locally res \<and> distinct (rr_replicated_to res) \<and>
        int (length (rr_replicated_to res)) \<le> re_k R \<and>
        (case rr_total_copies res of
           None \<Rightarrow> rr_replicated_to res = []
         | Some n \<Rightarrow> n = 1 + length (rr_replicated_to res) \<and>
             get_holders (rp_routing S') (ci_hash info) = ns_node_id (nt_node S') # rr_replicated_to res))) \<and>
     (get_alive_peers (re_now R) 15 (nt_node S) = [] \<longrightarrow> rp_routing S' = rp_routing S \<and>
        (\<forall>(info, d) \<in> set (zip (chunks m) datas). dict_get results (ci_hash info) =
           Some \<lparr>rr_stored_locally = True, rr_replicated_to = [], rr_total_copies = None\<rparr>))"
proof (intro conjI impI)
  show "\<forall>(info, d) \<in> set (zip (chunks m) datas).
     fst (load_chunk (rp_store S') (ci_hash info)) = Some d \<and>
     (\<exists>res. dict_get results (ci_hash info) = Some res \<and> rr_stored_locally res \<and> distinct (rr_replicated_to res) \<and>
        int (length (rr_replicated_to res)) \<le> re_k R \<and>
        (case rr_total_copies res of
           None \<Rightarrow> rr_replicated_to res = []
         | Some n \<Rightarrow> n = 1 + length (rr_replicated_to res) \<and>
             get_holders (rp_routing S') (ci_hash info) = ns_node_id (nt_node S') # rr_replicated_to res))"
    using replicate_loop_ok [OF assms(1) assms(2) [unfolded replicate_chunks_def] assms(3)]
    by (fastforce simp: load_chunk_value result_ok_def)
  assume "get_alive_peers (re_now R) 15 (nt_node S) = []"
  from replicate_loop_alone [OF this assms(2) [unfolded replicate_chunks_def]]
  show "rp_routing S' = rp_routing S" "\<forall>(info, d) \<in> set (zip (chunks m) datas). dict_get results (ci_hash info) =
           Some \<lparr>rr_stored_locally = True, rr_replicated_to = [], rr_total_copies = None\<rparr>" by auto
qed

text \<open>A node \<open>a0\<close> with an open connection 0 to the peer \<open>b0\<close>, and one chunk to store.\<close>

definition pair_state :: repl_state where
  "pair_state =
     \<lparr>nt_node = (new_node_state 0 ''a0'' ''a0'')\<lparr>ns_peers := [(''b0'', example_peer\<lparr>pi_node_id := ''b0''\<rparr>)]\<rparr>,
      nt_api_port = 8888, nt_connections = [(''b0'', 0)], nt_written = (\<lambda>_. []), nt_open = (\<lambda>_. True),
      ch_active = [], ch_shown = (\<lambda>_. []), ch_ws_ok = (\<lambda>_. True), ch_seen = [],
      nn_clients = (\<lambda>_. None), nn_next = 1,
      rp_store = \<lparr>ls_files = [], ls_db = empty_db, ls_now = 1, ls_touch = (\<lambda>old now. now), ls_locked = (\<lambda>_. False), ls_disk_free = 0\<rparr>,
      rp_routing = []\<rparr>"

definition pair_chunk :: chunk_info where
  "pair_chunk = \<lparr>ci_index = 0, ci_hash = ''a3'', ci_size = 1, ci_encrypted = False\<rparr>"

lemma pair_targets: "select_targets example_engine (nt_node (store_locally pair_chunk d pair_state)) ''a3'' = [''b0'']"
proof -
  have "xor_distance ''a3'' ''b0'' = Inr (hex_number ''a3'' XOR hex_number ''b0'')"
    by (rule xor_distance_hex) (simp_all add: is_hex_id_def hex_value_def)
  then have top: "map fst (find_closest_peers ''a3'' [''b0''] 1) = [''b0'']"
    by (simp add: find_closest_eq prefix_to_def)
  have alive: "get_alive_peers 1 15 (nt_node (store_locally pair_chunk d pair_state)) = [(''b0'', example_peer\<lparr>pi_node_id := ''b0''\<rparr>)]"
    by (simp add: get_alive_peers_def store_locally_def register_chunk_def pair_state_def is_alive_def example_peer_def)
  have pre: "prefix_to 1 (append_new xs [x]) = [x]" for xs :: "string list" and x
    using append_new_prefix [of xs "[x]"] by (auto simp: prefix_to_def)
  show ?thesis
    by (simp add: select_targets_def example_engine_def alive top append_new_Cons pre)
qed

lemma pair_replicated:
  "\<exists>S'. replicate_chunk example_engine ''f'' (pair_chunk, [7]) pair_state =
     (Inr \<lparr>rr_stored_locally = True, rr_replicated_to = [''b0''], rr_total_copies = Some 2\<rparr>, S')"
proof -
  let ?m = "store_chunk_msg 1 ''a0'' ''a3'' [7] ''f''"
  have "fits (table_codec [?m]) ?m" using table_codec_fits [of 0 "[?m]"] by simp
  then obtain f where f: "send_frame (table_codec [?m]) ?m = Inr f" using fits_frame by blast
  let ?S = "store_locally pair_chunk [7] pair_state"
  have S: "nt_connections ?S = [(''b0'', 0)]" "nt_open ?S = (\<lambda>_. True)" "ns_node_id (nt_node ?S) = ''a0''"
    by (simp_all add: store_locally_def register_chunk_def pair_state_def new_node_state_def)
  have engine: "ne_codec (re_env example_engine) = table_codec [?m]" "re_now example_engine = 1" "re_k example_engine = 1"
    by (simp_all add: example_engine_def)
  have hash: "ci_hash pair_chunk = ''a3''" by (simp add: pair_chunk_def)
  have "\<exists>S'. send_chunk_to_peer example_engine ''b0'' pair_chunk [7] ''f'' ?S = (Inr True, S')"
    using f S by (simp add: send_chunk_to_peer_def send_or_dial_def conn_send_def engine hash)
  then show ?thesis
    by (auto simp: replicate_chunk_def pair_targets Let_def prefix_to_def engine hash)
qed

text \<open>
  C36. Replication counts copies that do not exist: a peer the engine lists as holder of a chunk, in
  its result and in the routing table, runs the same program, and its handler only logs
  the STORE_CHUNK message. Its state, the chunk store included, stays as it was.
\<close>

theorem replicated_chunk_not_stored:
  assumes "0 \<le> re_k R" and "replicate_chunk R fh (info, d) A = (Inr res, A')" and "pid \<in> set (rr_replicated_to res)"
    and "cl_phase cl = InLoop"
  shows "pid \<in> set (get_holders (rp_routing A') (ci_hash info)) \<and>
     rr_total_copies res = Some (1 + length (rr_replicated_to res)) \<and>
     client_step E (node_handler C pick now) now
       (Some (store_chunk_msg t (ns_node_id (nt_node A)) (ci_hash info) d fh)) cl (B :: repl_state) = (cl, B)"
proof -
  have "\<not> has_type MSG_CHAT (store_chunk_msg t (ns_node_id (nt_node A)) (ci_hash info) d fh)"
    by (simp add: has_type_def store_chunk_msg_def build_message_def msg_type_defs)
  then have "client_step E (node_handler C pick now) now
       (Some (store_chunk_msg t (ns_node_id (nt_node A)) (ci_hash info) d fh)) cl B = (cl, B)"
    using assms(4) by (simp add: client_step_def node_handler_def)
  moreover have "result_ok (re_k R) A' (ci_hash info) res"
    using replicate_chunk_ok [OF assms(1,2)] by blast
  ultimately show ?thesis using assms(3) by (auto simp: result_ok_def split: option.splits)
qed

theorem replicated_chunk_not_stored_witness:
  "\<exists>A'. ''b0'' \<in> set (get_holders (rp_routing (A' :: repl_state)) ''a3'') \<and>
     snd (client_step two_node_env (node_handler (table_codec []) hd 1) 1 (Some (store_chunk_msg 1 ''a0'' ''a3'' [7] ''f''))
       \<lparr>cl_conn = 0, cl_ip = [], cl_phase = InLoop, cl_peer_id = ''a0''\<rparr> pair_state) = pair_state"
proof -
  obtain A' where A': "replicate_chunk example_engine ''f'' (pair_chunk, [7]) pair_state =
      (Inr \<lparr>rr_stored_locally = True, rr_replicated_to = [''b0''], rr_total_copies = Some 2\<rparr>, A')"
    using pair_replicated by blast
  have "ns_node_id (nt_node pair_state) = ''a0''" "ci_hash pair_chunk = ''a3''"
    by (simp_all add: pair_state_def pair_chunk_def new_node_state_def)
  then show ?thesis
    using replicated_chunk_not_stored [OF _ A', of "''b0''" "\<lparr>cl_conn = 0, cl_ip = [], cl_phase = InLoop, cl_peer_id = ''a0''\<rparr>"
        two_node_env "table_codec []" hd 1 1 pair_state]
    by (auto simp: example_engine_def intro!: exI [of _ A'])
qed

theorem replication_bookkeeping_witness:
  "\<exists>results S'. replicate_chunks example_engine ((new_manifest ''f'' 1 ''f'' 1)\<lparr>chunks := [pair_chunk]\<rparr>) [[7]] pair_state = (Inr results, S') \<and>
     fst (load_chunk (rp_store S') ''a3'') = Some [7]"
proof -
  let ?m = "(new_manifest ''f'' 1 ''f'' 1)\<lparr>chunks := [pair_chunk]\<rparr>"
  obtain A' where A': "replicate_chunk example_engine ''f'' (pair_chunk, [7]) pair_state =
      (Inr \<lparr>rr_stored_locally = True, rr_replicated_to = [''b0''], rr_total_copies = Some 2\<rparr>, A')"
    using pair_replicated by blast
  then obtain results where r: "replicate_chunks example_engine ?m [[7]] pair_state = (Inr results, A')"
    by (simp add: replicate_chunks_def new_manifest_def)
  have "ci_hash pair_chunk = ''a3''" by (simp add: pair_chunk_def)
  then show ?thesis
    using replication_bookkeeping [OF _ r] r by (auto simp: example_engine_def)
qed

subsection \<open>Healing\<close>

definition alive_holders :: "string list \<Rightarrow> string list \<Rightarrow> string list" where
  "alive_holders alive_ids holders = filter (\<lambda>h. h \<in> set alive_ids) holders"

lemma find_under_replicated_eq:
  assumes "find_under_replicated k alive_ids rest t = (low, t')" and "dict_ok rest"
  shows "low = map (\<lambda>(h, hs). (h, alive_holders alive_ids hs))
             (filter (\<lambda>(h, hs). int (length (alive_holders alive_ids hs)) < k) rest)"
    and "dict_get t' h = (case dict_get rest h of
           None \<Rightarrow> dict_get t h
         | Some hs \<Rightarrow> if int (length (alive_holders alive_ids hs)) < k then Some (alive_holders alive_ids hs) else dict_get t h)"
proof -
  have "low = map (\<lambda>(h, hs). (h, alive_holders alive_ids hs))
             (filter (\<lambda>(h, hs). int (length (alive_holders alive_ids hs)) < k) rest) \<and>
      dict_get t' h = (case dict_get rest h of
           None \<Rightarrow> dict_get t h
         | Some hs \<Rightarrow> if int (length (alive_holders alive_ids hs)) < k then Some (alive_holders alive_ids hs) else dict_get t h)"
    using assms
  proof (induction rest arbitrary: t low)
    case Nil
    then show ?case by simp
  next
    case (Cons x rest)
    obtain g hs where x: "x = (g, hs)" by fastforce
    have ok: "dict_ok rest" and new: "dict_get rest g = None"
      using Cons.prems(2) by (auto simp: dict_ok_def x map_of_eq_None_iff)
    show ?case
    proof (cases "int (length (alive_holders alive_ids hs)) < k")
      case True
      obtain u1 where u1: "find_under_replicated k alive_ids rest (assign_chunk g (alive_holders alive_ids hs) t) = (u1, t')"
        "low = (g, alive_holders alive_ids hs) # u1"
        using Cons.prems(1) True by (auto simp: x alive_holders_def Let_def split: prod.splits)
      show ?thesis using Cons.IH [OF u1(1) ok] u1(2) True new by (auto simp: x assign_get split: option.splits)
    next
      case False
      then have "find_under_replicated k alive_ids rest t = (low, t')"
        using Cons.prems(1) by (simp add: x alive_holders_def)
      from Cons.IH [OF this ok] False new show ?thesis by (auto simp: x split: option.splits)
    qed
  qed
  then show "low = map (\<lambda>(h, hs). (h, alive_holders alive_ids hs))
             (filter (\<lambda>(h, hs). int (length (alive_holders alive_ids hs)) < k) rest)"
    and "dict_get t' h = (case dict_get rest h of
           None \<Rightarrow> dict_get t h
         | Some hs \<Rightarrow> if int (length (alive_holders alive_ids hs)) < k then Some (alive_holders alive_ids hs) else dict_get t h)"
    by simp_all
qed

text \<open>Every peer of a list has an open connection.\<close>

definition linked :: "string list \<Rightarrow> 'a net_state_scheme \<Rightarrow> bool" where
  "linked pids S \<longleftrightarrow> (\<forall>pid \<in> set pids. \<exists>c. dict_get (nt_connections S) pid = Some c \<and> nt_open S c)"

lemma heal_targets_linked:
  assumes "linked pids S"
  shows "\<exists>sent w. heal_targets R alive h d pids holders S = (Inr (holders @ sent), S\<lparr>nt_written := w\<rparr>) \<and>
     subseq sent pids \<and>
     (fits (ne_codec (re_env R)) (store_chunk_msg (re_now R) (ns_node_id (nt_node S)) h d []) \<longrightarrow> sent = pids)"
  using assms
proof (induction pids arbitrary: holders S)
  case Nil
  then show ?case by (auto intro: exI [of _ "nt_written S"])
next
  case (Cons pid pids)
  let ?m = "store_chunk_msg (re_now R) (ns_node_id (nt_node S)) h d []"
  let ?C = "ne_codec (re_env R)"
  obtain c where c: "dict_get (nt_connections S) pid = Some c" "nt_open S c"
    using Cons.prems by (auto simp: linked_def)
  obtain r S1 where s: "conn_send ?C c ?m S = (r, S1)" by fastforce
  obtain w1 where w1: "S1 = S\<lparr>nt_written := w1\<rparr>"
    using conn_send_written [of ?C c ?m S] s by auto
  define ok where "ok = (case r of Inr _ \<Rightarrow> True | Inl _ \<Rightarrow> False)"
  have send: "send_or_dial R pid (dict_get alive pid) ?m S = (Inr ok, S1)"
    using c s by (simp add: send_or_dial_def ok_def)
  have "linked pids S1" using Cons.prems by (simp add: linked_def w1)
  from Cons.IH [OF this, of "if ok then holders @ [pid] else holders"] obtain sent w where
    rest: "heal_targets R alive h d pids (if ok then holders @ [pid] else holders) S1 =
        (Inr ((if ok then holders @ [pid] else holders) @ sent), S1\<lparr>nt_written := w\<rparr>)" "subseq sent pids"
      "fits ?C (store_chunk_msg (re_now R) (ns_node_id (nt_node S1)) h d []) \<longrightarrow> sent = pids"
    by blast
  have fit: "fits ?C ?m \<Longrightarrow> ok" using c s fits_frame [of ?C ?m] by (auto simp: ok_def conn_send_def)
  show ?case
  proof (cases ok)
    case True
    then show ?thesis using rest send by (intro exI [of _ "pid # sent"] exI [of _ w]) (simp add: w1)
  next
    case False
    then show ?thesis using rest send fit by (intro exI [of _ sent] exI [of _ w]) (auto simp: w1)
  qed
qed

text \<open>The peers a chunk is healed to: closest ones, as many as are missing or as there are candidates.\<close>

lemma healing_peers:
  assumes "pids = map fst (find_closest_peers h cands needed)" and "distinct cands" and "0 < needed"
  shows "distinct pids" and "set pids \<subseteq> set cands" and "int (length pids) \<le> needed"
    and "is_hex_id h \<Longrightarrow> \<forall>pid \<in> set cands. is_hex_id pid \<Longrightarrow> int (length pids) = min needed (int (length cands))"
proof -
  show "distinct pids" "set pids \<subseteq> set cands" "int (length pids) \<le> needed"
    using find_closest_distinct [OF assms(2)] find_closest_ids [of _ h cands needed]
      find_closest_length [of needed h cands] assms(1,3) by auto
  assume "is_hex_id h" "\<forall>pid \<in> set cands. is_hex_id pid"
  then have "length (distances h cands) = length cands" by (simp add: distances_hex)
  then show "int (length pids) = min needed (int (length cands))"
    using find_closest_length [of needed h cands] assms(1,3) by (auto simp: min_def)
qed

text \<open>
  What healing adds to the alive holders \<open>ah\<close> of a chunk: distinct peers, not more than are missing, and
  all that are missing when the chunk can be sent.
\<close>

definition refilled :: "repl_env \<Rightarrow> string list \<Rightarrow> repl_state \<Rightarrow> string \<Rightarrow> string list \<Rightarrow> string list \<Rightarrow> bool" where
  "refilled R ids S h ah new \<longleftrightarrow> distinct new \<and> set new \<subseteq> set ids - set ah \<and>
     int (length new) \<le> max 0 (re_k R - int (length ah)) \<and>
     (\<forall>d. chunk_view (rp_store S) h = Some d \<and> is_hex_id h \<and> (\<forall>pid \<in> set ids. is_hex_id pid) \<and>
        fits (ne_codec (re_env R)) (store_chunk_msg (re_now R) (ns_node_id (nt_node S)) h d []) \<longrightarrow>
        int (length new) = min (max 0 (re_k R - int (length ah))) (int (length (filter (\<lambda>pid. pid \<notin> set ah) ids))))"

lemma refilled_none: "re_k R \<le> int (length ah) \<or> chunk_view (rp_store S) h = None \<or> filter (\<lambda>pid. pid \<notin> set ah) ids = [] \<Longrightarrow>
   refilled R ids S h ah []"
  by (auto simp: refilled_def)

text \<open>Healing one chunk, when every alive peer has an open connection.\<close>

lemma heal_chunk_sends:
  assumes "linked (dict_keys alive) S" and "dict_ok alive" and "int (length ah) < re_k R"
    and "load_chunk (rp_store S) h = (Some d, st)" and "cands = filter (\<lambda>pid. pid \<notin> set ah) (dict_keys alive)" and "cands \<noteq> []"
    and "heal_chunk R alive (h, ah) S = (r, S')"
  obtains sent w where "r = Inr ()" and "refilled R (dict_keys alive) S h ah sent"
    and "S' = S\<lparr>rp_store := st, nt_written := w, rp_routing := assign_chunk h (ah @ sent) (rp_routing S)\<rparr>"
proof -
  define needed where "needed = re_k R - int (length ah)"
  define pids where "pids = map fst (find_closest_peers h cands needed)"
  let ?S1 = "S\<lparr>rp_store := st\<rparr>"
  have view: "chunk_view (rp_store S) h = Some d" using load_chunk_value [of "rp_store S" h] assms(4) by simp
  have "distinct cands" "0 < needed" using assms(2,3,5) by (simp_all add: dict_ok_def needed_def)
  note pids = healing_peers [OF pids_def this]
  have "linked pids ?S1" using assms(1,5) pids(2) by (auto simp: linked_def)
  from heal_targets_linked [OF this, of R alive h d ah] obtain sent w where
    sent: "heal_targets R alive h d pids ah ?S1 = (Inr (ah @ sent), ?S1\<lparr>nt_written := w\<rparr>)" "subseq sent pids"
      "fits (ne_codec (re_env R)) (store_chunk_msg (re_now R) (ns_node_id (nt_node S)) h d []) \<longrightarrow> sent = pids"
    by auto
  have "r = Inr ()" "S' = ?S1\<lparr>nt_written := w, rp_routing := assign_chunk h (ah @ sent) (rp_routing S)\<rparr>"
    using assms(3,4,6,7) sent(1)
    by (simp_all add: heal_chunk_def needed_def [symmetric] assms(5) [symmetric] pids_def [symmetric] Let_def)
  moreover have "refilled R (dict_keys alive) S h ah sent"
    using subseq_distinct [OF sent(2) pids(1)] subseq_set [OF sent(2)] pids(2-4) list_emb_length [OF sent(2)] sent(3) view assms(3)
    by (auto simp: refilled_def assms(5) needed_def [symmetric])
  ultimately show thesis using that by simp
qed

lemma heal_chunk_linked:
  assumes "linked (dict_keys alive) S" and "dict_ok alive" and "get_holders (rp_routing S) h = ah"
    and "heal_chunk R alive (h, ah) S = (r, S')"
  shows "r = Inr () \<and> linked (dict_keys alive) S' \<and> nt_node S' = nt_node S \<and>
     (\<forall>g. chunk_view (rp_store S') g = chunk_view (rp_store S) g) \<and>
     (\<forall>g. g \<noteq> h \<longrightarrow> get_holders (rp_routing S') g = get_holders (rp_routing S) g) \<and>
     (\<exists>new. get_holders (rp_routing S') h = ah @ new \<and> refilled R (dict_keys alive) S h ah new)"
proof -
  let ?cands = "filter (\<lambda>pid. pid \<notin> set ah) (dict_keys alive)"
  obtain v st where l: "load_chunk (rp_store S) h = (v, st)" by fastforce
  have view: "chunk_view st g = chunk_view (rp_store S) g" for g
    using load_chunk_frame [of "rp_store S" h g] l by simp
  have v: "v = chunk_view (rp_store S) h" using load_chunk_value [of "rp_store S" h] l by simp
  consider "re_k R \<le> int (length ah)" | "v = None \<or> ?cands = []" "int (length ah) < re_k R"
    | d where "v = Some d" "?cands \<noteq> []" "int (length ah) < re_k R"
    by fastforce
  then show ?thesis
  proof cases
    case 1
    then show ?thesis
      using assms(1,3,4) refilled_none [of R ah S h "dict_keys alive"] by (simp add: heal_chunk_def)
  next
    case 2
    then have "r = Inr ()" "S' = S\<lparr>rp_store := st\<rparr>"
      using assms(4) l by (cases v; auto simp: heal_chunk_def Let_def)+
    moreover have "refilled R (dict_keys alive) S h ah []" using 2 v by (intro refilled_none) auto
    ultimately show ?thesis using assms(1,3) view by (simp add: linked_def)
  next
    case 3
    obtain sent w where "r = Inr ()" "refilled R (dict_keys alive) S h ah sent"
      "S' = S\<lparr>rp_store := st, nt_written := w, rp_routing := assign_chunk h (ah @ sent) (rp_routing S)\<rparr>"
      by (rule heal_chunk_sends [OF assms(1,2) 3(3) l [unfolded 3(1)] refl 3(2) assms(4)])
    then show ?thesis using view assms(1) by (simp add: linked_def get_holders_def assign_get get_or_def)
  qed
qed

lemma heal_loop_linked:
  assumes "linked (dict_keys alive) S" and "dict_ok alive" and "distinct (map fst todo)"
    and "\<forall>(h, ah) \<in> set todo. get_holders (rp_routing S) h = ah" and "heal_loop R alive todo S = (r, S')"
  shows "r = Inr () \<and> (\<forall>g. g \<notin> fst ` set todo \<longrightarrow> get_holders (rp_routing S') g = get_holders (rp_routing S) g) \<and>
     (\<forall>(h, ah) \<in> set todo. \<exists>new. get_holders (rp_routing S') h = ah @ new \<and> refilled R (dict_keys alive) S h ah new)"
  using assms(1,3-5)
proof (induction todo arbitrary: S)
  case Nil
  then show ?case by simp
next
  case (Cons x todo)
  obtain h ah where x: "x = (h, ah)" by fastforce
  obtain r1 S1 where s: "heal_chunk R alive (h, ah) S = (r1, S1)" by fastforce
  have "get_holders (rp_routing S) h = ah" using Cons.prems(3) by (simp add: x)
  note one = heal_chunk_linked [OF Cons.prems(1) assms(2) this s]
  have fresh: "h \<notin> fst ` set todo" and d: "distinct (map fst todo)" using Cons.prems(2) by (auto simp: x)
  have r1: "r1 = Inr ()" and link: "linked (dict_keys alive) S1"
    and other: "\<And>g. g \<noteq> h \<Longrightarrow> get_holders (rp_routing S1) g = get_holders (rp_routing S) g"
    using one by blast+
  have same: "refilled R (dict_keys alive) S1 = refilled R (dict_keys alive) S"
    using one by (simp add: refilled_def fun_eq_iff)
  have todo: "\<forall>(g, ag) \<in> set todo. get_holders (rp_routing S1) g = ag"
  proof (clarify)
    fix g ag assume g: "(g, ag) \<in> set todo"
    then have "g \<noteq> h" using fresh by force
    then show "get_holders (rp_routing S1) g = ag" using other Cons.prems(3) g by auto
  qed
  have "heal_loop R alive todo S1 = (r, S')" using Cons.prems(4) s r1 by (simp add: x)
  note ih = Cons.IH [OF link d todo this]
  have "get_holders (rp_routing S') h = get_holders (rp_routing S1) h" using ih fresh by blast
  then show ?case
    using ih one other unfolding x same by simp
qed

text \<open>The scan takes in exactly the chunks with too few alive holders, and a round heals each of them.\<close>

lemma healing_round:
  assumes "dict_ok (ns_peers (nt_node S))" and "dict_ok (rp_routing S)"
    and "alive = dict_keys (get_alive_peers (re_now R) 15 (nt_node S))" and "linked alive S"
    and "dict_get (rp_routing S) h = Some holders" and "ah = alive_holders (alive @ [ns_node_id (nt_node S)]) holders"
  shows "fst (check_and_heal R S) = Inr () \<and>
     (if re_k R \<le> int (length ah) then get_holders (rp_routing (snd (check_and_heal R S))) h = holders
      else \<exists>new. get_holders (rp_routing (snd (check_and_heal R S))) h = ah @ new \<and> refilled R alive S h ah new)"
proof -
  let ?alive = "get_alive_peers (re_now R) 15 (nt_node S)"
  let ?ids = "alive @ [ns_node_id (nt_node S)]"
  obtain low t where f: "find_under_replicated (re_k R) ?ids (rp_routing S) (rp_routing S) = (low, t)" by fastforce
  note low = find_under_replicated_eq [OF f assms(2)]
  let ?S = "S\<lparr>rp_routing := t\<rparr>"
  obtain r S' where run: "heal_loop R ?alive low ?S = (r, S')" by fastforce
  have heal: "check_and_heal R S = (r, S')"
    using f run by (simp add: check_and_heal_def routing_get_all_def assms(3) Let_def)
  have ok: "dict_ok ?alive" using assms(1) by (auto simp: get_alive_peers_def)
  have keys: "distinct (map fst low)"
    using distinct_map_filter [of fst "rp_routing S"] assms(2)
    by (simp add: low(1) dict_ok_def comp_def case_prod_beta)
  have todo: "\<forall>(g, ag) \<in> set low. get_holders (rp_routing ?S) g = ag"
    using assms(2) low by (auto simp: get_holders_def get_or_def dict_ok_get)
  have "linked (dict_keys ?alive) ?S" using assms(3,4) by (simp add: linked_def)
  note healed = heal_loop_linked [OF this ok keys todo run]
  have "(h, ah) \<in> set low" if "\<not> re_k R \<le> int (length ah)"
    using dict_get_SomeD [OF assms(5)] that unfolding low(1) assms(6) by force
  moreover have "h \<notin> fst ` set low" if "re_k R \<le> int (length ah)"
    using dict_ok_get [OF assms(2)] assms(5,6) that unfolding low(1) by fastforce
  moreover have "get_holders t h = holders" if "re_k R \<le> int (length ah)"
    using low(2) [of h] assms(5,6) that by (simp add: get_holders_def get_or_def)
  moreover have "refilled R alive ?S = refilled R alive S" by (simp add: refilled_def fun_eq_iff)
  ultimately show ?thesis using healed by (auto simp: heal assms(3))
qed

text \<open>
  C28. What a healing round does to the holder table, on a node that has an open connection to every alive peer: dead holders
  disappear from the entry of every chunk with fewer than \<open>k\<close> alive holders, and an entry with
  enough of them is not touched. When the chunk is stored locally and its message fits into a frame,
  the missing holders are replaced by distinct alive peers that did not hold it, up to exactly \<open>k\<close>
  entries or until no such peer is left; otherwise nobody is added. The entry records to whom the chunk was sent,
  not who has it: the handler of the receiving node does not store it.
\<close>

theorem healing_refills_holders:
  assumes "0 \<le> re_k R" and "dict_ok (ns_peers (nt_node S))" and "dict_ok (rp_routing S)"
    and "alive = dict_keys (get_alive_peers (re_now R) 15 (nt_node S))" and "linked alive S"
    and "dict_get (rp_routing S) h = Some holders" and "ah = alive_holders (alive @ [ns_node_id (nt_node S)]) holders"
  shows "fst (check_and_heal R S) = Inr () \<and>
     (let now_held = get_holders (rp_routing (snd (check_and_heal R S))) h
      in if re_k R \<le> int (length ah) then now_held = holders
         else \<exists>new. now_held = ah @ new \<and> distinct new \<and> set new \<subseteq> set alive - set ah \<and> int (length now_held) \<le> re_k R \<and>
           (\<forall>d. chunk_view (rp_store S) h = Some d \<and> is_hex_id h \<and> (\<forall>pid \<in> set alive. is_hex_id pid) \<and>
              fits (ne_codec (re_env R)) (store_chunk_msg (re_now R) (ns_node_id (nt_node S)) h d []) \<longrightarrow>
              int (length now_held) = min (re_k R) (int (length ah) + int (length (filter (\<lambda>pid. pid \<notin> set ah) alive)))))"
proof (cases "re_k R \<le> int (length ah)")
  case True
  then show ?thesis using healing_round [OF assms(2-7)] by (simp add: Let_def)
next
  case False
  then obtain new where new: "fst (check_and_heal R S) = Inr ()" "get_holders (rp_routing (snd (check_and_heal R S))) h = ah @ new"
      "refilled R alive S h ah new"
    using healing_round [OF assms(2-7)] by auto
  have "max 0 (re_k R - int (length ah)) = re_k R - int (length ah)" using False by simp
  then show ?thesis using new False by (auto simp: refilled_def Let_def min_def)
qed

theorem healing_refills_holders_witness:
  "\<exists>R S. fst (check_and_heal R S) = Inr () \<and> get_holders (rp_routing S) ''a3'' = [''zz''] \<and>
     length (get_holders (rp_routing (snd (check_and_heal R S))) ''a3'') = 1"
proof -
  let ?m = "store_chunk_msg 1 ''a0'' ''a3'' [7] []"
  let ?R = "example_engine\<lparr>re_env := \<lparr>ne_codec = table_codec [?m], ne_hmac = (\<lambda>k d. []), ne_swarm_key = ''k''\<rparr>, re_k := 2\<rparr>"
  let ?S = "pair_state\<lparr>rp_routing := [(''a3'', [''zz''])], rp_store := save_chunk ''a3'' [7] (rp_store pair_state)\<rparr>"
  have R: "re_now ?R = 1" "re_k ?R = 2" "ne_codec (re_env ?R) = table_codec [?m]" by (simp_all add: example_engine_def)
  have S: "ns_node_id (nt_node ?S) = ''a0''" "dict_ok (ns_peers (nt_node ?S))" "dict_ok (rp_routing ?S)"
      "chunk_view (rp_store ?S) ''a3'' = Some [7]"
    by (simp_all add: pair_state_def new_node_state_def dict_ok_def chunk_view_save)
  have alive: "[''b0''] = dict_keys (get_alive_peers (re_now ?R) 15 (nt_node ?S))" unfolding R
    by (simp add: pair_state_def get_alive_peers_def is_alive_def example_peer_def)
  have link: "linked [''b0''] ?S" by (simp add: linked_def pair_state_def)
  have ah: "[] = alive_holders ([''b0''] @ [ns_node_id (nt_node ?S)]) [''zz'']" unfolding S by (simp add: alive_holders_def)
  have k: "0 \<le> re_k ?R" unfolding R by simp
  have get: "dict_get (rp_routing ?S) ''a3'' = Some [''zz'']" by simp
  have hex: "is_hex_id ''a3''" "is_hex_id ''b0''" by (simp_all add: is_hex_id_def hex_value_def)
  have "fits (table_codec [?m]) ?m" using table_codec_fits [of 0 "[?m]"] by simp
  with healing_refills_holders [OF k S(2,3) alive link get ah] hex S(4)
  have "fst (check_and_heal ?R ?S) = Inr ()"
    "length (get_holders (rp_routing (snd (check_and_heal ?R ?S))) ''a3'') = 1"
    unfolding R S(1) Let_def by auto
  moreover have "get_holders (rp_routing ?S) ''a3'' = [''zz'']" by (simp add: get_holders_def get_or_def)
  ultimately show ?thesis by blast
qed

end
