(* ===== verification/SlidingWindow.thy ===== *)
theory SlidingWindow
  imports Replication
begin

section \<open>Sliding window replication (backend/strategies/sliding\_window.py)\<close>

text \<open>
  The sender of one file to one peer, as a state machine. Three tasks share its state: \<^verbatim>\<open>send_all\<close>
  fills the window and then waits, the listener handles what the peer sends, and the sweep sends
  again what was not acknowledged in time. A step is what a task does between two suspensions, so
  the steps of the three interleave in any order. After an exception nobody looks at the state, so
  \<open>Raised\<close> only ends the run. \<open>sw_sent\<close> is the log of the STORE\_CHUNK messages
  handed to the connection.
\<close>

definition MAX_WINDOW_SIZE :: nat where "MAX_WINDOW_SIZE = 20"
definition TIMEOUT_SECONDS :: real where "TIMEOUT_SECONDS = 3"
definition MAX_RETRIES :: nat where "MAX_RETRIES = 5"

record unacked_chunk =
  uc_index :: int
  uc_hash :: string
  uc_data :: bytes
  uc_timestamp :: real
  uc_retries :: nat

definition new_unacked :: "real \<Rightarrow> int \<Rightarrow> string \<Rightarrow> bytes \<Rightarrow> unacked_chunk" where
  "new_unacked now i h d = \<lparr>uc_index = i, uc_hash = h, uc_data = d, uc_timestamp = now, uc_retries = 0\<rparr>"

datatype sw_phase = Filling | Waiting | Returned | Raised

record sw_sender =
  sw_unacked :: "(int, unacked_chunk) dict"
  sw_acked :: "int list"
  sw_send_idx :: nat
  sw_total :: nat
  sw_done :: bool
  sw_phase :: sw_phase
  sw_listening :: bool
  sw_resend :: "unacked_chunk list"
  sw_sent :: "(int \<times> string \<times> bytes) list"

definition new_sender :: "nat \<Rightarrow> sw_sender" where
  "new_sender n =
     \<lparr>sw_unacked = [], sw_acked = [], sw_send_idx = 0, sw_total = n, sw_done = False, sw_phase = Filling,
      sw_listening = True, sw_resend = [], sw_sent = []\<rparr>"

subsection \<open>Operations\<close>

definition sw_message :: "real \<Rightarrow> string \<Rightarrow> string \<Rightarrow> unacked_chunk \<Rightarrow> message" where
  "sw_message now sender_id fh uc =
     dict_set ''index'' (VInt (uc_index uc)) (store_chunk_msg now sender_id (uc_hash uc) (uc_data uc) fh)"

definition sw_send_chunk :: "real \<Rightarrow> chunk_info \<Rightarrow> bytes \<Rightarrow> sw_sender \<Rightarrow> sw_sender" where
  "sw_send_chunk now info d s =
     s\<lparr>sw_unacked := dict_set (ci_index info) (new_unacked now (ci_index info) (ci_hash info) d) (sw_unacked s),
       sw_sent := sw_sent s @ [(ci_index info, ci_hash info, d)],
       sw_send_idx := Suc (sw_send_idx s)\<rparr>"

definition fill_more :: "nat \<Rightarrow> sw_sender \<Rightarrow> bool" where
  "fill_more window s \<longleftrightarrow> sw_send_idx s < sw_total s \<and> length (sw_unacked s) < window"

text \<open>\<^verbatim>\<open>_handle_ack\<close>: the loop that is meant to send the next chunk only breaks.\<close>

definition handle_ack :: "int \<Rightarrow> sw_sender \<Rightarrow> sw_sender" where
  "handle_ack i s =
     (let acked = (if i \<in> set (sw_acked s) then sw_acked s else i # sw_acked s)
      in s\<lparr>sw_unacked := dict_del i (sw_unacked s), sw_acked := acked,
           sw_done := (sw_done s \<or> length acked \<ge> sw_total s)\<rparr>)"

definition timed_out :: "real \<Rightarrow> sw_sender \<Rightarrow> unacked_chunk list" where
  "timed_out now s = filter (\<lambda>uc. now - uc_timestamp uc > TIMEOUT_SECONDS) (map snd (sw_unacked s))"

text \<open>
  One chunk of a sweep. The object that is updated is the one in the dictionary, unless an
  acknowledgement has removed it in the meantime; the message is sent in both cases, and the attempt
  counts whether or not the connection takes it.
\<close>

definition sweep_one :: "real \<Rightarrow> unacked_chunk \<Rightarrow> sw_sender \<Rightarrow> sw_sender" where
  "sweep_one now uc s =
     (if uc_retries uc \<ge> MAX_RETRIES then s
      else
        let uc' = uc\<lparr>uc_retries := Suc (uc_retries uc), uc_timestamp := now\<rparr>
        in s\<lparr>sw_unacked := (if dict_get (sw_unacked s) (uc_index uc) = None then sw_unacked s
                            else dict_set (uc_index uc) uc' (sw_unacked s)),
             sw_sent := sw_sent s @ [(uc_index uc, uc_hash uc, uc_data uc)]\<rparr>)"

record sw_stats =
  st_total_sent :: nat
  st_total_acked :: nat
  st_retransmissions :: nat
  st_elapsed :: real
  st_window_size :: "nat option"

text \<open>\<^verbatim>\<open>send_all\<close> without chunks returns at once, with these statistics; the machine below runs otherwise.\<close>

definition no_chunks_stats :: sw_stats where
  "no_chunks_stats =
     \<lparr>st_total_sent = 0, st_total_acked = 0, st_retransmissions = 0, st_elapsed = 0, st_window_size = None\<rparr>"

definition unacked_retries :: "sw_sender \<Rightarrow> (int, nat) dict" where
  "unacked_retries s =
     map (\<lambda>(i, uc). (i, uc_retries uc)) (filter (\<lambda>(i, uc). uc_retries uc > 0) (sw_unacked s))"

text \<open>\<open>elapsed\<close> is the rounded difference of the two clock readings.\<close>

definition sw_stats_of :: "nat \<Rightarrow> real \<Rightarrow> sw_sender \<Rightarrow> sw_stats" where
  "sw_stats_of window elapsed s =
     \<lparr>st_total_sent = sw_total s, st_total_acked = length (sw_acked s),
      st_retransmissions = length (filter (\<lambda>i. i \<in> set (dict_keys (unacked_retries s))) (sw_acked s)),
      st_elapsed = elapsed, st_window_size = Some window\<rparr>"

subsection \<open>The machine\<close>

inductive sw_step ::
    "chunk_info list \<Rightarrow> bytes list \<Rightarrow> nat \<Rightarrow> sw_sender \<Rightarrow> sw_sender \<Rightarrow> bool"
  for cs :: "chunk_info list" and ds :: "bytes list" and window :: nat where
  fill_send: "sw_phase s = Filling \<Longrightarrow> fill_more window s \<Longrightarrow> sw_send_idx s < length ds \<Longrightarrow>
     sw_step cs ds window s (sw_send_chunk now (cs ! sw_send_idx s) (ds ! sw_send_idx s) s)"
| fill_raises: "sw_phase s = Filling \<Longrightarrow> fill_more window s \<Longrightarrow> sw_step cs ds window s (s\<lparr>sw_phase := Raised\<rparr>)"
| fill_ends: "sw_phase s = Filling \<Longrightarrow> \<not> fill_more window s \<Longrightarrow> sw_step cs ds window s (s\<lparr>sw_phase := Waiting\<rparr>)"
| gets_ack: "sw_phase s \<in> {Filling, Waiting} \<Longrightarrow> sw_listening s \<Longrightarrow> length (sw_acked s) < sw_total s \<Longrightarrow>
     sw_step cs ds window s (handle_ack i s)"
| loses_peer: "sw_phase s \<in> {Filling, Waiting} \<Longrightarrow> sw_listening s \<Longrightarrow> length (sw_acked s) < sw_total s \<Longrightarrow>
     sw_step cs ds window s (s\<lparr>sw_done := True, sw_listening := False\<rparr>)"
| sweep_starts: "sw_phase s \<in> {Filling, Waiting} \<Longrightarrow> sw_resend s = [] \<Longrightarrow>
     sw_step cs ds window s (s\<lparr>sw_resend := timed_out now s\<rparr>)"
| sweep_goes_on: "sw_phase s \<in> {Filling, Waiting} \<Longrightarrow> sw_resend s = uc # rest \<Longrightarrow>
     sw_step cs ds window s ((sweep_one now uc s)\<lparr>sw_resend := rest\<rparr>)"
| finishes: "sw_phase s = Waiting \<Longrightarrow> sw_done s \<Longrightarrow> sw_step cs ds window s (s\<lparr>sw_phase := Returned\<rparr>)"

inductive_cases sw_stepE: "sw_step cs ds window s s'"

subsection \<open>The engine\<close>

text \<open>
  \<^verbatim>\<open>replicate_file\<close>. \<open>send_all\<close> is how one run of the machine above ends on a connection: its
  statistics, or the exception it raises; a run that never ends is \<open>None\<close>, and so is then the
  result of the engine.
\<close>

datatype sw_result = Stats sw_stats | Failed exn

record sw_report =
  sr_results :: "(string, sw_result) dict"
  sr_local_only :: bool

fun replicate_to_peers ::
    "repl_env \<Rightarrow> (nat \<Rightarrow> sw_stats res option) \<Rightarrow> string list \<Rightarrow> (string, sw_result) dict \<Rightarrow> repl_state \<Rightarrow>
     (string, sw_result) dict res option \<times> repl_state" where
  "replicate_to_peers R send_all [] results S = (Some (Inr results), S)"
| "replicate_to_peers R send_all (pid # rest) results S =
     (let (conn, S1) =
            (case dict_get (nt_connections S) pid of
               Some h \<Rightarrow> (Inr (Some h), S)
             | None \<Rightarrow>
                 (case get_peer (nt_node S) pid of
                    None \<Rightarrow> (Inr None, S)
                  | Some p \<Rightarrow> dial_peer (re_env R) (re_dial R) (re_now R) (pi_ip p) (pi_tcp_port p) S))
      in case conn of
           Inl e \<Rightarrow> (Some (Inl e), S1)
         | Inr None \<Rightarrow> replicate_to_peers R send_all rest results S1
         | Inr (Some h) \<Rightarrow>
             (case send_all h of
                None \<Rightarrow> (None, S1)
              | Some (Inr stats) \<Rightarrow> replicate_to_peers R send_all rest (dict_set pid (Stats stats) results) S1
              | Some (Inl e) \<Rightarrow> replicate_to_peers R send_all rest (dict_set pid (Failed e) results) S1))"

definition replicate_file ::
    "repl_env \<Rightarrow> (nat \<Rightarrow> sw_stats res option) \<Rightarrow> file_manifest \<Rightarrow> bytes list \<Rightarrow> repl_state \<Rightarrow>
     sw_report res option \<times> repl_state" where
  "replicate_file R send_all m chunk_data_list S =
     (let S1 = fold (\<lambda>(info, d). store_locally info d) (zip (chunks m) chunk_data_list) S;
          peers = get_alive_peers (re_now R) 15 (nt_node S1)
      in if peers = [] then (Some (Inr \<lparr>sr_results = [], sr_local_only = True\<rparr>), S1)
         else
           let (r, S2) = replicate_to_peers R send_all (prefix_to (re_k R) (dict_keys peers)) [] S1
           in (map_option (\<lambda>x. bindr x (\<lambda>results. Inr \<lparr>sr_results = results, sr_local_only = False\<rparr>)) r, S2))"

subsection \<open>The invariant of the window\<close>

definition sent_count :: "sw_sender \<Rightarrow> int \<Rightarrow> nat" where
  "sent_count s i = length (filter (\<lambda>(j, h, d). j = i) (sw_sent s))"

definition index_set :: "chunk_info list \<Rightarrow> nat \<Rightarrow> int set" where
  "index_set cs n = ci_index ` set (take n cs)"

definition window_ok :: "chunk_info list \<Rightarrow> nat \<Rightarrow> sw_sender \<Rightarrow> bool" where
  "window_ok cs window s \<longleftrightarrow>
     sw_total s = length cs \<and> sw_send_idx s \<le> sw_total s \<and> distinct (sw_acked s) \<and>
     dict_ok (sw_unacked s) \<and> length (sw_unacked s) \<le> window \<and>
     fst ` set (sw_sent s) = index_set cs (sw_send_idx s) \<and>
     (\<forall>i uc. dict_get (sw_unacked s) i = Some uc \<longrightarrow>
        uc_index uc = i \<and> uc_retries uc \<le> MAX_RETRIES \<and> sent_count s i = Suc (uc_retries uc)) \<and>
     distinct (map uc_index (sw_resend s)) \<and>
     (\<forall>uc \<in> set (sw_resend s). uc_retries uc \<le> MAX_RETRIES \<and> sent_count s (uc_index uc) = Suc (uc_retries uc) \<and>
        (\<forall>uc'. dict_get (sw_unacked s) (uc_index uc) = Some uc' \<longrightarrow> uc' = uc)) \<and>
     (\<forall>i. sent_count s i \<le> Suc MAX_RETRIES)"

lemma sent_count_snoc:
  "sent_count (s\<lparr>sw_sent := sw_sent s @ [(i, h, d)]\<rparr>) j = (if j = i then Suc (sent_count s i) else sent_count s j)"
  by (simp add: sent_count_def)

lemma sent_count_0: "i \<notin> fst ` set (sw_sent s) \<Longrightarrow> sent_count s i = 0"
  by (force simp: sent_count_def filter_empty_conv)

lemma index_set_Suc: "n < length cs \<Longrightarrow> index_set cs (Suc n) = insert (ci_index (cs ! n)) (index_set cs n)"
  by (simp add: index_set_def take_Suc_conv_app_nth)

lemma index_fresh:
  assumes "distinct (map ci_index cs)" and "n < length cs"
  shows "ci_index (cs ! n) \<notin> index_set cs n"
proof -
  have "distinct (map ci_index (take (Suc n) cs))"
    using assms(1) distinct_take [of "map ci_index cs" "Suc n"] by (simp add: take_map)
  then show ?thesis using assms(2) by (simp add: take_Suc_conv_app_nth index_set_def)
qed

lemma dict_set_length: "length (dict_set k v d) \<le> Suc (length d)"
  by (induction d) auto

lemma dict_set_length_known: "dict_get d k \<noteq> None \<Longrightarrow> length (dict_set k v d) = length d"
  by (induction d) auto

lemma dict_del_length: "length (dict_del k d) \<le> length d"
  by (simp add: AList.delete_eq)

lemma window_ok_send:
  assumes "window_ok cs window s" and "distinct (map ci_index cs)" and "fill_more window s"
  shows "window_ok cs window (sw_send_chunk now (cs ! sw_send_idx s) d s)"
proof -
  let ?i = "ci_index (cs ! sw_send_idx s)"
  let ?s = "sw_send_chunk now (cs ! sw_send_idx s) d s"
  have n: "sw_send_idx s < length cs" "length (sw_unacked s) < window"
    using assms(1,3) by (auto simp: window_ok_def fill_more_def)
  have fresh: "?i \<notin> fst ` set (sw_sent s)"
    using index_fresh [OF assms(2) n(1)] assms(1) by (simp add: window_ok_def)
  have count: "sent_count ?s j = (if j = ?i then 1 else sent_count s j)" for j
    using sent_count_0 [OF fresh] by (simp add: sent_count_def sw_send_chunk_def)
  have "fst ` set (sw_sent ?s) = index_set cs (sw_send_idx ?s)"
    using assms(1) n(1) by (simp add: window_ok_def sw_send_chunk_def index_set_Suc)
  moreover have "length (sw_unacked ?s) \<le> window"
    using dict_set_length [of ?i "new_unacked now ?i (ci_hash (cs ! sw_send_idx s)) d" "sw_unacked s"] n(2)
    by (simp add: sw_send_chunk_def)
  moreover have "uc_index uc \<noteq> ?i" if "uc \<in> set (sw_resend s)" for uc
  proof
    assume "uc_index uc = ?i"
    then have "sent_count s (uc_index uc) = 0" using sent_count_0 [OF fresh] by simp
    then show False using that assms(1) by (simp add: window_ok_def)
  qed
  ultimately show ?thesis
    using assms(1) n unfolding window_ok_def count
    by (auto simp: sw_send_chunk_def new_unacked_def MAX_RETRIES_def)
qed

lemma window_ok_ack:
  assumes "window_ok cs window s"
  shows "window_ok cs window (handle_ack i s)"
proof -
  have "length (dict_del i (sw_unacked s)) \<le> window"
    using dict_del_length [of i "sw_unacked s"] assms by (simp add: window_ok_def)
  moreover have "sent_count (handle_ack i s) j = sent_count s j" for j
    by (simp add: sent_count_def handle_ack_def)
  ultimately show ?thesis
    using assms unfolding window_ok_def by (auto simp: handle_ack_def)
qed

lemma window_ok_sweep_start:
  assumes "window_ok cs window s"
  shows "window_ok cs window (s\<lparr>sw_resend := timed_out now s\<rparr>)"
proof -
  have entry: "dict_get (sw_unacked s) (uc_index uc) = Some uc" if "uc \<in> set (timed_out now s)" for uc
  proof -
    have "uc \<in> snd ` set (sw_unacked s)" using that by (auto simp: timed_out_def)
    then obtain i where "(i, uc) \<in> set (sw_unacked s)" by force
    then have "dict_get (sw_unacked s) i = Some uc" using assms by (simp add: window_ok_def dict_ok_get)
    then show ?thesis using assms by (auto simp: window_ok_def)
  qed
  have "map uc_index (map snd (sw_unacked s)) = dict_keys (sw_unacked s)"
    using assms by (auto simp: window_ok_def dict_ok_get)
  then have key: "distinct (map uc_index (map snd (sw_unacked s)))"
    using assms unfolding window_ok_def dict_ok_def by metis
  have "distinct (map uc_index (timed_out now s))"
    unfolding timed_out_def by (rule distinct_map_filter [OF key])
  moreover have un: "\<forall>i uc. dict_get (sw_unacked s) i = Some uc \<longrightarrow>
        uc_index uc = i \<and> uc_retries uc \<le> MAX_RETRIES \<and> sent_count s i = Suc (uc_retries uc)"
    using assms unfolding window_ok_def by blast
  moreover have "\<forall>uc \<in> set (timed_out now s). uc_retries uc \<le> MAX_RETRIES \<and>
      sent_count s (uc_index uc) = Suc (uc_retries uc) \<and>
      (\<forall>uc'. dict_get (sw_unacked s) (uc_index uc) = Some uc' \<longrightarrow> uc' = uc)"
  proof
    fix uc assume uc: "uc \<in> set (timed_out now s)"
    show "uc_retries uc \<le> MAX_RETRIES \<and> sent_count s (uc_index uc) = Suc (uc_retries uc) \<and>
      (\<forall>uc'. dict_get (sw_unacked s) (uc_index uc) = Some uc' \<longrightarrow> uc' = uc)"
      using entry [OF uc] un by (metis option.inject)
  qed
  moreover have same: "sent_count (s\<lparr>sw_resend := timed_out now s\<rparr>) = sent_count s"
    "sw_total (s\<lparr>sw_resend := timed_out now s\<rparr>) = sw_total s" "sw_send_idx (s\<lparr>sw_resend := timed_out now s\<rparr>) = sw_send_idx s"
    "sw_acked (s\<lparr>sw_resend := timed_out now s\<rparr>) = sw_acked s" "sw_unacked (s\<lparr>sw_resend := timed_out now s\<rparr>) = sw_unacked s"
    "sw_sent (s\<lparr>sw_resend := timed_out now s\<rparr>) = sw_sent s" "sw_resend (s\<lparr>sw_resend := timed_out now s\<rparr>) = timed_out now s"
    by (simp_all add: sent_count_def fun_eq_iff)
  moreover note assms [unfolded window_ok_def]
  ultimately show ?thesis unfolding window_ok_def same by blast
qed

lemma window_ok_sweep_one:
  assumes "window_ok cs window s" and "sw_resend s = uc # rest"
  shows "window_ok cs window ((sweep_one now uc s)\<lparr>sw_resend := rest\<rparr>)"
proof (cases "uc_retries uc \<ge> MAX_RETRIES")
  case True
  have "sent_count (s\<lparr>sw_resend := rest\<rparr>) j = sent_count s j" for j by (simp add: sent_count_def)
  then show ?thesis using True assms unfolding window_ok_def by (auto simp: sweep_one_def)
next
  case False
  define uc' where "uc' = uc\<lparr>uc_retries := Suc (uc_retries uc), uc_timestamp := now\<rparr>"
  define un where "un = (if dict_get (sw_unacked s) (uc_index uc) = None then sw_unacked s
      else dict_set (uc_index uc) uc' (sw_unacked s))"
  let ?s = "(sweep_one now uc s)\<lparr>sw_resend := rest\<rparr>"
  have s: "?s = s\<lparr>sw_unacked := un, sw_sent := sw_sent s @ [(uc_index uc, uc_hash uc, uc_data uc)], sw_resend := rest\<rparr>"
    using False by (simp add: sweep_one_def un_def uc'_def)
  have uc: "uc_retries uc < MAX_RETRIES" "sent_count s (uc_index uc) = Suc (uc_retries uc)"
      "uc_index uc \<notin> uc_index ` set rest"
    using False assms by (auto simp: window_ok_def)
  have count: "sent_count ?s j = (if j = uc_index uc then Suc (Suc (uc_retries uc)) else sent_count s j)" for j
    using uc(2) by (simp add: s sent_count_def)
  have mem: "uc_index uc \<in> fst ` set (sw_sent s)"
    using uc(2) sent_count_0 [of "uc_index uc" s] by (cases "uc_index uc \<in> fst ` set (sw_sent s)") auto
  have len: "length un \<le> window" "dict_ok un"
    using assms(1) by (auto simp: un_def window_ok_def dict_set_length_known)
  have get: "dict_get un i = (if i = uc_index uc \<and> dict_get (sw_unacked s) i \<noteq> None then Some uc' else dict_get (sw_unacked s) i)" for i
    by (simp add: un_def)
  have uc': "uc_index uc' = uc_index uc" "uc_retries uc' = Suc (uc_retries uc)" by (simp_all add: uc'_def)
  have uc_other: "uc_index v \<noteq> uc_index uc" if "v \<in> set rest" for v
    using uc(3) that by (metis imageI)
  have rest: "distinct (map uc_index rest)"
    "\<And>v. v \<in> set rest \<Longrightarrow> uc_retries v \<le> MAX_RETRIES \<and> sent_count s (uc_index v) = Suc (uc_retries v) \<and>
        (\<forall>v'. dict_get (sw_unacked s) (uc_index v) = Some v' \<longrightarrow> v' = v) \<and> uc_index v \<noteq> uc_index uc"
    using assms uc_other by (auto simp: window_ok_def)
  have un_ok: "uc_index v = i \<and> uc_retries v \<le> MAX_RETRIES \<and> sent_count ?s i = Suc (uc_retries v)"
    if "dict_get un i = Some v" for i v
  proof (cases "i = uc_index uc")
    case True
    then have "v = uc'" using that by (auto simp: get split: if_splits)
    then show ?thesis using True uc(1) uc' by (simp add: count)
  next
    case False
    then show ?thesis using that assms(1) by (simp add: get count window_ok_def)
  qed
  have rest_ok: "uc_retries v \<le> MAX_RETRIES \<and> sent_count ?s (uc_index v) = Suc (uc_retries v) \<and>
      (\<forall>v'. dict_get un (uc_index v) = Some v' \<longrightarrow> v' = v)" if "v \<in> set rest" for v
    using rest(2) [OF that] by (simp add: count get)
  have bound: "sent_count ?s j \<le> Suc MAX_RETRIES" for j
    using assms(1) uc(1) by (simp add: count window_ok_def)
  have logged: "fst ` set (sw_sent ?s) = fst ` set (sw_sent s)" using mem by (auto simp: s)
  have same: "sw_total ?s = sw_total s" "sw_send_idx ?s = sw_send_idx s" "sw_acked ?s = sw_acked s"
    "sw_unacked ?s = un" "sw_resend ?s = rest" by (simp_all add: s)
  have old: "sw_total s = length cs" "sw_send_idx s \<le> sw_total s" "distinct (sw_acked s)"
    "fst ` set (sw_sent s) = index_set cs (sw_send_idx s)"
    using assms(1) by (simp_all add: window_ok_def)
  show ?thesis
    unfolding window_ok_def same logged
    using old len rest(1) un_ok rest_ok bound by blast
qed

lemma window_ok_step:
  "sw_step cs ds window s s' \<Longrightarrow> distinct (map ci_index cs) \<Longrightarrow> window_ok cs window s \<Longrightarrow> window_ok cs window s'"
proof (erule sw_stepE)
  fix now assume "distinct (map ci_index cs)" "window_ok cs window s" "fill_more window s"
    "s' = sw_send_chunk now (cs ! sw_send_idx s) (ds ! sw_send_idx s) s"
  then show "window_ok cs window s'" by (simp add: window_ok_send)
next
  fix i assume "window_ok cs window s" "s' = handle_ack i s"
  then show "window_ok cs window s'" by (simp add: window_ok_ack)
next
  fix now assume "window_ok cs window s" "s' = s\<lparr>sw_resend := timed_out now s\<rparr>"
  then show "window_ok cs window s'" by (simp add: window_ok_sweep_start)
next
  fix uc rest now assume "window_ok cs window s" "sw_resend s = uc # rest" "s' = (sweep_one now uc s)\<lparr>sw_resend := rest\<rparr>"
  then show "window_ok cs window s'" by (simp add: window_ok_sweep_one)
qed (simp_all add: window_ok_def sent_count_def)

subsection \<open>An honest peer on a connection that holds\<close>

text \<open>The peer acknowledges only what it was sent, and the connection is not lost.\<close>

definition sw_honest ::
    "chunk_info list \<Rightarrow> bytes list \<Rightarrow> nat \<Rightarrow> sw_sender \<Rightarrow> sw_sender \<Rightarrow> bool" where
  "sw_honest cs ds window s s' \<longleftrightarrow>
     sw_step cs ds window s s' \<and> sw_listening s' \<and> set (sw_acked s') \<subseteq> fst ` set (sw_sent s')"

definition honest_ok :: "sw_sender \<Rightarrow> bool" where
  "honest_ok s \<longleftrightarrow> sw_listening s \<and> set (sw_acked s) \<subseteq> fst ` set (sw_sent s) \<and>
     (\<forall>i \<in> set (sw_acked s). dict_get (sw_unacked s) i = None) \<and>
     (sw_done s \<longrightarrow> sw_total s \<le> length (sw_acked s)) \<and> (sw_phase s = Returned \<longrightarrow> sw_done s)"

lemma sweep_one_keys: "dict_get (sw_unacked (sweep_one now uc s)) i = None \<longleftrightarrow> dict_get (sw_unacked s) i = None"
  by (auto simp: sweep_one_def Let_def)

lemma sweep_one_frame [simp]:
  "sw_acked (sweep_one now uc s) = sw_acked s" "sw_done (sweep_one now uc s) = sw_done s"
  "sw_total (sweep_one now uc s) = sw_total s" "sw_phase (sweep_one now uc s) = sw_phase s"
  "sw_send_idx (sweep_one now uc s) = sw_send_idx s"
  by (simp_all add: sweep_one_def Let_def)

lemma honest_ok_step:
  assumes "sw_honest cs ds window s s'" and "honest_ok s" and "window_ok cs window s" and "distinct (map ci_index cs)"
  shows "honest_ok s'"
proof -
  have step: "sw_step cs ds window s s'" and h: "sw_listening s'" "set (sw_acked s') \<subseteq> fst ` set (sw_sent s')"
    using assms(1) by (auto simp: sw_honest_def)
  from step show ?thesis
  proof (cases rule: sw_step.cases)
    case (fill_send now)
    have n: "sw_send_idx s < length cs" using fill_send assms(3) by (auto simp: window_ok_def fill_more_def)
    have "ci_index (cs ! sw_send_idx s) \<notin> set (sw_acked s)"
      using index_fresh [OF assms(4) n] assms(2,3) by (auto simp: honest_ok_def window_ok_def)
    then show ?thesis using fill_send h assms(2) by (auto simp: honest_ok_def sw_send_chunk_def)
  next
    case (gets_ack i)
    then show ?thesis using h assms(2) by (auto simp: honest_ok_def handle_ack_def Let_def)
  next
    case (sweep_goes_on uc rest now)
    have "\<forall>i \<in> set (sw_acked s). dict_get (sw_unacked (sweep_one now uc s)) i = None"
      using assms(2) by (simp add: honest_ok_def sweep_one_keys)
    then show ?thesis using sweep_goes_on h assms(2) by (simp add: honest_ok_def)
  qed (use h assms(2) in \<open>auto simp: honest_ok_def\<close>)
qed

lemma new_sender_ok: "window_ok cs window (new_sender (length cs))" "honest_ok (new_sender n)"
  by (simp_all add: window_ok_def honest_ok_def new_sender_def index_set_def sent_count_def)

interpretation window: invariant_system "sw_step cs ds window" "\<lambda>s. distinct (map ci_index cs) \<longrightarrow> window_ok cs window s" for cs ds window
  by unfold_locales (use window_ok_step in blast)

interpretation honest_run: invariant_system "sw_honest cs ds window"
    "\<lambda>s. distinct (map ci_index cs) \<longrightarrow> window_ok cs window s \<and> honest_ok s" for cs ds window
  by unfold_locales (use window_ok_step honest_ok_step in \<open>auto simp: sw_honest_def\<close>)

lemma honest_reachable:
  assumes "distinct (map ci_index cs)" and "(sw_honest cs ds window)\<^sup>*\<^sup>* (new_sender (length cs)) s"
  shows "window_ok cs window s \<and> honest_ok s"
  using honest_run.runs_keep [OF assms(2)] assms(1) new_sender_ok by blast

lemma acked_bound:
  assumes "window_ok cs window s" and "honest_ok s"
  shows "length (sw_acked s) \<le> sw_send_idx s"
proof -
  have "card (set (sw_acked s)) \<le> card (index_set cs (sw_send_idx s))"
    using assms by (intro card_mono) (auto simp: window_ok_def honest_ok_def index_set_def)
  also have "\<dots> \<le> sw_send_idx s"
    unfolding index_set_def using card_image_le [of "set (take (sw_send_idx s) cs)" ci_index] card_length [of "take (sw_send_idx s) cs"]
    by simp
  finally show ?thesis using assms(1) by (simp add: window_ok_def distinct_card)
qed

text \<open>
  C29. The window of the sender, whatever the peer does: no more chunks than the window holds wait
  for an acknowledgement, no chunk is sent more than six times (once, and five times again),
  and what was sent are the first chunks of the file.
\<close>

theorem window_bounds:
  assumes "distinct (map ci_index cs)" and "(sw_step cs ds window)\<^sup>*\<^sup>* (new_sender (length cs)) s"
  shows "length (sw_unacked s) \<le> window \<and> (\<forall>i. length (filter (\<lambda>(j, h, d). j = i) (sw_sent s)) \<le> 6) \<and>
     fst ` set (sw_sent s) = ci_index ` set (take (sw_send_idx s) cs)"
proof -
  have "window_ok cs window s"
    using window.runs_keep [OF assms(2)] assms(1) new_sender_ok(1) by blast
  then show ?thesis by (simp add: window_ok_def sent_count_def index_set_def MAX_RETRIES_def)
qed

text \<open>
  C30. The window never slides. Once the sender has filled it and a chunk of the file is left, then with an
  honest peer and a connection that holds, acknowledgements never make it send that
  chunk, and \<^verbatim>\<open>send_all\<close> waits for ever.
\<close>

theorem window_never_slides:
  assumes "distinct (map ci_index cs)" and "(sw_honest cs ds window)\<^sup>*\<^sup>* (new_sender (length cs)) s"
    and "sw_phase s = Waiting" and "sw_send_idx s < length cs" and "(sw_honest cs ds window)\<^sup>*\<^sup>* s s'"
  shows "sw_phase s' = Waiting \<and> \<not> sw_done s' \<and> ci_index (cs ! sw_send_idx s) \<notin> fst ` set (sw_sent s')"
proof -
  have "window_ok cs window s' \<and> honest_ok s' \<and> sw_phase s' = Waiting \<and> sw_send_idx s' = sw_send_idx s"
    using assms(5)
  proof (induction rule: rtranclp_induct)
    case base
    show ?case using honest_reachable [OF assms(1,2)] assms(3) by simp
  next
    case (step t u)
    have "\<not> sw_done t"
      using step.IH acked_bound [of cs window t] assms(4) by (auto simp: honest_ok_def window_ok_def)
    moreover have "sw_step cs ds window t u" using step.hyps(2) by (simp add: sw_honest_def)
    ultimately have "sw_phase u = Waiting \<and> sw_send_idx u = sw_send_idx s"
      using step.IH by (auto simp: handle_ack_def Let_def elim!: sw_stepE)
    then show ?case
      using step window_ok_step [OF _ assms(1)] honest_ok_step [OF step.hyps(2) _ _ assms(1)] by (auto simp: sw_honest_def)
  qed
  then have inv: "window_ok cs window s'" "honest_ok s'" "sw_phase s' = Waiting" "sw_send_idx s' = sw_send_idx s" by simp_all
  have "\<not> sw_done s'"
    using acked_bound [OF inv(1,2)] inv assms(4) by (auto simp: honest_ok_def window_ok_def)
  moreover have "ci_index (cs ! sw_send_idx s) \<notin> fst ` set (sw_sent s')"
    using index_fresh [OF assms(1,4)] inv(1,4) by (simp add: window_ok_def)
  ultimately show ?thesis using inv(3) by simp
qed

text \<open>
  When \<^verbatim>\<open>send_all\<close> returns after an honest run, every chunk was sent and acknowledged,
  and the statistic of retransmissions is 0, however many chunks were sent again: it looks up
  acknowledged chunks among the unacknowledged ones.
\<close>

theorem returned_statistics:
  assumes "distinct (map ci_index cs)" and "(sw_honest cs ds window)\<^sup>*\<^sup>* (new_sender (length cs)) s"
    and "sw_phase s = Returned"
  shows "sw_stats_of window elapsed s =
       \<lparr>st_total_sent = length cs, st_total_acked = length cs, st_retransmissions = 0,
        st_elapsed = elapsed, st_window_size = Some window\<rparr> \<and>
     set (sw_acked s) = ci_index ` set cs"
proof -
  have inv: "window_ok cs window s" "honest_ok s" using honest_reachable [OF assms(1,2)] by simp_all
  have len: "length (sw_acked s) = length cs" "sw_send_idx s = length cs"
    using acked_bound [OF inv] inv assms(3) by (auto simp: window_ok_def honest_ok_def)
  have sub: "set (sw_acked s) \<subseteq> ci_index ` set cs"
    using inv len(2) by (auto simp: window_ok_def honest_ok_def index_set_def)
  moreover have "card (set (sw_acked s)) = card (ci_index ` set cs)"
    using inv(1) len(1) assms(1) distinct_card [of "map ci_index cs"] by (simp add: window_ok_def distinct_card)
  ultimately have all: "set (sw_acked s) = ci_index ` set cs" by (intro card_subset_eq) simp_all
  have "dict_get (sw_unacked s) i = None" if "i \<in> set (sw_acked s)" for i
    using inv(2) that by (simp add: honest_ok_def)
  then have "filter (\<lambda>i. i \<in> set (dict_keys (unacked_retries s))) (sw_acked s) = []"
    by (force simp: filter_empty_conv unacked_retries_def map_of_eq_None_iff)
  then show ?thesis using inv(1) len(1) all by (simp add: sw_stats_of_def window_ok_def)
qed

subsection \<open>Runs\<close>

definition two_infos :: "chunk_info list" where
  "two_infos = [\<lparr>ci_index = 0, ci_hash = ''a'', ci_size = 1, ci_encrypted = False\<rparr>,
                \<lparr>ci_index = 1, ci_hash = ''b'', ci_size = 1, ci_encrypted = False\<rparr>]"

definition filled :: sw_sender where
  "filled = (sw_send_chunk 0 (two_infos ! 0) [7] (new_sender 2))\<lparr>sw_phase := Waiting\<rparr>"

lemma filled_fields:
  "sw_phase filled = Waiting" "sw_send_idx filled = 1" "sw_listening filled" "sw_total filled = 2"
  "sw_acked filled = []" "sw_sent filled = [(0, ''a'', [7])]" "\<not> sw_done filled"
  by (simp_all add: filled_def sw_send_chunk_def new_sender_def two_infos_def)

lemma filled_run: "(sw_honest two_infos [[7], [8]] 1)\<^sup>*\<^sup>* (new_sender (length two_infos)) filled"
proof -
  let ?s0 = "new_sender (length two_infos)"
  let ?s1 = "sw_send_chunk 0 (two_infos ! 0) ([[7], [8]] ! 0) ?s0"
  have "sw_step two_infos [[7], [8]] 1 ?s0 ?s1"
    using fill_send [of ?s0 1 "[[7], [8]]" two_infos 0] by (simp add: new_sender_def fill_more_def two_infos_def)
  then have a: "sw_honest two_infos [[7], [8]] 1 ?s0 ?s1"
    by (simp add: sw_honest_def sw_send_chunk_def new_sender_def)
  have "sw_step two_infos [[7], [8]] 1 ?s1 (?s1\<lparr>sw_phase := Waiting\<rparr>)"
    by (rule fill_ends) (simp_all add: sw_send_chunk_def new_sender_def fill_more_def)
  then have b: "sw_honest two_infos [[7], [8]] 1 ?s1 filled"
    by (simp add: sw_honest_def filled_def sw_send_chunk_def new_sender_def two_infos_def numeral_2_eq_2)
  from a b show ?thesis by (auto intro: rtranclp.rtrancl_into_rtrancl)
qed

lemma two_infos_distinct: "distinct (map ci_index two_infos)"
  by (simp add: two_infos_def)

theorem window_bounds_witness: "length (sw_unacked filled) \<le> 1"
proof -
  have "(sw_step two_infos [[7], [8]] 1)\<^sup>*\<^sup>* (new_sender (length two_infos)) filled"
    using filled_run by (rule rtranclp_mono [THEN predicate2D, rotated]) (auto simp: sw_honest_def)
  then show ?thesis using window_bounds [OF two_infos_distinct] by blast
qed

theorem window_never_slides_witness:
  "sw_phase (handle_ack 0 filled) = Waiting \<and> \<not> sw_done (handle_ack 0 filled) \<and>
     1 \<notin> fst ` set (sw_sent (handle_ack 0 filled))"
proof -
  have "sw_step two_infos [[7], [8]] 1 filled (handle_ack 0 filled)"
    by (rule gets_ack) (simp_all add: filled_fields)
  then have "sw_honest two_infos [[7], [8]] 1 filled (handle_ack 0 filled)"
    by (simp add: sw_honest_def handle_ack_def filled_fields)
  then have "(sw_honest two_infos [[7], [8]] 1)\<^sup>*\<^sup>* filled (handle_ack 0 filled)" by (rule r_into_rtranclp)
  from window_never_slides [OF two_infos_distinct filled_run _ _ this] show ?thesis
    by (simp add: filled_fields) (simp add: two_infos_def)
qed

text \<open>One chunk, sent, sent again after ten seconds, acknowledged.\<close>

theorem returned_statistics_witness:
  "\<exists>s. sw_phase s = Returned \<and> length (sw_sent s) = 2 \<and> st_retransmissions (sw_stats_of 1 10 s) = 0"
proof -
  let ?cs = "[\<lparr>ci_index = 0, ci_hash = ''a'', ci_size = 1, ci_encrypted = False\<rparr>]"
  let ?go = "sw_honest ?cs [[7]] 1"
  let ?uc = "new_unacked 0 0 ''a'' [7]"
  define s0 where "s0 = new_sender (length ?cs)"
  define s1 where "s1 = sw_send_chunk 0 (?cs ! 0) ([[7]] ! 0) s0"
  define s2 where "s2 = s1\<lparr>sw_phase := Waiting\<rparr>"
  define s3 where "s3 = s2\<lparr>sw_resend := timed_out 10 s2\<rparr>"
  define s4 where "s4 = (sweep_one 10 ?uc s3)\<lparr>sw_resend := []\<rparr>"
  define s5 where "s5 = handle_ack 0 s4"
  define s6 where "s6 = s5\<lparr>sw_phase := Returned\<rparr>"
  note defs = s0_def s1_def s2_def s3_def s4_def s5_def s6_def new_sender_def sw_send_chunk_def new_unacked_def
    timed_out_def TIMEOUT_SECONDS_def sweep_one_def MAX_RETRIES_def handle_ack_def
  have "sw_step ?cs [[7]] 1 s0 s1" unfolding s1_def
    using fill_send [of s0 1 "[[7]]" ?cs 0] by (simp add: s0_def new_sender_def fill_more_def)
  moreover have "sw_step ?cs [[7]] 1 s1 s2" unfolding s2_def by (rule fill_ends) (simp_all add: fill_more_def defs)
  moreover have "sw_step ?cs [[7]] 1 s2 s3" unfolding s3_def by (rule sweep_starts) (simp_all add: defs)
  moreover have "sw_step ?cs [[7]] 1 s3 s4" unfolding s4_def by (rule sweep_goes_on) (simp_all add: defs)
  moreover have "sw_step ?cs [[7]] 1 s4 s5" unfolding s5_def by (rule gets_ack) (simp_all add: defs)
  moreover have "sw_step ?cs [[7]] 1 s5 s6" unfolding s6_def by (rule finishes) (simp_all add: defs)
  moreover have "sw_listening s" "set (sw_acked s) \<subseteq> fst ` set (sw_sent s)" if "s \<in> {s1, s2, s3, s4, s5, s6}" for s
    using that by (auto simp: defs)
  ultimately have "?go s0 s1" "?go s1 s2" "?go s2 s3" "?go s3 s4" "?go s4 s5" "?go s5 s6"
    by (simp_all add: sw_honest_def)
  then have run: "?go\<^sup>*\<^sup>* (new_sender (length ?cs)) s6"
    unfolding s0_def by (meson converse_rtranclp_into_rtranclp rtranclp.rtrancl_refl)
  have "sw_phase s6 = Returned" "length (sw_sent s6) = 2" by (simp_all add: defs)
  with returned_statistics [OF _ run] show ?thesis by auto
qed

end
