(* ===== verification/Api.thy ===== *)
theory Api
  imports Downloads Replication
begin

section \<open>The HTTP endpoints (backend/api/routes.py)\<close>

text \<open>
  The request handlers, each from its first check to its response. What the peers' HTTP servers
  answer is a parameter (\<open>peer_net\<close>), as in the chunk loaders. The node, store and managers have been
  injected by \<^verbatim>\<open>init_routes\<close>, so the 503 branches are not taken. A handler's result is a value
  or the exception it ends with; \<open>HTTPException\<close> carries the status and the start of the text.
  Temporary files have fresh names, which are arguments.
\<close>

record file_entry =
  fe_file_hash :: "string option"
  fe_filename :: "string option"
  fe_size :: "int option"
  fe_chunks :: nat
  fe_merkle_root :: string
  fe_source :: string

record peer_net =
  pn_chunk :: "nat \<Rightarrow> peer_info \<Rightarrow> string \<Rightarrow> bytes option"
  pn_manifest :: "nat \<Rightarrow> peer_info \<Rightarrow> string \<Rightarrow> manifest_dict option"
  pn_files :: "nat \<Rightarrow> peer_info \<Rightarrow> file_entry list option"

subsection \<open>Serving this node's data\<close>

definition get_manifest :: "string \<Rightarrow> local_store \<Rightarrow> manifest_dict res" where
  "get_manifest fh st =
     (case load_manifest st fh of
        None \<Rightarrow> Inl (HTTPException 404 (''Manifest not found: '' @ fh))
      | Some d \<Rightarrow> Inr d)"

definition get_chunk :: "string \<Rightarrow> local_store \<Rightarrow> bytes res \<times> local_store" where
  "get_chunk chunk_hash st =
     (let (data, st') = load_chunk st chunk_hash
      in (case data of
            None \<Rightarrow> Inl (HTTPException 404 (''Chunk not found: '' @ take 16 chunk_hash @ ''...''))
          | Some d \<Rightarrow> Inr d, st'))"

record api_status =
  as_node :: node_status
  as_local_chunks :: "string list"
  as_storage_used :: nat
  as_storage_used_mb :: real
  as_storage_max_mb :: int
  as_swarm_auth_active :: bool

definition get_status :: "(real \<Rightarrow> real) \<Rightarrow> int \<Rightarrow> api_world \<Rightarrow> api_status" where
  "get_status round2 max_storage_mb w =
     \<lparr>as_node = status round2 (ls_now (aw_store w)) (aw_node w),
      as_local_chunks = list_chunks (aw_store w),
      as_storage_used = get_storage_size (aw_store w),
      as_storage_used_mb = round2 (real (get_storage_size (aw_store w)) / (1024 * 1024)),
      as_storage_max_mb = max_storage_mb, as_swarm_auth_active = True\<rparr>"

subsection \<open>Upload\<close>

record upload_response =
  ur_file_hash :: string
  ur_filename :: string
  ur_size :: int
  ur_compressed_size :: nat
  ur_compression_ratio :: real
  ur_compression :: string
  ur_chunks :: nat
  ur_manifest :: manifest_dict
  ur_replication :: "(string, repl_result) dict"

definition optional_password :: "string \<Rightarrow> string option" where
  "optional_password password = (if password = [] then None else Some password)"

definition store_all :: "(chunk_info \<times> bytes) list \<Rightarrow> repl_state \<Rightarrow> repl_state" where
  "store_all cs S = fold (\<lambda>(info, d). store_locally info d) cs S"

text \<open>\<^verbatim>\<open>os.path.join\<close>: an absolute name replaces the directory.\<close>

definition path_join :: "string \<Rightarrow> string \<Rightarrow> string" where
  "path_join dir name =
     (if take 1 name = ''/'' then name
      else if dir = [] \<or> last dir = CHR ''/'' then dir @ name
      else dir @ ''/'' @ name)"

text \<open>\<open>fs\<close> are the files of the machine; the temporary file is removed whatever happens.\<close>

definition upload_file ::
    "lib \<Rightarrow> repl_env \<Rightarrow> (real \<Rightarrow> real) \<Rightarrow> string \<Rightarrow> string \<Rightarrow> bytes \<Rightarrow> string \<Rightarrow> filesys \<Rightarrow> rng \<Rightarrow> repl_state \<Rightarrow>
     upload_response res \<times> filesys \<times> rng \<times> repl_state" where
  "upload_file L R round2 tmp_dir filename content password fs r S =
     (let tmp_path = path_join tmp_dir filename;
          fs1 = fs(tmp_path \<mapsto> content);
          fs2 = fs1(tmp_path := None);
          opt_chunk_size = get_optimal_chunk_size (int (length content));
          (chunked, r') = chunk_file L fs1 tmp_path opt_chunk_size (optional_password password) r
      in case chunked of
           Inl e \<Rightarrow> (Inl e, fs2, r', S)
         | Inr (m, datas) \<Rightarrow>
             let S1 = store_all (zip (chunks m) datas) S;
                 S2 = S1\<lparr>rp_store := snd (save_manifest (file_hash m) (to_dict m) (rp_store S1))\<rparr>;
                 (replicated, S3) =
                   (if get_alive_peers (re_now R) 15 (nt_node S2) = [] then (Inr [], S2)
                    else replicate_chunks R m datas S2);
                 compressed_size = sum_list (map length datas)
             in (bindr replicated (\<lambda>rep. Inr
                   \<lparr>ur_file_hash = file_hash m, ur_filename = original_filename m, ur_size = original_size m,
                    ur_compressed_size = compressed_size,
                    ur_compression_ratio = (if compressed_size > 0 then round2 (real_of_int (original_size m) / real compressed_size) else 1),
                    ur_compression = compression m, ur_chunks = length (chunks m), ur_manifest = to_dict m,
                    ur_replication = rep\<rparr>), fs2, r', S3))"

subsection \<open>Finding a manifest and the chunks\<close>

definition empty_dict :: "manifest_dict \<Rightarrow> bool" where
  "empty_dict d \<longleftrightarrow> d = \<lparr>md_version = None, md_file_hash = None, md_original_filename = None, md_original_size = None,
     md_chunk_size = None, md_merkle_root = None, md_compression = None, md_chunk_count = None, md_chunks = None\<rparr>"

text \<open>The manifest of the local database, or the first a peer answers with, which is saved. \<open>None\<close> gives a 404.\<close>

definition fetch_manifest :: "peer_net \<Rightarrow> string \<Rightarrow> api_world \<Rightarrow> manifest_dict option \<times> api_world" where
  "fetch_manifest P fh w =
     (case load_manifest (aw_store w) fh of
        Some d \<Rightarrow> (Some d, w)
      | None \<Rightarrow>
          let (answer, n) = ask_peers (\<lambda>n p. pn_manifest P n p fh) (alive_peers w) (aw_requests w)
          in case answer of
               None \<Rightarrow> (None, w\<lparr>aw_requests := n\<rparr>)
             | Some d \<Rightarrow>
                 (if empty_dict d then None else Some d,
                  w\<lparr>aw_store := snd (save_manifest fh d (aw_store w)), aw_requests := n\<rparr>))"

definition file_not_found :: "string \<Rightarrow> exn" where
  "file_not_found fh = HTTPException 404 (''File not found: '' @ fh)"

definition nowhere :: "string \<Rightarrow> exn" where
  "nowhere chunk_hash = HTTPException 404 (''Chunk '' @ take 16 chunk_hash @ ''... not found on any node'')"

fun fetch_chunks :: "'s load_fn \<Rightarrow> chunk_info list \<Rightarrow> 's \<Rightarrow> bytes list res \<times> 's" where
  "fetch_chunks load [] w = (Inr [], w)"
| "fetch_chunks load (info # rest) w =
     (let (data, w1) = load (ci_hash info) w
      in case data of
           Inl e \<Rightarrow> (Inl e, w1)
         | Inr d \<Rightarrow> let (ds, w2) = fetch_chunks load rest w1 in (bindr ds (\<lambda>xs. Inr (d # xs)), w2))"

definition needs_password :: "file_manifest \<Rightarrow> string option \<Rightarrow> bool" where
  "needs_password m pwd \<longleftrightarrow> list_ex ci_encrypted (chunks m) \<and> pwd = None"

definition password_missing :: exn where
  "password_missing = HTTPException 400 ''This file is encrypted.''"

subsection \<open>Download and preview\<close>

record file_response =
  fr_content :: bytes
  fr_filename :: string

text \<open>
  The background task that removes the temporary file runs after the response. A \<^verbatim>\<open>ValueError\<close> of
  the merger becomes a 400 and the file is removed; any other exception passes.
\<close>

definition download_file ::
    "lib \<Rightarrow> peer_net \<Rightarrow> string \<Rightarrow> string \<Rightarrow> string \<Rightarrow> filesys \<Rightarrow> api_world \<Rightarrow> file_response res \<times> filesys \<times> api_world" where
  "download_file L P fh password temp_file fs w =
     (let (found, w1) = fetch_manifest P fh w
      in case found of
           None \<Rightarrow> (Inl (file_not_found fh), fs, w1)
         | Some d \<Rightarrow>
             (case from_dict L d of
                Inl e \<Rightarrow> (Inl e, fs, w1)
              | Inr m \<Rightarrow>
                  let (fetched, w2) = fetch_chunks (chunk_loader (pn_chunk P) nowhere) (chunks m) w1
                  in case fetched of
                       Inl e \<Rightarrow> (Inl e, fs, w2)
                     | Inr datas \<Rightarrow>
                         let pwd = optional_password password
                         in if needs_password m pwd then (Inl password_missing, fs, w2)
                            else
                              (case merge_chunks_to_disk L m datas temp_file pwd fs of
                                 (Inr _, fs') \<Rightarrow>
                                   (Inr \<lparr>fr_content = the (fs' temp_file), fr_filename = original_filename m\<rparr>,
                                    fs'(temp_file := None), w2)
                               | (Inl (ValueError _), fs') \<Rightarrow>
                                   (Inl (HTTPException 400 ''Decryption/integrity error''), fs'(temp_file := None), w2)
                               | (Inl e, fs') \<Rightarrow> (Inl e, fs', w2))))"

record preview_response =
  pv_filename :: string
  pv_content_length :: int
  pv_body :: "bytes list"
  pv_end :: "unit res"

text \<open>The body is what the generator yields before it ends or raises; the headers are sent before.\<close>

definition preview_file ::
    "lib \<Rightarrow> peer_net \<Rightarrow> string \<Rightarrow> string \<Rightarrow> api_world \<Rightarrow> preview_response res \<times> api_world" where
  "preview_file L P fh password w =
     (let (found, w1) = fetch_manifest P fh w
      in case found of
           None \<Rightarrow> (Inl (file_not_found fh), w1)
         | Some d \<Rightarrow>
             (case from_dict L d of
                Inl e \<Rightarrow> (Inl e, w1)
              | Inr m \<Rightarrow>
                  let pwd = optional_password password
                  in if needs_password m pwd then (Inl password_missing, w1)
                     else
                       let (body, fin, w2) = pipeline_stream_file L m (chunk_loader (pn_chunk P) preview_missing) pwd w1
                       in (Inr \<lparr>pv_filename = original_filename m, pv_content_length = original_size m,
                                pv_body = body, pv_end = fin\<rparr>, w2)))"

subsection \<open>The list of files\<close>

definition local_entry :: "manifest_dict \<Rightarrow> file_entry" where
  "local_entry d =
     \<lparr>fe_file_hash = md_file_hash d, fe_filename = md_original_filename d, fe_size = md_original_size d,
      fe_chunks = length (get_or [] (md_chunks d)), fe_merkle_root = get_or [] (md_merkle_root d), fe_source = ''local''\<rparr>"

text \<open>The entries of one peer: those with a hash that was not seen yet.\<close>

definition add_entry :: "string \<Rightarrow> file_entry \<Rightarrow> string option list \<times> file_entry list \<Rightarrow> string option list \<times> file_entry list" where
  "add_entry peer_name pf = (\<lambda>(seen, files).
     case fe_file_hash pf of
       Some h \<Rightarrow>
         if h \<noteq> [] \<and> Some h \<notin> set seen
         then (Some h # seen, files @ [pf\<lparr>fe_source := ''peer:'' @ peer_name\<rparr>]) else (seen, files)
     | None \<Rightarrow> (seen, files))"

fun list_peer_files ::
    "peer_net \<Rightarrow> (string, peer_info) dict \<Rightarrow> string option list \<times> file_entry list \<Rightarrow> nat \<Rightarrow>
     (string option list \<times> file_entry list) \<times> nat" where
  "list_peer_files P [] acc n = (acc, n)"
| "list_peer_files P ((nid, p) # rest) acc n =
     (case pn_files P n p of
        None \<Rightarrow> list_peer_files P rest acc (Suc n)
      | Some pfs \<Rightarrow> list_peer_files P rest (fold (add_entry (pi_name p)) pfs acc) (Suc n))"

definition list_files :: "peer_net \<Rightarrow> bool \<Rightarrow> api_world \<Rightarrow> file_entry list \<times> api_world" where
  "list_files P local_only w =
     (let own = map local_entry (get_all_manifests (aw_store w))
      in if local_only then (own, w)
         else
           let ((seen, files), n) = list_peer_files P (alive_peers w) (map fe_file_hash own, own) (aw_requests w)
           in (files, w\<lparr>aw_requests := n\<rparr>))"

subsection \<open>Resumable downloads\<close>

record download_view =
  dv_file_hash :: string
  dv_filename :: string
  dv_total_chunks :: int
  dv_total_size :: int
  dv_downloaded_chunks :: nat
  dv_missing_count :: nat
  dv_progress :: real
  dv_started_at :: real
  dv_updated_at :: real
  dv_status :: download_status
  dv_error :: download_error

definition download_to_dict :: "(real \<Rightarrow> real) \<Rightarrow> download_state \<Rightarrow> download_view" where
  "download_to_dict round1 s =
     \<lparr>dv_file_hash = dl_file_hash s, dv_filename = dl_filename s, dv_total_chunks = dl_total_chunks s,
      dv_total_size = dl_total_size s, dv_downloaded_chunks = downloaded_chunks s,
      dv_missing_count = length (dl_missing s), dv_progress = progress round1 s, dv_started_at = dl_started_at s,
      dv_updated_at = dl_updated_at s, dv_status = dl_status s, dv_error = dl_error s\<rparr>"

definition get_all_downloads :: "(real \<Rightarrow> real) \<Rightarrow> dl_system \<Rightarrow> (string, download_view) dict" where
  "get_all_downloads round1 S = map (\<lambda>(fh, s). (fh, download_to_dict round1 s)) (sy_downloads S)"

definition start_resumable_download ::
    "lib \<Rightarrow> peer_net \<Rightarrow> (real \<Rightarrow> real) \<Rightarrow> string \<Rightarrow> string \<Rightarrow> dl_system \<Rightarrow> download_view res \<times> dl_system" where
  "start_resumable_download L P round1 fh password S =
     (let (found, w) = fetch_manifest P fh (sy_world S);
          S1 = S\<lparr>sy_world := w\<rparr>
      in case found of
           None \<Rightarrow> (Inl (file_not_found fh), S1)
         | Some d \<Rightarrow>
             let (r, S2) = start_download L fh d password S1
             in (bindr r (\<lambda>s. Inr (download_to_dict round1 s)), S2))"

definition api_pause_download ::
    "lib \<Rightarrow> api_world load_fn \<Rightarrow> nat \<Rightarrow> (real \<Rightarrow> real) \<Rightarrow> string \<Rightarrow> dl_system \<Rightarrow> download_view res \<times> dl_system" where
  "api_pause_download L load ticks round1 fh S =
     (let (s, S') = pause_download L load ticks fh S
      in (case s of
            None \<Rightarrow> Inl (HTTPException 404 (''No active download for: '' @ fh))
          | Some s \<Rightarrow> Inr (download_to_dict round1 s), S'))"

definition api_resume_download ::
    "lib \<Rightarrow> (real \<Rightarrow> real) \<Rightarrow> string \<Rightarrow> string \<Rightarrow> dl_system \<Rightarrow> download_view res \<times> dl_system" where
  "api_resume_download L round1 fh password S =
     (let (r, S') = resume_download L fh password S
      in (bindr r (\<lambda>s. case s of
            None \<Rightarrow> Inl (HTTPException 404 (''No paused download for: '' @ fh))
          | Some s \<Rightarrow> Inr (download_to_dict round1 s)), S'))"

definition download_progress :: "(real \<Rightarrow> real) \<Rightarrow> string \<Rightarrow> dl_system \<Rightarrow> download_view res" where
  "download_progress round1 fh S =
     (case get_download S fh of
        None \<Rightarrow> Inl (HTTPException 404 (''No download tracked for: '' @ fh))
      | Some s \<Rightarrow> Inr (download_to_dict round1 s))"

definition list_downloads :: "(real \<Rightarrow> real) \<Rightarrow> dl_system \<Rightarrow> (string, download_view) dict" where
  "list_downloads round1 S = get_all_downloads round1 S"

definition clear_downloads :: "(real \<Rightarrow> real) \<Rightarrow> dl_system \<Rightarrow> (string, download_view) dict \<times> dl_system" where
  "clear_downloads round1 S =
     (let S' = clear_completed S in (get_all_downloads round1 S', S'))"

subsection \<open>Upload, then download\<close>

context chunk_source
begin

lemma fetch_all:
  "has_all s xs \<Longrightarrow> \<exists>s'. fetch_chunks load (map fst xs) s = (Inr (map snd xs), s') \<and> (\<forall>ys. has_all s ys \<longrightarrow> has_all s' ys)"
proof (induction xs arbitrary: s)
  case Nil
  show ?case by simp
next
  case (Cons x xs)
  obtain info d where x: "x = (info, d)" by fastforce
  obtain s1 where l: "load (ci_hash info) s = (Inr d, s1)"
    using Cons.prems load_hit [of s "ci_hash info" d] by (cases "load (ci_hash info) s") (simp add: x has_all_Cons)
  have keep: "has_all s1 ys" if "has_all s ys" for ys using has_all_load [of s ys "ci_hash info"] that l by simp
  then have "has_all s1 xs" using Cons.prems by (simp add: x has_all_Cons)
  with Cons.IH obtain s' where "fetch_chunks load (map fst xs) s1 = (Inr (map snd xs), s')"
    "\<forall>ys. has_all s1 ys \<longrightarrow> has_all s' ys" by blast
  then show ?case using l keep by (auto simp: x)
qed

end

lemma stored_file_opens:
  assumes "stored_file L password content es m"
  shows "\<exists>ds. mapr (chunk_opener L m es password) (ordered_chunks m es) = Inr ds \<and> concat ds = content \<and>
     file_hash m = sha256 L content"
proof -
  obtain path csize r cs where c: "csize \<noteq> 0"
    and es: "opens_to L (fresh_keysalt L password r) es (map snd (stream_chunks csize 0 content))"
    and m: "m = (chunked_manifest L path content csize (truthy password) es)\<lparr>chunk_size := cs\<rparr>"
    using assms by (auto simp: stored_file_def)
  let ?m0 = "chunked_manifest L path content csize (truthy password) es"
  have m': "m\<lparr>chunks := chunks ?m0\<rparr> = m" by (simp add: m)
  have f: "compression m = ''zstd''" "file_hash m = sha256 L content"
    by (simp_all add: m chunked_manifest_def new_manifest_def)
  have "bindr (mapr (chunk_opener L m es password) (ordered_chunks m es)) (\<lambda>ds. Inr (concat ds)) = Inr content"
    using merge_of_chunked(2) [OF es c, of "chunks ?m0" es path m, OF refl f(1)] by (simp only: m')
  then show ?thesis using f(2) by (auto simp: bindr_eq_Inr)
qed

text \<open>Merging does not look at the file hash before the end.\<close>

lemma merge_disk_hash:
  assumes "stored_file L password content es m"
  shows "merge_chunks_to_disk L (m\<lparr>file_hash := fh\<rparr>) es out password fs =
     (if sha256 L content = fh then (Inr out, fs(out \<mapsto> content))
      else (Inl (ValueError (IntegrityFailed fh (sha256 L content))), fs(out := None)))"
proof -
  have "ordered_chunks (m\<lparr>file_hash := fh\<rparr>) es = ordered_chunks m es" by (simp add: ordered_chunks_def)
  moreover have "chunk_opener L (m\<lparr>file_hash := fh\<rparr>) es password = chunk_opener L m es password"
    by (simp add: chunk_opener_def ordered_chunks_def)
  ultimately show ?thesis
    using stored_file_opens [OF assms] by (auto simp: merge_to_disk_concat)
qed

lemma merge_disk_stored:
  assumes "stored_file L password content es m"
  shows "merge_chunks_to_disk L m es out password fs = (Inr out, fs(out \<mapsto> content))"
  using merge_disk_hash [OF assms, of "sha256 L content" out fs] stored_file_opens [OF assms]
  by (metis file_manifest.surjective file_manifest.update_convs(3))

lemma stored_file_chunk_size: "stored_file L password content es m \<Longrightarrow> stored_file L password content es (m\<lparr>chunk_size := cs\<rparr>)"
  unfolding stored_file_def by fastforce

lemma chunk_file_name:
  "chunk_file L fs path csize password r = (Inr (m, es), r') \<Longrightarrow> original_filename m = path_name path"
  by (auto simp: chunk_file_def Let_def bindr_eq_Inr new_manifest_def split: option.splits prod.splits if_splits)

lemma path_name_join: "CHR ''/'' \<notin> set filename \<Longrightarrow> path_name (path_join dir filename) = filename"
proof -
  assume f: "CHR ''/'' \<notin> set filename"
  have "path_name (d @ ''/'' @ filename) = filename" for d
  proof -
    have "takeWhile (\<lambda>c. c \<noteq> CHR ''/'') (rev filename @ CHR ''/'' # rev d) = rev filename"
      using f by (subst takeWhile_append2) auto
    then show ?thesis by (simp add: path_name_def)
  qed
  moreover have "path_name filename = filename"
  proof -
    have "takeWhile (\<lambda>c. c \<noteq> CHR ''/'') (rev filename) = rev filename" using f by (subst takeWhile_eq_all_conv) auto
    then show ?thesis by (simp only: path_name_def rev_rev_ident)
  qed
  moreover have "path_join dir filename = filename \<or> (\<exists>d. path_join dir filename = d @ ''/'' @ filename)"
    by (cases dir rule: rev_cases) (auto simp: path_join_def)
  moreover have "take 1 filename \<noteq> ''/''" using f by (cases filename) auto
  ultimately show ?thesis by auto
qed

lemma store_all_view:
  "chunk_view (rp_store (store_all cs S)) h =
     chunk_view (fold (\<lambda>(c, b). save_chunk (ci_hash c) b) cs (rp_store S)) h"
  unfolding store_all_def by (induction cs arbitrary: S) (auto simp: case_prod_beta)

lemma replicate_loop_db:
  "0 \<le> re_k R \<Longrightarrow> replicate_loop R fh cs results S = (Inr results', S') \<Longrightarrow> ls_db (rp_store S') = ls_db (rp_store S)"
proof (induction cs arbitrary: results S)
  case (Cons c cs)
  obtain info d where c: "c = (info, d)" by fastforce
  obtain r S1 where s: "replicate_chunk R fh c S = (r, S1)" by fastforce
  with Cons.prems(2) obtain res where r: "r = Inr res" by (cases r) auto
  have "replicate_loop R fh cs (dict_set (ci_hash (fst c)) res results) S1 = (Inr results', S')"
    using Cons.prems(2) s r by simp
  from Cons.IH [OF Cons.prems(1) this] replicate_chunk_ok [OF Cons.prems(1) s [unfolded r c]] show ?case by simp
qed simp

text \<open>What an upload leaves in the store.\<close>

text \<open>The chunks an upload makes of its content, as they are stored and sent.\<close>

definition uploaded_chunks :: "lib \<Rightarrow> string \<Rightarrow> string \<Rightarrow> bytes \<Rightarrow> string \<Rightarrow> filesys \<Rightarrow> rng \<Rightarrow> bytes list" where
  "uploaded_chunks L tmp_dir filename content password fs r =
     (let path = path_join tmp_dir filename
      in case fst (chunk_file L (fs(path \<mapsto> content)) path (get_optimal_chunk_size (int (length content)))
               (optional_password password) r) of
           Inr (m, es) \<Rightarrow> es
         | Inl e \<Rightarrow> [])"

lemma upload_stored:
  assumes "lib_ok L" and "0 \<le> re_k R" and "CHR ''/'' \<notin> set filename"
    and "upload_file L R round2 tmp_dir filename content password fs r S = (Inr resp, fs', r', S')"
    and "\<not> collision_in L (set (uploaded_chunks L tmp_dir filename content password fs r))"
    and "es = uploaded_chunks L tmp_dir filename content password fs r"
  obtains m where "stored_file L (optional_password password) content es m" and "original_filename m = filename"
    and "ur_file_hash resp = file_hash m" and "\<forall>e \<in> set es. chunk_view (rp_store S') (sha256 L e) = Some e"
    and "load_manifest (rp_store S') (file_hash m) = Some (stored_dict (file_hash m) (to_dict m))"
proof -
  let ?path = "path_join tmp_dir filename" and ?pwd = "optional_password password"
  let ?csize = "get_optimal_chunk_size (int (length content))"
  have cs: "?csize \<noteq> 0" using get_optimal_chunk_size_values [of "int (length content)"] by (auto simp: tier_defs)
  have fs1: "(fs(?path \<mapsto> content)) ?path = Some content" by simp
  obtain es' m r1 where f': "chunk_file L (fs(?path \<mapsto> content)) ?path ?csize ?pwd r = (Inr (m, es'), r1)"
    and m': "stored_file L ?pwd content es' m"
    and z': "zip (chunks m) es' = tagged L (truthy ?pwd) (map fst (stream_chunks ?csize 0 content)) es'"
    and len': "length (stream_chunks ?csize 0 content) = length es'"
    using chunk_file_stored_file [of L "fs(?path \<mapsto> content)" ?path content ?csize ?pwd r, OF assms(1) fs1 cs] by blast
  have es: "es' = es" using f' by (simp add: assms(6) uploaded_chunks_def Let_def)
  note f = f' [unfolded es] and m = m' [unfolded es] and z = z' [unfolded es] and len = len' [unfolded es]
  have nc: "\<not> collision_in L (set es)" using assms(5,6) by simp
  let ?S1 = "store_all (zip (chunks m) es) S"
  let ?S2 = "?S1\<lparr>rp_store := snd (save_manifest (file_hash m) (to_dict m) (rp_store ?S1))\<rparr>"
  have view1: "chunk_view (rp_store ?S1) h = chunk_view (stored_chunks_of L es (rp_store S)) h" for h
    using save_fold [of "map fst (stream_chunks ?csize 0 content)" es L "truthy ?pwd" "rp_store S"] len
    by (simp add: store_all_view z)
  have view2: "\<forall>e \<in> set es. chunk_view (rp_store ?S2) (sha256 L e) = Some e"
    using stored_views [OF nc, of "rp_store S"] view1 by simp
  have hashes: "ci_hash (fst c) = sha256 L (snd c) \<and> snd c \<in> set es" if "c \<in> set (zip (chunks m) es)" for c
    using that unfolding z by (auto simp: tagged_def make_chunk_def dest: set_zip_rightD)
  have "ls_db (rp_store S') = ls_db (rp_store ?S2) \<and> (\<forall>e \<in> set es. chunk_view (rp_store S') (sha256 L e) = Some e) \<and>
      ur_file_hash resp = file_hash m"
  proof (cases "get_alive_peers (re_now R) 15 (nt_node ?S2) = []")
    case True
    then have "S' = ?S2" "ur_file_hash resp = file_hash m" using assms(4) f by (auto simp: upload_file_def Let_def)
    then show ?thesis using view2 by simp
  next
    case False
    obtain rep S3 where s: "replicate_chunks R m es ?S2 = (rep, S3)" by fastforce
    then obtain results where res: "rep = Inr results" "S' = S3" "ur_file_hash resp = file_hash m"
      using assms(4) f False by (cases rep) (auto simp: upload_file_def Let_def)
    have run: "replicate_loop R (file_hash m) (zip (chunks m) es) [] ?S2 = (Inr results, S')"
      using s res by (simp add: replicate_chunks_def)
    have same: "\<forall>c \<in> set (zip (chunks m) es). \<forall>c' \<in> set (zip (chunks m) es). ci_hash (fst c) = ci_hash (fst c') \<longrightarrow> snd c = snd c'"
      using hashes sha256_eq_cases [of L _ _ "set es"] nc by metis
    note ok = replicate_loop_ok [OF assms(2) run same]
    have "chunk_view (rp_store S') (sha256 L e) = Some e" if e: "e \<in> set es" for e
    proof -
      have "map snd (zip (chunks m) es) = es" using stored_file_indices(2) [OF m] by simp
      then have "e \<in> set (map snd (zip (chunks m) es))" using e by simp
      then obtain info where "(info, e) \<in> set (zip (chunks m) es)" by auto
      then show ?thesis using conjunct1 [OF conjunct2 [OF ok]] hashes by fastforce
    qed
    then show ?thesis using replicate_loop_db [OF assms(2) run] res(3) by simp
  qed
  then show thesis
  proof (intro that [OF m])
    show "original_filename m = filename" using chunk_file_name [OF f] path_name_join [OF assms(3)] by simp
    assume a: "ls_db (rp_store S') = ls_db (rp_store ?S2) \<and> (\<forall>e \<in> set es. chunk_view (rp_store S') (sha256 L e) = Some e) \<and>
      ur_file_hash resp = file_hash m"
    then show "ur_file_hash resp = file_hash m" "\<forall>e \<in> set es. chunk_view (rp_store S') (sha256 L e) = Some e" by simp_all
    show "load_manifest (rp_store S') (file_hash m) = Some (stored_dict (file_hash m) (to_dict m))"
      using a by (simp add: load_manifest_def save_manifest_def manifests.get_put)
  qed
qed

lemma load_chunk_pair_db: "load_chunk st h = (d, st') \<Longrightarrow> ls_db st' = ls_db st"
  using load_chunk_db [of st h] by simp

lemma chunk_loader_db: "chunk_loader net missing h w = (r, w') \<Longrightarrow> ls_db (aw_store w') = ls_db (aw_store w)"
  by (auto simp: chunk_loader_def Let_def split: prod.splits option.splits dest: load_chunk_pair_db)

lemma fetch_chunks_db:
  "fetch_chunks (chunk_loader net missing) infos w = (r, w') \<Longrightarrow> ls_db (aw_store w') = ls_db (aw_store w)"
proof (induction infos arbitrary: w r w')
  case (Cons info infos)
  obtain d w1 where l: "chunk_loader net missing (ci_hash info) w = (d, w1)" by fastforce
  obtain ds w2 where f: "fetch_chunks (chunk_loader net missing) infos w1 = (ds, w2)" by fastforce
  show ?case using Cons.prems Cons.IH [OF f] chunk_loader_db [OF l] l f by (auto split: sum.splits)
qed simp

lemma all_stored:
  assumes "stored_file L password content es m" and "\<forall>e \<in> set es. world_chunks w (sha256 L e) = Some e"
  shows "world_source.has_all w (zip (chunks m) es)"
proof -
  have parts: "length (chunks m) = length es" "map ci_hash (chunks m) = map (sha256 L) es"
    using stored_file_indices(2,3) [OF assms(1)] by simp_all
  have "ci_hash info = sha256 L d \<and> d \<in> set es" if z: "(info, d) \<in> set (zip (chunks m) es)" for info d
  proof -
    obtain i where i: "i < length es" "info = chunks m ! i" "d = es ! i"
      using z parts(1) by (auto simp: set_zip)
    have "map ci_hash (chunks m) ! i = map (sha256 L) es ! i" using parts(2) by simp
    then show ?thesis using i parts(1) by simp
  qed
  then show ?thesis using assms(2) by (auto simp: world_source.has_all_def)
qed

lemma no_password_needed:
  assumes "stored_file L (optional_password password) content es m"
  shows "\<not> needs_password m (optional_password password)"
proof -
  obtain path csize cs where c: "m = (chunked_manifest L path content csize (truthy (optional_password password)) es)\<lparr>chunk_size := cs\<rparr>"
    using assms by (auto simp: stored_file_def)
  show ?thesis
  proof (cases "password = []")
    case True
    then have "\<not> truthy (optional_password password)" by (simp add: optional_password_def)
    then show ?thesis
      by (auto simp: needs_password_def c chunked_manifest_def tagged_def make_chunk_def list_ex_iff)
  qed (simp add: needs_password_def optional_password_def)
qed

text \<open>The download once the chunks of a stored file have been fetched.\<close>

lemma download_fetched:
  assumes "stored_file L (optional_password password) content es m"
    and "fetch_manifest P fh w = (Some d, w1)" and "from_dict L d = Inr (m\<lparr>file_hash := fh'\<rparr>)"
    and "fetch_chunks (chunk_loader (pn_chunk P) nowhere) (chunks m) w1 = (Inr es, w2)"
  shows "download_file L P fh password temp fs w =
     (if sha256 L content = fh' then (Inr \<lparr>fr_content = content, fr_filename = original_filename m\<rparr>, fs(temp := None), w2)
      else (Inl (HTTPException 400 ''Decryption/integrity error''), fs(temp := None), w2))"
proof -
  have "\<not> needs_password (m\<lparr>file_hash := fh'\<rparr>) (optional_password password)"
    using no_password_needed [OF assms(1)] by (simp add: needs_password_def)
  then show ?thesis
    using assms(2-4) merge_disk_hash [OF assms(1), of fh' temp fs] by (auto simp: download_file_def)
qed

text \<open>The download of a stored file, for the manifest the node has found.\<close>

lemma download_stored:
  assumes "stored_file L (optional_password password) content es m"
    and "\<forall>e \<in> set es. world_chunks w1 (sha256 L e) = Some e"
    and "fetch_manifest P fh w = (Some d, w1)" and "from_dict L d = Inr (m\<lparr>file_hash := fh'\<rparr>)"
  shows "\<exists>w2. download_file L P fh password temp fs w =
     (if sha256 L content = fh' then (Inr \<lparr>fr_content = content, fr_filename = original_filename m\<rparr>, fs(temp := None), w2)
      else (Inl (HTTPException 400 ''Decryption/integrity error''), fs(temp := None), w2)) \<and>
     ls_db (aw_store w2) = ls_db (aw_store w1) \<and> (\<forall>e \<in> set es. world_chunks w2 (sha256 L e) = Some e)"
proof -
  have len: "length (chunks m) = length es" by (rule stored_file_indices(2) [OF assms(1)])
  have all: "world_source.has_all w1 (zip (chunks m) es)" by (rule all_stored [OF assms(1,2)])
  from world_source.fetch_all [OF this, of "pn_chunk P" nowhere] len obtain w2 where
    f: "fetch_chunks (chunk_loader (pn_chunk P) nowhere) (chunks m) w1 = (Inr es, w2)"
      "\<forall>ys. world_source.has_all w1 ys \<longrightarrow> world_source.has_all w2 ys" by auto
  have "\<forall>e \<in> set es. world_chunks w2 (sha256 L e) = Some e"
  proof
    fix e assume "e \<in> set es"
    then have "world_source.has_all w1 [(make_chunk L 0 e False, e)]"
      using assms(2) by (simp add: world_source.has_all_def make_chunk_def)
    with f(2) have "world_source.has_all w2 [(make_chunk L 0 e False, e)]" by blast
    then show "world_chunks w2 (sha256 L e) = Some e" by (simp add: world_source.has_all_def make_chunk_def)
  qed
  then show ?thesis
    using download_fetched [OF assms(1,3,4) f(1), of temp fs] fetch_chunks_db [OF f(1)] by auto
qed

lemma upload_hash:
  assumes "lib_ok L"
    and "upload_file L R round2 tmp_dir filename content password fs r S = (Inr resp, fs', r', S')"
  shows "ur_file_hash resp = sha256 L content"
proof -
  let ?path = "path_join tmp_dir filename"
  have "get_optimal_chunk_size (int (length content)) \<noteq> 0"
    using get_optimal_chunk_size_values [of "int (length content)"] by (auto simp: tier_defs)
  then obtain es m r1 where f: "chunk_file L (fs(?path \<mapsto> content)) ?path (get_optimal_chunk_size (int (length content)))
      (optional_password password) r = (Inr (m, es), r1)" and m: "stored_file L (optional_password password) content es m"
    using chunk_file_stored_file [of L "fs(?path \<mapsto> content)" ?path content] assms(1) by (metis fun_upd_same)
  have "file_hash m = sha256 L content"
    using m by (auto simp: stored_file_def chunked_manifest_def new_manifest_def)
  moreover have "ur_file_hash resp = file_hash m"
    using assms(2) f by (auto simp: upload_file_def Let_def bindr_eq_Inr split: prod.splits)
  ultimately show ?thesis by simp
qed

text \<open>
  The name of an upload is the client's and is not checked. An absolute one is the path the content is written to, outside
  the temporary directory; whatever that file held before, it is gone when the handler ends (writes do not fail here).
\<close>

theorem absolute_upload_name:
  assumes "upload_file L R round2 tmp_dir (CHR ''/'' # name) content password fs r S = (res, fs', r', S')"
  shows "fs' = fs(CHR ''/'' # name := None)"
  using assms by (auto simp: upload_file_def path_join_def Let_def split: prod.splits sum.splits)

text \<open>
  C2. What is uploaded is downloaded: after a successful upload, whatever was replicated to whom,
  the download endpoint of the same node delivers the exact content under the original name for
  the password of the upload, leaves no temporary file, and asks no peer, unless two different chunks of the upload collide under SHA-256.
\<close>

theorem upload_then_download:
  assumes "lib_ok L" and "0 \<le> re_k R" and "CHR ''/'' \<notin> set filename"
    and "upload_file L R round2 tmp_dir filename content password fs r S = (Inr resp, fs', r', S')"
  shows "ur_file_hash resp = sha256 L content \<and>
     (collision_in L (set (uploaded_chunks L tmp_dir filename content password fs r)) \<or>
      (\<exists>w. download_file L P (ur_file_hash resp) password temp gs
             \<lparr>aw_node = nt_node S', aw_store = rp_store S', aw_requests = n\<rparr> =
           (Inr \<lparr>fr_content = content, fr_filename = filename\<rparr>, gs(temp := None), w)))"
proof (cases "collision_in L (set (uploaded_chunks L tmp_dir filename content password fs r))")
  case False
  define es where "es = uploaded_chunks L tmp_dir filename content password fs r"
  obtain m where m: "stored_file L (optional_password password) content es m" and name: "original_filename m = filename"
    and fh: "ur_file_hash resp = file_hash m" and view: "\<forall>e \<in> set es. chunk_view (rp_store S') (sha256 L e) = Some e"
    and load: "load_manifest (rp_store S') (file_hash m) = Some (stored_dict (file_hash m) (to_dict m))"
    by (rule upload_stored [OF assms False es_def])
  let ?w = "\<lparr>aw_node = nt_node S', aw_store = rp_store S', aw_requests = n\<rparr>"
  define m' where "m' = m\<lparr>chunk_size := DEFAULT_CHUNK_SIZE\<rparr>"
  have m': "stored_file L (optional_password password) content es m'"
    unfolding m'_def by (rule stored_file_chunk_size [OF m])
  have dict: "from_dict L (stored_dict (file_hash m) (to_dict m)) = Inr m'"
    using stored_file_with_root [OF m'] by (simp add: from_stored_to_dict m'_def)
  have hash: "file_hash m = sha256 L content" using stored_file_opens [OF m] by blast
  then have "m'\<lparr>file_hash := sha256 L content\<rparr> = m'" by (cases m) (simp add: m'_def)
  with dict have dict': "from_dict L (stored_dict (file_hash m) (to_dict m)) = Inr (m'\<lparr>file_hash := sha256 L content\<rparr>)"
    by simp
  have view': "\<forall>e \<in> set es. world_chunks ?w (sha256 L e) = Some e" using view by (simp add: world_chunks_def)
  have found: "fetch_manifest P (ur_file_hash resp) ?w = (Some (stored_dict (file_hash m) (to_dict m)), ?w)"
    by (simp add: fetch_manifest_def fh load)
  have "original_filename m' = filename" using name by (simp add: m'_def)
  then show ?thesis
    using download_stored [OF m' view' found dict', of temp gs] hash fh by auto
qed (use upload_hash [OF assms(1,4)] in simp)

text \<open>An upload on a node without peers.\<close>

lemma example_upload:
  "\<exists>resp fs' r1 S'. upload_file ref_lib example_engine id ''/tmp'' ''a.txt'' [1, 2, 3] ''pw'' Map.empty ((\<lambda>i. 0), 0)
     (pair_state\<lparr>nt_node := (nt_node pair_state)\<lparr>ns_peers := []\<rparr>\<rparr>) = (Inr resp, fs', r1, S')"
proof -
  let ?S = "pair_state\<lparr>nt_node := (nt_node pair_state)\<lparr>ns_peers := []\<rparr>\<rparr>"
  have alone: "get_alive_peers now 15 (nt_node (store_all cs ?S)) = []" for now cs
  proof -
    have "ns_peers (nt_node (store_all cs T)) = ns_peers (nt_node T)" for T
      unfolding store_all_def by (induction cs arbitrary: T) (auto simp: store_locally_def register_chunk_def)
    then show ?thesis by (simp add: get_alive_peers_def)
  qed
  let ?path = "path_join ''/tmp'' ''a.txt''"
  have "get_optimal_chunk_size (int (length [1, 2, 3 :: byte])) \<noteq> 0"
    using get_optimal_chunk_size_values [of "int (length [1, 2, 3 :: byte])"] by (auto simp: tier_defs)
  then obtain es m r1 where f: "chunk_file ref_lib (Map.empty(?path \<mapsto> [1, 2, 3])) ?path
      (get_optimal_chunk_size (int (length [1, 2, 3 :: byte]))) (optional_password ''pw'') ((\<lambda>i. 0), 0) = (Inr (m, es), r1)"
    using chunk_file_stored_file [of ref_lib "Map.empty(?path \<mapsto> [1, 2, 3])" ?path "[1, 2, 3]"] ref_lib_ok
    by (metis fun_upd_same)
  then show ?thesis using alone by (auto simp: upload_file_def Let_def)
qed

lemma example_upload_args: "0 \<le> re_k example_engine" "CHR ''/'' \<notin> set ''a.txt''"
  by (simp_all add: example_engine_def)

text \<open>Its content is one chunk.\<close>

lemma example_uploaded: "\<exists>e. uploaded_chunks ref_lib ''/tmp'' ''a.txt'' [1, 2, 3] ''pw'' Map.empty r = [e]"
proof -
  let ?path = "path_join ''/tmp'' ''a.txt''" and ?n = "get_optimal_chunk_size (int (length [1, 2, 3 :: byte]))"
  let ?fs = "Map.empty(?path \<mapsto> [1, 2, 3 :: byte])"
  have size: "length (stream_chunks ?n 0 [1, 2, 3 :: byte]) = 1" and n: "?n \<noteq> 0" and f: "?fs ?path = Some [1, 2, 3]"
    by (simp_all add: get_optimal_chunk_size_def tier_defs stream_chunks.simps fread_def)
  obtain es m r1 where c: "chunk_file ref_lib ?fs ?path ?n (optional_password ''pw'') r = (Inr (m, es), r1)"
    using chunk_file_stored_file [of ref_lib ?fs ?path _ ?n "optional_password ''pw''" r, OF ref_lib_ok f n] by blast
  then have "\<exists>e. es = [e]"
    using one_chunk_file [of ref_lib ?fs ?path _ ?n "optional_password ''pw''" r, OF ref_lib_ok f n size] by simp
  then show ?thesis using c by (simp add: uploaded_chunks_def)
qed

lemma example_no_collision: "\<not> collision_in ref_lib (set (uploaded_chunks ref_lib ''/tmp'' ''a.txt'' [1, 2, 3] ''pw'' Map.empty r))"
  using example_uploaded [of r] by auto

theorem upload_then_download_witness:
  "\<exists>(resp :: upload_response) S' w. ur_file_hash resp = sha256 ref_lib [1, 2, 3] \<and>
     download_file ref_lib \<lparr>pn_chunk = (\<lambda>n p h. None), pn_manifest = (\<lambda>n p h. None), pn_files = (\<lambda>n p. None)\<rparr>
       (ur_file_hash resp) ''pw'' ''t.bin'' Map.empty \<lparr>aw_node = nt_node S', aw_store = rp_store (S' :: repl_state), aw_requests = 0\<rparr> =
       (Inr \<lparr>fr_content = [1, 2, 3], fr_filename = ''a.txt''\<rparr>, Map.empty(''t.bin'' := None), w)"
proof -
  obtain resp fs' r1 S' where u: "upload_file ref_lib example_engine id ''/tmp'' ''a.txt'' [1, 2, 3] ''pw'' Map.empty ((\<lambda>i. 0), 0)
     (pair_state\<lparr>nt_node := (nt_node pair_state)\<lparr>ns_peers := []\<rparr>\<rparr>) = (Inr resp, fs', r1, S')"
    using example_upload by blast
  show ?thesis
    using upload_then_download [OF ref_lib_ok example_upload_args u, where P = "\<lparr>pn_chunk = (\<lambda>n p h. None), pn_manifest = (\<lambda>n p h. None), pn_files = (\<lambda>n p. None)\<rparr>"
        and temp = "''t.bin''" and gs = Map.empty and n = 0] example_no_collision
    by (intro exI [of _ resp] exI [of _ S']) blast
qed

subsection \<open>What a download trusts\<close>

text \<open>
  C35. The manifest of a peer is not checked against the hash that was asked for. If the manifest a
  peer answers with describes another file whose chunks can be had, the download delivers that
  file. The database then keeps the manifest under the requested hash, so that the same request
  fails with status 400 from then on.
\<close>

theorem peer_manifest_not_bound:
  assumes "stored_file L None content es m" and "\<forall>e \<in> set es. world_chunks w (sha256 L e) = Some e"
    and "load_manifest (aw_store w) fh = None"
    and "ask_peers (\<lambda>n p. pn_manifest P n p fh) (alive_peers w) (aw_requests w) = (Some (to_dict m), k)"
    and "sha256 L content \<noteq> fh"
  shows "\<exists>w'. download_file L P fh [] temp fs w =
       (Inr \<lparr>fr_content = content, fr_filename = original_filename m\<rparr>, fs(temp := None), w') \<and>
     fst (download_file L P' fh [] temp' fs' w') = Inl (HTTPException 400 ''Decryption/integrity error'')"
proof -
  let ?w1 = "w\<lparr>aw_store := snd (save_manifest fh (to_dict m) (aw_store w)), aw_requests := k\<rparr>"
  have none: "optional_password [] = None" by (simp add: optional_password_def)
  have m: "m\<lparr>file_hash := sha256 L content\<rparr> = m"
  proof -
    have "file_hash m = sha256 L content" using stored_file_opens [OF assms(1)] by blast
    then show ?thesis by (cases m) simp
  qed
  have "\<not> empty_dict (to_dict m)" by (simp add: empty_dict_def to_dict_def)
  then have found: "fetch_manifest P fh w = (Some (to_dict m), ?w1)"
    using assms(3,4) by (simp add: fetch_manifest_def)
  have dict: "from_dict L (to_dict m) = Inr (m\<lparr>file_hash := sha256 L content\<rparr>)"
    unfolding m using stored_file_with_root [OF assms(1)] by (simp add: from_to_dict)
  have view: "\<forall>e \<in> set es. world_chunks ?w1 (sha256 L e) = Some e"
    using assms(2) by (simp add: world_chunks_def)
  obtain w2 where w2: "download_file L P fh [] temp fs w =
      (Inr \<lparr>fr_content = content, fr_filename = original_filename m\<rparr>, fs(temp := None), w2)"
    "ls_db (aw_store w2) = ls_db (aw_store ?w1)" "\<forall>e \<in> set es. world_chunks w2 (sha256 L e) = Some e"
    using download_stored [of L "[]" content es m ?w1 P fh w, unfolded none, OF assms(1) view found dict, of temp fs] by auto
  have found2: "fetch_manifest P' fh w2 = (Some (stored_dict fh (to_dict m)), w2)"
    using w2(2) by (simp add: fetch_manifest_def load_manifest_def save_manifest_def manifests.get_put)
  have m': "stored_file L None content es (m\<lparr>chunk_size := DEFAULT_CHUNK_SIZE\<rparr>)"
    by (rule stored_file_chunk_size [OF assms(1)])
  have "with_root L (m\<lparr>file_hash := fh, chunk_size := DEFAULT_CHUNK_SIZE\<rparr>) = m\<lparr>chunk_size := DEFAULT_CHUNK_SIZE, file_hash := fh\<rparr>"
    using stored_file_with_root [OF assms(1)] by (cases m) (auto simp: with_root_def split: if_splits)
  then have dict2: "from_dict L (stored_dict fh (to_dict m)) = Inr (m\<lparr>chunk_size := DEFAULT_CHUNK_SIZE, file_hash := fh\<rparr>)"
    by (simp add: from_stored_to_dict)
  have "fst (download_file L P' fh [] temp' fs' w2) = Inl (HTTPException 400 ''Decryption/integrity error'')"
    using download_stored [of L "[]" content es "m\<lparr>chunk_size := DEFAULT_CHUNK_SIZE\<rparr>" w2 P' fh w2, unfolded none,
        OF m' w2(3) found2 dict2, of temp' fs'] assms(5) by auto
  then show ?thesis using w2(1) by blast
qed

definition evil_manifest :: file_manifest where
  "evil_manifest = chunked_manifest ref_lib ''evil.txt'' [] 1 False []"

definition lying_net :: peer_net where
  "lying_net = \<lparr>pn_chunk = (\<lambda>n p h. None), pn_manifest = (\<lambda>n p h. Some (to_dict evil_manifest)), pn_files = (\<lambda>n p. None)\<rparr>"

lemma empty_stored_file: "stored_file ref_lib None [] [] evil_manifest"
  unfolding stored_file_def evil_manifest_def
  by (rule exI [of _ "''evil.txt''"], rule exI [of _ 1], rule exI [of _ "((\<lambda>i. 0), 0)"], rule exI [of _ 1])
     (simp add: opens_to_def fresh_keysalt_def stream_chunks.simps fread_def chunked_manifest_def new_manifest_def)

theorem peer_manifest_not_bound_witness:
  "\<exists>w'. download_file ref_lib lying_net ''00'' [] ''t'' Map.empty example_world =
       (Inr \<lparr>fr_content = [], fr_filename = ''evil.txt''\<rparr>, Map.empty(''t'' := None), w') \<and>
     fst (download_file ref_lib lying_net ''00'' [] ''t'' Map.empty w') = Inl (HTTPException 400 ''Decryption/integrity error'')"
proof -
  have none: "load_manifest (aw_store example_world) ''00'' = None"
    by (simp add: example_world_def example_store_def load_manifest_def empty_db_def get_manifest_sync_def)
  have ask: "ask_peers (\<lambda>n p. pn_manifest lying_net n p ''00'') (alive_peers example_world) (aw_requests example_world) =
      (Some (to_dict evil_manifest), Suc 0)"
    using example_alive by (simp add: lying_net_def) (simp add: example_world_def)
  have ne: "sha256 ref_lib [] \<noteq> ''00''" using sha256_length [OF ref_lib_ok, of "[]"] by auto
  have name: "original_filename evil_manifest = ''evil.txt''"
    by (simp add: evil_manifest_def chunked_manifest_def new_manifest_def path_name_def)
  show ?thesis
    using peer_manifest_not_bound [OF empty_stored_file _ none ask ne, of "''t''" Map.empty lying_net "''t''" Map.empty]
    by (simp add: name)
qed

end
