(* ===== verification/Heartbeat.thy ===== *)
theory Heartbeat
  imports Chat
begin

section \<open>The heartbeat monitor (backend/advanced/heartbeat.py)\<close>

text \<open>
  The monitor writes a PING to every registered peer it has a connection to and remembers when;
  a PONG removes the entry. Each PING has its own clock reading, given here by the peer it goes to.
  The free space a PONG reports is what the system says about the disk of the chunk directory.
\<close>

record hb_state = net_state +
  hb_pending :: "(string, real) dict"

definition HB_INTERVAL :: real where "HB_INTERVAL = 5"
definition HB_TIMEOUT :: real where "HB_TIMEOUT = 15"

fun ping_loop :: "codec \<Rightarrow> (string \<Rightarrow> real) \<Rightarrow> string list \<Rightarrow> hb_state \<Rightarrow> hb_state" where
  "ping_loop C sent [] S = S"
| "ping_loop C sent (nid # nids) S =
     (case dict_get (nt_connections S) nid of
        None \<Rightarrow> ping_loop C sent nids S
      | Some h \<Rightarrow>
          let (r, S') = conn_send C h (ping_msg (sent nid) (ns_node_id (nt_node S))) S
          in ping_loop C sent nids
               (case r of
                  Inr _ \<Rightarrow> S'\<lparr>hb_pending := dict_set nid (sent nid) (hb_pending S')\<rparr>
                | Inl _ \<Rightarrow> S'))"

definition ping_all_peers :: "codec \<Rightarrow> (string \<Rightarrow> real) \<Rightarrow> hb_state \<Rightarrow> hb_state" where
  "ping_all_peers C sent S = ping_loop C sent (dict_keys (get_all_peers (nt_node S))) S"

definition timed_out_pings :: "real \<Rightarrow> real \<Rightarrow> (string, real) dict \<Rightarrow> string list" where
  "timed_out_pings now timeout pending = map fst (filter (\<lambda>(nid, t). now - t > timeout) pending)"

definition check_timeouts :: "real \<Rightarrow> real \<Rightarrow> hb_state \<Rightarrow> hb_state" where
  "check_timeouts now timeout S =
     (let dead = timed_out_pings now timeout (hb_pending S)
      in S\<lparr>hb_pending := fold dict_del dead (hb_pending S),
           nt_node := fold (\<lambda>nid st. snd (remove_peer nid st)) dead (nt_node S)\<rparr>)"

text \<open>
  The peer that \<^verbatim>\<open>get_peer\<close> returns is the object of the registry: it is changed in place before
  it is handed to \<^verbatim>\<open>add_peer\<close>.
\<close>

definition handle_pong :: "real \<Rightarrow> string \<Rightarrow> message \<Rightarrow> hb_state \<Rightarrow> unit res \<times> hb_state" where
  "handle_pong now nid m S =
     (case dict_get (hb_pending S) nid of
        None \<Rightarrow> (Inr (), S)
      | Some t \<Rightarrow>
          let S1 = S\<lparr>hb_pending := dict_del nid (hb_pending S)\<rparr>
          in case get_peer (nt_node S) nid of
               None \<Rightarrow> (Inr (), S1)
             | Some p \<Rightarrow>
                 (case bindr (real_field ''uptime'' 0 m) (\<lambda>up.
                       bindr (int_field ''free_space'' 0 m) (\<lambda>free.
                       Inr (p\<lparr>pi_latency := (now - t) * 1000, pi_uptime := up, pi_free_space := free,
                              pi_last_seen := now\<rparr>))) of
                    Inl e \<Rightarrow> (Inl e, S1)
                  | Inr p' \<Rightarrow>
                      (Inr (), S1\<lparr>nt_node := add_peer now p'
                         ((nt_node S)\<lparr>ns_peers := dict_set nid p' (ns_peers (nt_node S))\<rparr>)\<rparr>)))"

definition handle_ping :: "codec \<Rightarrow> real \<Rightarrow> int \<Rightarrow> string \<Rightarrow> hb_state \<Rightarrow> unit res \<times> hb_state" where
  "handle_ping C now free_space nid S =
     (case dict_get (nt_connections S) nid of
        None \<Rightarrow> (Inr (), S)
      | Some h \<Rightarrow> conn_send C h (pong_msg now (ns_node_id (nt_node S)) (uptime now (nt_node S)) free_space) S)"

text \<open>One turn of \<^verbatim>\<open>_heartbeat_loop\<close>: PING at the times \<open>sent\<close>, sleep, check at the time \<open>checked\<close>.\<close>

definition heartbeat_round ::
    "codec \<Rightarrow> real \<Rightarrow> (string \<Rightarrow> real) \<Rightarrow> real \<Rightarrow> hb_state \<Rightarrow> hb_state" where
  "heartbeat_round C timeout sent checked S = check_timeouts checked timeout (ping_all_peers C sent S)"

subsection \<open>What a round does\<close>

definition pingable :: "codec \<Rightarrow> hb_state \<Rightarrow> string \<Rightarrow> bool" where
  "pingable C S nid \<longleftrightarrow> get_peer (nt_node S) nid \<noteq> None \<and>
     (\<exists>h. dict_get (nt_connections S) nid = Some h \<and> nt_open S h)"

definition pings_packed :: "codec \<Rightarrow> (string \<Rightarrow> real) \<Rightarrow> hb_state \<Rightarrow> bool" where
  "pings_packed C sent S \<longleftrightarrow> (\<forall>nid. \<exists>f. send_frame C (ping_msg (sent nid) (ns_node_id (nt_node S))) = Inr f)"

lemma ping_loop_effect:
  assumes "pings_packed C sent S"
  shows "nt_node (ping_loop C sent nids S) = nt_node S \<and>
     nt_connections (ping_loop C sent nids S) = nt_connections S \<and> nt_open (ping_loop C sent nids S) = nt_open S \<and>
     (\<forall>k. dict_get (hb_pending (ping_loop C sent nids S)) k =
        (if k \<in> set nids \<and> (\<exists>h. dict_get (nt_connections S) k = Some h \<and> nt_open S h)
         then Some (sent k) else dict_get (hb_pending S) k))"
  using assms
proof (induction nids arbitrary: S)
  case (Cons nid nids)
  show ?case
  proof (cases "dict_get (nt_connections S) nid")
    case None
    then show ?thesis using Cons.IH [OF Cons.prems] by auto
  next
    case (Some h)
    obtain f where f: "send_frame C (ping_msg (sent nid) (ns_node_id (nt_node S))) = Inr f"
      using Cons.prems by (auto simp: pings_packed_def)
    let ?T = "S\<lparr>nt_written := (nt_written S)(h := nt_written S h @ f), hb_pending := dict_set nid (sent nid) (hb_pending S)\<rparr>"
    have "pings_packed C sent ?T" using Cons.prems by (simp add: pings_packed_def)
    from Cons.IH [OF this] Cons.IH [OF Cons.prems] Some f show ?thesis
      by (cases "nt_open S h") (auto simp: conn_send_def)
  qed
qed simp

lemma ping_all_peers_pending:
  assumes "pings_packed C sent S"
  shows "dict_get (hb_pending (ping_all_peers C sent S)) k =
     (if pingable C S k then Some (sent k) else dict_get (hb_pending S) k)"
  using ping_loop_effect [OF assms, of "dict_keys (ns_peers (nt_node S))"]
  by (auto simp: ping_all_peers_def pingable_def get_all_peers_def get_peer_def map_of_eq_None_iff)

lemma ping_all_peers_node: "pings_packed C sent S \<Longrightarrow> nt_node (ping_all_peers C sent S) = nt_node S"
  using ping_loop_effect by (simp add: ping_all_peers_def)

lemma set_timed_out_pings:
  "dict_ok pending \<Longrightarrow>
   nid \<in> set (timed_out_pings now timeout pending) \<longleftrightarrow> (\<exists>t. dict_get pending nid = Some t \<and> now - t > timeout)"
  by (auto simp: timed_out_pings_def image_iff dict_ok_get intro: dict_get_SomeD)

lemma fold_remove_peer:
  "get_peer (fold (\<lambda>nid st. snd (remove_peer nid st)) dead st) k = (if k \<in> set dead then None else get_peer st k)"
  by (induction dead arbitrary: st) (auto simp: remove_peer_def get_peer_def)

lemma ping_loop_dict_ok: "dict_ok (hb_pending S) \<Longrightarrow> dict_ok (hb_pending (ping_loop C sent nids S))"
proof (induction nids arbitrary: S)
  case (Cons nid nids)
  then show ?case
    by (auto simp: conn_send_def dict_ok_set split: option.split prod.split sum.split)
qed simp

text \<open>
  C31. What a turn of the heartbeat loop removes. When the check comes no later than the timeout
  after the PINGs (by default 5 and 15 seconds), the removed peers are exactly those that could
  not be pinged, for want of an open connection, and whose last PING has been unanswered for longer
  than the timeout. A peer with an open connection is never removed, however long it has been silent: each
  PING overwrites the time of the one before.
\<close>

theorem heartbeat_removes:
  assumes "pings_packed C sent S" and "dict_ok (hb_pending S)"
    and "\<forall>nid. checked - sent nid \<le> timeout"
  shows "get_peer (nt_node (heartbeat_round C timeout sent checked S)) nid =
     (if \<not> pingable C S nid \<and> (\<exists>t. dict_get (hb_pending S) nid = Some t \<and> checked - t > timeout)
      then None else get_peer (nt_node S) nid)"
proof -
  let ?P = "ping_all_peers C sent S"
  have ok: "dict_ok (hb_pending ?P)" using ping_loop_dict_ok [OF assms(2)] by (simp add: ping_all_peers_def)
  have "nid \<in> set (timed_out_pings checked timeout (hb_pending ?P)) \<longleftrightarrow>
      \<not> pingable C S nid \<and> (\<exists>t. dict_get (hb_pending S) nid = Some t \<and> checked - t > timeout)"
    unfolding set_timed_out_pings [OF ok] ping_all_peers_pending [OF assms(1)]
    using spec [OF assms(3), of nid] by auto
  then show ?thesis
    by (simp add: heartbeat_round_def check_timeouts_def fold_remove_peer ping_all_peers_node [OF assms(1)] Let_def)
qed

definition silent_peer_state :: hb_state where
  "silent_peer_state =
     \<lparr>nt_node = example_node, nt_api_port = 8888, nt_connections = [(''n1'', 0)], nt_written = (\<lambda>_. []),
      nt_open = (\<lambda>_. True), hb_pending = [(''n1'', 0)]\<rparr>"

lemma example_registry: "get_peer (nt_node silent_peer_state) ''n1'' = Some (example_peer\<lparr>pi_last_seen := 4\<rparr>)"
  by (simp add: silent_peer_state_def get_peer_def example_node_def add_peer_def set_database_def new_node_state_def
      example_peer_def Let_def)

definition ping_codec :: codec where
  "ping_codec = \<lparr>packb = (\<lambda>m. Some []), unpackb = (\<lambda>b. None)\<rparr>"

theorem heartbeat_removes_witness:
  "get_peer (nt_node (heartbeat_round ping_codec HB_TIMEOUT (\<lambda>_. 1000) (1000 + HB_INTERVAL) silent_peer_state)) ''n1'' =
     Some (example_peer\<lparr>pi_last_seen := 4\<rparr>)"
proof -
  have "pings_packed ping_codec (\<lambda>_. 1000) silent_peer_state"
    by (simp add: pings_packed_def ping_codec_def send_frame_def to_bytes4_def)
  moreover have "dict_ok (hb_pending silent_peer_state)" by (simp add: silent_peer_state_def dict_ok_def)
  moreover have "\<forall>nid. (1000 + HB_INTERVAL) - (\<lambda>_ :: string. 1000) nid \<le> HB_TIMEOUT"
    by (simp add: HB_INTERVAL_def HB_TIMEOUT_def)
  moreover have "pingable ping_codec silent_peer_state ''n1''"
    using example_registry by (simp add: pingable_def) (simp add: silent_peer_state_def)
  ultimately show ?thesis
    using heartbeat_removes [of ping_codec "\<lambda>_. 1000" silent_peer_state "1000 + HB_INTERVAL" HB_TIMEOUT "''n1''"]
    by (simp add: example_registry)
qed

text \<open>
  A PONG that answers a PING records the round-trip time in milliseconds, the reported uptime
  and free space and the time of the answer, whatever the registry held before, and no later check
  removes the peer until it is pinged again.
\<close>

theorem pong_recorded:
  assumes "dict_get (hb_pending S) nid = Some t" and "get_peer (nt_node S) nid = Some p" and "pi_node_id p = nid"
    and "dict_ok (hb_pending S)" and "real_field ''uptime'' 0 m = Inr up" and "int_field ''free_space'' 0 m = Inr free"
  shows "let (r, S') = handle_pong now nid m S
     in r = Inr () \<and>
        get_peer (nt_node S') nid = Some (p\<lparr>pi_latency := (now - t) * 1000, pi_uptime := up, pi_free_space := free,
          pi_last_seen := now\<rparr>) \<and>
        (\<forall>k. k \<noteq> nid \<longrightarrow> get_peer (nt_node S') k = get_peer (nt_node S) k) \<and>
        get_peer (nt_node (check_timeouts checked timeout S')) nid = get_peer (nt_node S') nid"
proof -
  define p' where "p' = p\<lparr>pi_latency := (now - t) * 1000, pi_uptime := up, pi_free_space := free, pi_last_seen := now\<rparr>"
  let ?N = "add_peer now p' ((nt_node S)\<lparr>ns_peers := dict_set nid p' (ns_peers (nt_node S))\<rparr>)"
  let ?S' = "S\<lparr>hb_pending := dict_del nid (hb_pending S), nt_node := ?N\<rparr>"
  have pong: "handle_pong now nid m S = (Inr (), ?S')"
    using assms by (simp add: handle_pong_def p'_def)
  have m: "merge_peer now p' p' = p'" by (simp add: merge_peer_def p'_def)
  have id: "pi_node_id p' = nid" by (simp add: p'_def assms(3))
  have N: "get_peer ?N k = (if k = nid then Some p' else get_peer (nt_node S) k)" for k
    using assms(3) m id by (simp add: add_peer_def get_peer_def Let_def)
  have "nid \<notin> set (timed_out_pings checked timeout (hb_pending ?S'))"
    using assms(4) by (simp add: set_timed_out_pings dict_ok_del)
  then have "get_peer (nt_node (check_timeouts checked timeout ?S')) nid = get_peer ?N nid"
    by (simp add: check_timeouts_def fold_remove_peer Let_def)
  then show ?thesis unfolding p'_def [symmetric] by (simp add: pong N)
qed

theorem pong_recorded_witness:
  "let (r, S') = handle_pong 2 ''n1'' (pong_msg 2 ''n1'' 60 1000) silent_peer_state
   in r = Inr () \<and> get_peer (nt_node S') ''n1'' =
        Some (example_peer\<lparr>pi_latency := 2000, pi_uptime := 60, pi_free_space := 1000, pi_last_seen := 2\<rparr>)"
proof -
  have "pi_node_id (example_peer\<lparr>pi_last_seen := 4\<rparr>) = ''n1''" by (simp add: example_peer_def)
  moreover have "dict_get (hb_pending silent_peer_state) ''n1'' = Some 0" "dict_ok (hb_pending silent_peer_state)"
    by (simp_all add: silent_peer_state_def dict_ok_def)
  moreover have "real_field ''uptime'' 0 (pong_msg 2 ''n1'' 60 1000) = Inr 60"
    "int_field ''free_space'' 0 (pong_msg 2 ''n1'' 60 1000) = Inr 1000"
    by (simp_all add: real_field_def int_field_def pong_msg_def build_message_def)
  ultimately show ?thesis
    using pong_recorded [of silent_peer_state "''n1''" 0 _ "pong_msg 2 ''n1'' 60 1000" 60 1000 2, OF _ example_registry]
    by (simp add: case_prod_beta Let_def)
qed

end
