(* ===== verification/Discovery.thy ===== *)
theory Discovery
  imports Network
begin

section \<open>UDP discovery (backend/network/discovery.py)\<close>

text \<open>
  A HELLO datagram is a signed JSON object. JSON text is what \<^verbatim>\<open>orjson\<close> writes and reads: a
  parameter, with the law, for the values it is used on, that reading what was written gives the value back. The readings of
  \<^verbatim>\<open>psutil\<close> and the rounding of floats are parameters as well. An exception in
  \<^verbatim>\<open>datagram_received\<close> goes to the event loop, which logs it: the node's state is the one before.

  As for TCP messages, a field of a type the protocol does not give it is taken to raise.
\<close>

datatype json =
    JNull
  | JBool bool
  | JInt int
  | JFloat real
  | JStr string
  | JList "json list"
  | JObj "(string \<times> json) list"

record orjson =
  oj_dumps :: "json \<Rightarrow> bytes"
  oj_dumps_sorted :: "json \<Rightarrow> bytes"
  oj_loads :: "bytes \<Rightarrow> json option"

fun json_truthy :: "json \<Rightarrow> bool" where
  "json_truthy JNull = False"
| "json_truthy (JBool b) = b"
| "json_truthy (JInt n) = (n \<noteq> 0)"
| "json_truthy (JFloat x) = (x \<noteq> 0)"
| "json_truthy (JStr s) = (s \<noteq> [])"
| "json_truthy (JList xs) = (xs \<noteq> [])"
| "json_truthy (JObj kvs) = (kvs \<noteq> [])"

text \<open>\<^verbatim>\<open>v.get(k, d)\<close>: only an object has \<^verbatim>\<open>get\<close>.\<close>

definition json_get :: "string \<Rightarrow> json \<Rightarrow> json \<Rightarrow> json res" where
  "json_get k d v = (case v of JObj kvs \<Rightarrow> Inr (get_or d (dict_get kvs k)) | _ \<Rightarrow> Inl AttributeError)"

fun json_str :: "json \<Rightarrow> string res" where
  "json_str (JStr s) = Inr s"
| "json_str _ = Inl TypeError"

fun json_int :: "json \<Rightarrow> int res" where
  "json_int (JInt n) = Inr n"
| "json_int (JBool b) = Inr (of_bool b)"
| "json_int _ = Inl TypeError"

fun json_real :: "json \<Rightarrow> real res" where
  "json_real (JFloat x) = Inr x"
| "json_real (JInt n) = Inr (real_of_int n)"
| "json_real (JBool b) = Inr (of_bool b)"
| "json_real _ = Inl TypeError"

subsection \<open>The health score\<close>

record machine =
  mc_available :: int
  mc_cpu_freq :: "real option"
  mc_cpu_percent :: real
  mc_disk_free :: int

record health =
  he_free_ram_mb :: real
  he_cpu_freq_ghz :: real
  he_cpu_percent :: real
  he_free_disk_gb :: real
  he_health_score :: real

text \<open>\<open>rnd d x\<close> is \<^verbatim>\<open>round(x, d)\<close>.\<close>

definition compute_health_score :: "(nat \<Rightarrow> real \<Rightarrow> real) \<Rightarrow> machine \<Rightarrow> health" where
  "compute_health_score rnd mc =
     (let free_ram_mb = real_of_int (mc_available mc) / (1024 * 1024);
          cpu_freq_ghz = (case mc_cpu_freq mc of Some c \<Rightarrow> c / 1000 | None \<Rightarrow> 0);
          cpu_percent = mc_cpu_percent mc;
          free_disk_gb = real_of_int (mc_disk_free mc) / 1024 ^ 3;
          health_score = rnd 2 (free_ram_mb + cpu_freq_ghz * 100 + free_disk_gb * 10 - cpu_percent)
      in \<lparr>he_free_ram_mb = rnd 1 free_ram_mb, he_cpu_freq_ghz = rnd 2 cpu_freq_ghz,
          he_cpu_percent = rnd 1 cpu_percent, he_free_disk_gb = rnd 2 free_disk_gb,
          he_health_score = health_score\<rparr>)"

definition health_json :: "health \<Rightarrow> json" where
  "health_json he =
     JObj [(''free_ram_mb'', JFloat (he_free_ram_mb he)), (''cpu_freq_ghz'', JFloat (he_cpu_freq_ghz he)),
           (''cpu_percent'', JFloat (he_cpu_percent he)), (''free_disk_gb'', JFloat (he_free_disk_gb he)),
           (''health_score'', JFloat (he_health_score he))]"

subsection \<open>Broadcasting\<close>

record disc_env =
  dc_orjson :: orjson
  dc_hmac :: "bytes \<Rightarrow> bytes \<Rightarrow> string"
  dc_swarm_key :: string

definition hello_payload :: "real \<Rightarrow> health \<Rightarrow> 'a net_state_scheme \<Rightarrow> json" where
  "hello_payload now he S =
     JObj [(''type'', JStr ''HELLO''),
           (''node_id'', JStr (ns_node_id (nt_node S))),
           (''name'', JStr (ns_name (nt_node S))),
           (''tcp_port'', JInt (ns_tcp_port (nt_node S))),
           (''api_port'', JInt (nt_api_port S)),
           (''uptime'', JFloat (uptime now (nt_node S))),
           (''timestamp'', JFloat now),
           (''health'', health_json he)]"

definition hello_signature :: "disc_env \<Rightarrow> json \<Rightarrow> string" where
  "hello_signature D payload =
     dc_hmac D (encode (dc_swarm_key D)) (oj_dumps_sorted (dc_orjson D) payload)"

definition hello_wrapper :: "disc_env \<Rightarrow> json \<Rightarrow> json" where
  "hello_wrapper D payload =
     JObj [(''payload'', payload), (''signature'', JStr (hello_signature D payload))]"

definition build_hello :: "disc_env \<Rightarrow> real \<Rightarrow> health \<Rightarrow> 'a net_state_scheme \<Rightarrow> bytes" where
  "build_hello D now he S =
     oj_dumps (dc_orjson D) (hello_wrapper D (hello_payload now he S))"

subsection \<open>Receiving\<close>

text \<open>\<^verbatim>\<open>int(x)\<close> of a float drops the fraction.\<close>

definition trunc_float :: "real \<Rightarrow> int" where
  "trunc_float x = (if 0 \<le> x then \<lfloor>x\<rfloor> else \<lceil>x\<rceil>)"

definition hello_peer :: "real \<Rightarrow> string \<Rightarrow> string \<Rightarrow> json \<Rightarrow> peer_info res" where
  "hello_peer now peer_id ip msg =
     bindr (json_get ''health'' (JObj []) msg) (\<lambda>health.
     bindr (json_get ''free_disk_gb'' (JInt 0) health) (\<lambda>gb.
     bindr (json_real gb) (\<lambda>free_disk_gb.
     bindr (bindr (json_get ''tcp_port'' (JInt 50001) msg) json_int) (\<lambda>tcp.
     bindr (bindr (json_get ''name'' (JStr ''unknown'') msg) json_str) (\<lambda>name.
     bindr (bindr (json_get ''uptime'' (JInt 0) msg) json_real) (\<lambda>up.
     bindr (bindr (json_get ''health_score'' (JInt 0) health) json_real) (\<lambda>score.
     bindr (bindr (json_get ''api_port'' (JInt 8888) msg) json_int) (\<lambda>api.
     Inr \<lparr>pi_node_id = peer_id, pi_ip = ip, pi_tcp_port = tcp, pi_name = name, pi_last_seen = now,
          pi_free_space = trunc_float (free_disk_gb * 1024 ^ 3), pi_uptime = up, pi_latency = 0,
          pi_health_score = score, pi_api_port = api\<rparr>))))))))"

text \<open>What a datagram is worth: \<open>None\<close> where \<^verbatim>\<open>datagram_received\<close> returns without a peer.\<close>

definition hello_from ::
    "disc_env \<Rightarrow> real \<Rightarrow> bytes \<Rightarrow> string \<Rightarrow> string \<Rightarrow> peer_info option res" where
  "hello_from D now data ip own_id =
     (case oj_loads (dc_orjson D) data of
        None \<Rightarrow> Inr None
      | Some wrapper \<Rightarrow>
          bindr (json_get ''payload'' JNull wrapper) (\<lambda>payload.
          bindr (json_get ''signature'' JNull wrapper) (\<lambda>signature.
          if \<not> json_truthy payload \<or> \<not> json_truthy signature then Inr None
          else
            bindr (json_str signature) (\<lambda>sig.
            if sig \<noteq> hello_signature D payload then Inr None
            else
              bindr (json_get ''type'' JNull payload) (\<lambda>t.
              if t \<noteq> JStr ''HELLO'' then Inr None
              else
                bindr (bindr (json_get ''node_id'' (JStr []) payload) json_str) (\<lambda>peer_id.
                if peer_id = own_id then Inr None
                else map_sum id Some (hello_peer now peer_id ip payload)))))))"

text \<open>The task that adds the peer is run at once.\<close>

definition datagram_received ::
    "disc_env \<Rightarrow> real \<Rightarrow> bytes \<Rightarrow> string \<Rightarrow> 'a net_state_scheme \<Rightarrow> unit res \<times> 'a net_state_scheme" where
  "datagram_received D now data ip S =
     (case hello_from D now data ip (ns_node_id (nt_node S)) of
        Inl e \<Rightarrow> (Inl e, S)
      | Inr None \<Rightarrow> (Inr (), S)
      | Inr (Some p) \<Rightarrow> (Inr (), S\<lparr>nt_node := add_peer now p (nt_node S)\<rparr>))"

subsection \<open>Properties\<close>

text \<open>The law of the JSON library, for a value the code writes.\<close>

definition reads_back :: "orjson \<Rightarrow> json \<Rightarrow> bool" where
  "reads_back J v \<longleftrightarrow> oj_loads J (oj_dumps J v) = Some v"

definition announced_peer :: "real \<Rightarrow> real \<Rightarrow> string \<Rightarrow> health \<Rightarrow> 'a net_state_scheme \<Rightarrow> peer_info" where
  "announced_peer sent now ip he A =
     \<lparr>pi_node_id = ns_node_id (nt_node A), pi_ip = ip, pi_tcp_port = ns_tcp_port (nt_node A),
      pi_name = ns_name (nt_node A), pi_last_seen = now,
      pi_free_space = trunc_float (he_free_disk_gb he * 1024 ^ 3), pi_uptime = uptime sent (nt_node A),
      pi_latency = 0, pi_health_score = he_health_score he, pi_api_port = nt_api_port A\<rparr>"

lemma json_get_hit [simp]: "dict_get kvs k = Some v \<Longrightarrow> json_get k d (JObj kvs) = Inr v"
  by (simp add: json_get_def)

lemma hello_peer_payload:
  "hello_peer now (ns_node_id (nt_node A)) ip (hello_payload sent he A) = Inr (announced_peer sent now ip he A)"
  by (simp add: hello_peer_def hello_payload_def health_json_def announced_peer_def)

lemma hello_from_build:
  assumes "reads_back (dc_orjson D) (hello_wrapper D (hello_payload sent he A))"
    and "hello_signature D (hello_payload sent he A) \<noteq> []"
  shows "hello_from D now (build_hello D sent he A) ip own =
     (if ns_node_id (nt_node A) = own then Inr None else Inr (Some (announced_peer sent now ip he A)))"
proof -
  let ?p = "hello_payload sent he A"
  have "json_get ''type'' JNull ?p = Inr (JStr ''HELLO'')" "json_truthy ?p"
    "json_get ''node_id'' (JStr []) ?p = Inr (JStr (ns_node_id (nt_node A)))"
    by (simp_all add: hello_payload_def)
  moreover have "oj_loads (dc_orjson D) (build_hello D sent he A) =
      Some (JObj [(''payload'', ?p), (''signature'', JStr (hello_signature D ?p))])"
    using assms(1) by (simp add: reads_back_def hello_wrapper_def build_hello_def)
  ultimately show ?thesis
    using assms(2) by (simp add: hello_from_def hello_peer_payload)
qed

text \<open>
  The HELLO one node broadcasts is taken in by every node with the same swarm key: the receiver
  adds the sender with the name, the ports, the health score, the uptime and the free space of the
  broadcast and the address the datagram came from. A node ignores its own broadcast. Neither the
  timestamp nor the address is checked against the signature: the same bytes, sent again from anywhere,
  have the same effect with the new address.
\<close>

theorem hello_registers_sender:
  assumes "reads_back (dc_orjson D) (hello_wrapper D (hello_payload sent he A))"
    and "\<forall>k m. dc_hmac D k m \<noteq> []"
  shows "datagram_received D now (build_hello D sent he A) ip B =
     (Inr (), if ns_node_id (nt_node A) = ns_node_id (nt_node B) then B
              else B\<lparr>nt_node := add_peer now (announced_peer sent now ip he A) (nt_node B)\<rparr>)"
  using hello_from_build [OF assms(1), of now ip] assms(2)
  by (simp add: datagram_received_def hello_signature_def)

definition idle_health :: health where
  "idle_health = \<lparr>he_free_ram_mb = 512, he_cpu_freq_ghz = 2, he_cpu_percent = 0, he_free_disk_gb = 1, he_health_score = 722\<rparr>"

definition hello_sender :: net_state where
  "hello_sender = \<lparr>nt_node = (new_node_state 0 ''n7'' ''gamma'')\<lparr>ns_tcp_port := 50007\<rparr>, nt_api_port = 8007,
     nt_connections = [], nt_written = (\<lambda>_. []), nt_open = (\<lambda>_. False)\<rparr>"

definition hello_receiver :: net_state where
  "hello_receiver = hello_sender\<lparr>nt_node := example_node\<rparr>"

definition hello_env :: disc_env where
  "hello_env =
     (let D = \<lparr>dc_orjson = \<lparr>oj_dumps = (\<lambda>v. [1]), oj_dumps_sorted = (\<lambda>v. [2]), oj_loads = (\<lambda>b. None)\<rparr>,
               dc_hmac = (\<lambda>k m. ''5a''), dc_swarm_key = ''key''\<rparr>
      in D\<lparr>dc_orjson := (dc_orjson D)\<lparr>oj_loads :=
             (\<lambda>b. if b = [1] then Some (hello_wrapper D (hello_payload 9 idle_health hello_sender)) else None)\<rparr>\<rparr>)"

lemma hello_env_reads_back:
  "reads_back (dc_orjson hello_env) (hello_wrapper hello_env (hello_payload 9 idle_health hello_sender))"
  by (simp add: reads_back_def hello_env_def hello_wrapper_def hello_signature_def)

theorem hello_registers_sender_witness:
  "datagram_received hello_env 10 (build_hello hello_env 9 idle_health hello_sender) ''10.0.0.7'' hello_receiver =
     (Inr (), hello_receiver\<lparr>nt_node := add_peer 10
        \<lparr>pi_node_id = ''n7'', pi_ip = ''10.0.0.7'', pi_tcp_port = 50007, pi_name = ''gamma'', pi_last_seen = 10,
         pi_free_space = 1073741824, pi_uptime = 9, pi_latency = 0, pi_health_score = 722, pi_api_port = 8007\<rparr>
        example_node\<rparr>)"
proof -
  have "\<forall>k m. dc_hmac hello_env k m \<noteq> []" by (simp add: hello_env_def)
  from hello_registers_sender [OF hello_env_reads_back this, of 10 "''10.0.0.7''" hello_receiver]
  show ?thesis
    by (simp add: hello_receiver_def announced_peer_def hello_sender_def idle_health_def trunc_float_def uptime_def
        new_node_state_def example_node_def add_peer_def set_database_def Let_def)
qed

text \<open>
  C26. A datagram changes the registry only when it carries a payload signed with the swarm key. Then
  it touches no peer but the one it names, which is not the node itself.
\<close>

theorem unsigned_hello_ignored:
  assumes "nt_node (snd (datagram_received D now data ip S)) \<noteq> nt_node S"
  shows "\<exists>payload peer_id kvs. oj_loads (dc_orjson D) data = Some (JObj kvs) \<and>
     dict_get kvs ''payload'' = Some payload \<and>
     dict_get kvs ''signature'' = Some (JStr (hello_signature D payload)) \<and>
     json_get ''node_id'' (JStr []) payload = Inr (JStr peer_id) \<and> peer_id \<noteq> ns_node_id (nt_node S) \<and>
     (\<forall>k. k \<noteq> peer_id \<longrightarrow>
        get_peer (nt_node (snd (datagram_received D now data ip S))) k = get_peer (nt_node S) k)"
proof -
  have str: "json_str v = Inr s \<longleftrightarrow> v = JStr s" for v s by (cases v) auto
  obtain p where p: "hello_from D now data ip (ns_node_id (nt_node S)) = Inr (Some p)"
    using assms by (auto simp: datagram_received_def split: sum.splits option.splits)
  then obtain w payload t peer_id where w: "oj_loads (dc_orjson D) data = Some w"
      "json_get ''payload'' JNull w = Inr payload" "json_truthy payload"
      "json_get ''signature'' JNull w = Inr (JStr (hello_signature D payload))"
      "json_get ''node_id'' (JStr []) payload = Inr (JStr peer_id)" "peer_id \<noteq> ns_node_id (nt_node S)"
      "json_truthy (JStr (hello_signature D payload))"
      "hello_peer now peer_id ip payload = Inr p"
    by (auto simp: hello_from_def bindr_eq_Inr str map_sum_def split: option.splits if_splits sum.splits)
  have id: "pi_node_id p = peer_id" using w(8) by (auto simp: hello_peer_def bindr_eq_Inr)
  obtain kvs where kvs: "w = JObj kvs" using w(2) by (cases w) (auto simp: json_get_def)
  have "dict_get kvs ''payload'' = Some payload"
    using w(2,3) by (cases "dict_get kvs ''payload''") (auto simp: kvs json_get_def)
  moreover have "dict_get kvs ''signature'' = Some (JStr (hello_signature D payload))"
    using w(4) by (cases "dict_get kvs ''signature''") (auto simp: kvs json_get_def)
  moreover have "\<forall>k. k \<noteq> peer_id \<longrightarrow>
      get_peer (nt_node (snd (datagram_received D now data ip S))) k = get_peer (nt_node S) k"
    by (simp add: datagram_received_def p add_peer_def get_peer_def id Let_def)
  ultimately show ?thesis using w(1,5,6) kvs by blast
qed

theorem unsigned_hello_ignored_witness:
  "\<exists>payload peer_id kvs. oj_loads (dc_orjson hello_env) [1] = Some (JObj kvs) \<and>
     dict_get kvs ''payload'' = Some payload \<and>
     dict_get kvs ''signature'' = Some (JStr (hello_signature hello_env payload)) \<and>
     json_get ''node_id'' (JStr []) payload = Inr (JStr peer_id) \<and> peer_id \<noteq> ns_node_id (nt_node hello_receiver) \<and>
     (\<forall>k. k \<noteq> peer_id \<longrightarrow>
        get_peer (nt_node (snd (datagram_received hello_env 10 [1] ''10.0.0.7'' hello_receiver))) k =
        get_peer (nt_node hello_receiver) k)"
proof (rule unsigned_hello_ignored)
  have ne: "hello_signature hello_env (hello_payload 9 idle_health hello_sender) \<noteq> []"
    by (simp add: hello_signature_def hello_env_def)
  have "build_hello hello_env 9 idle_health hello_sender = [1]" by (simp add: build_hello_def hello_env_def)
  moreover have "ns_node_id (nt_node hello_sender) \<noteq> ns_node_id (nt_node hello_receiver)"
    by (simp add: hello_receiver_def hello_sender_def new_node_state_def example_node_def add_peer_def set_database_def Let_def)
  ultimately have "hello_from hello_env 10 [1] ''10.0.0.7'' (ns_node_id (nt_node hello_receiver)) =
      Inr (Some (announced_peer 9 10 ''10.0.0.7'' idle_health hello_sender))"
    using hello_from_build [OF hello_env_reads_back ne, of 10 "''10.0.0.7''"] by simp
  moreover have "get_peer (nt_node hello_receiver) ''n7'' = None"
    by (simp add: hello_receiver_def hello_sender_def get_peer_def example_node_def add_peer_def set_database_def
        new_node_state_def example_peer_def Let_def)
  moreover have "pi_node_id (announced_peer 9 10 ''10.0.0.7'' idle_health hello_sender) = ''n7''"
    by (simp add: announced_peer_def hello_sender_def new_node_state_def)
  ultimately show "nt_node (snd (datagram_received hello_env 10 [1] ''10.0.0.7'' hello_receiver)) \<noteq> nt_node hello_receiver"
    by (auto simp: datagram_received_def add_peer_def get_peer_def Let_def dest!: arg_cong [where f = "\<lambda>st. get_peer st ''n7''"])
qed

end
