(* ===== verification/Config.thy ===== *)
theory Config
  imports Discovery Dht
begin

section \<open>Configuration and start-up (backend/utils/config.py, backend/main.py)\<close>

text \<open>
  A parsed YAML document. The dataclasses check no types, so a setting is whatever the document
  holds. The file system, the YAML parser and the random identifier are parameters; a path that
  exists is a readable file.
\<close>

datatype yaml =
    YNull
  | YBool bool
  | YInt int
  | YFloat real
  | YStr string
  | YList "yaml list"
  | YMap "(yaml \<times> yaml) list"

fun yaml_truthy :: "yaml \<Rightarrow> bool" where
  "yaml_truthy YNull = False"
| "yaml_truthy (YBool b) = b"
| "yaml_truthy (YInt n) = (n \<noteq> 0)"
| "yaml_truthy (YFloat x) = (x \<noteq> 0)"
| "yaml_truthy (YStr s) = (s \<noteq> [])"
| "yaml_truthy (YList xs) = (xs \<noteq> [])"
| "yaml_truthy (YMap kvs) = (kvs \<noteq> [])"

record node_config =
  cf_node_id :: yaml
  cf_name :: yaml

record network_config =
  cf_discovery_port :: yaml
  cf_tcp_port :: yaml
  cf_broadcast_address :: yaml
  cf_discovery_interval :: yaml
  cf_peer_timeout :: yaml
  cf_swarm_key :: yaml

record storage_config =
  cf_chunk_dir :: yaml
  cf_chunk_size :: yaml
  cf_max_storage_mb :: yaml

record replication_config =
  cf_factor :: yaml

record api_config =
  cf_host :: yaml
  cf_port :: yaml

record logging_config =
  cf_level :: yaml
  cf_file :: yaml

record app_config =
  cf_node :: node_config
  cf_network :: network_config
  cf_storage :: storage_config
  cf_replication :: replication_config
  cf_api :: api_config
  cf_logging :: logging_config

text \<open>The keyword arguments of a dataclass: the entries of the section that are fields of the class.\<close>

type_synonym kwargs = "(yaml \<times> yaml) list"

definition known :: "string list \<Rightarrow> kwargs \<Rightarrow> kwargs" where
  "known ks kvs = filter (\<lambda>(k, v). k \<in> YStr ` set ks) kvs"

definition arg :: "kwargs \<Rightarrow> string \<Rightarrow> yaml \<Rightarrow> yaml" where
  "arg kw k d = get_or d (dict_get kw (YStr k))"

definition NodeConfig :: "kwargs \<Rightarrow> node_config" where
  "NodeConfig kw = \<lparr>cf_node_id = arg kw ''node_id'' (YStr ''auto''), cf_name = arg kw ''name'' (YStr ''node-default'')\<rparr>"

definition NetworkConfig :: "kwargs \<Rightarrow> network_config" where
  "NetworkConfig kw =
     \<lparr>cf_discovery_port = arg kw ''discovery_port'' (YInt 50000), cf_tcp_port = arg kw ''tcp_port'' (YInt 50001),
      cf_broadcast_address = arg kw ''broadcast_address'' (YStr ''255.255.255.255''),
      cf_discovery_interval = arg kw ''discovery_interval'' (YInt 5),
      cf_peer_timeout = arg kw ''peer_timeout'' (YInt 15),
      cf_swarm_key = arg kw ''swarm_key'' (YStr ''default_distristore_secret'')\<rparr>"

definition StorageConfig :: "kwargs \<Rightarrow> storage_config" where
  "StorageConfig kw =
     \<lparr>cf_chunk_dir = arg kw ''chunk_dir'' (YStr ''.storage''), cf_chunk_size = arg kw ''chunk_size'' (YInt 262144),
      cf_max_storage_mb = arg kw ''max_storage_mb'' (YInt 1024)\<rparr>"

definition ReplicationConfig :: "kwargs \<Rightarrow> replication_config" where
  "ReplicationConfig kw = \<lparr>cf_factor = arg kw ''factor'' (YInt 3)\<rparr>"

definition ApiConfig :: "kwargs \<Rightarrow> api_config" where
  "ApiConfig kw = \<lparr>cf_host = arg kw ''host'' (YStr ''0.0.0.0''), cf_port = arg kw ''port'' (YInt 8000)\<rparr>"

definition LoggingConfig :: "kwargs \<Rightarrow> logging_config" where
  "LoggingConfig kw = \<lparr>cf_level = arg kw ''level'' (YStr ''DEBUG''), cf_file = arg kw ''file'' (YStr ''distristore.log'')\<rparr>"

definition default_config :: app_config where
  "default_config =
     \<lparr>cf_node = NodeConfig [], cf_network = NetworkConfig [], cf_storage = StorageConfig [],
      cf_replication = ReplicationConfig [], cf_api = ApiConfig [], cf_logging = LoggingConfig []\<rparr>"

definition node_fields :: "string list" where "node_fields = [''node_id'', ''name'']"
definition network_fields :: "string list" where
  "network_fields = [''discovery_port'', ''tcp_port'', ''broadcast_address'', ''discovery_interval'',
     ''peer_timeout'', ''swarm_key'']"
definition storage_fields :: "string list" where "storage_fields = [''chunk_dir'', ''chunk_size'', ''max_storage_mb'']"
definition replication_fields :: "string list" where "replication_fields = [''factor'']"
definition api_fields :: "string list" where "api_fields = [''host'', ''port'']"
definition logging_fields :: "string list" where "logging_fields = [''level'', ''file'']"

lemmas field_lists = node_fields_def network_fields_def storage_fields_def replication_fields_def api_fields_def
  logging_fields_def

text \<open>\<^verbatim>\<open>raw.get(section, {}).items()\<close>: only a mapping has \<^verbatim>\<open>items\<close>.\<close>

definition section_items :: "kwargs \<Rightarrow> string \<Rightarrow> kwargs res" where
  "section_items raw s =
     (case dict_get raw (YStr s) of
        None \<Rightarrow> Inr []
      | Some (YMap kvs) \<Rightarrow> Inr kvs
      | Some _ \<Rightarrow> Inl AttributeError)"

definition config_of :: "kwargs \<Rightarrow> app_config res" where
  "config_of raw =
     bindr (section_items raw ''node'') (\<lambda>n.
     bindr (section_items raw ''network'') (\<lambda>net.
     bindr (section_items raw ''storage'') (\<lambda>st.
     bindr (section_items raw ''replication'') (\<lambda>r.
     bindr (section_items raw ''api'') (\<lambda>a.
     bindr (section_items raw ''logging'') (\<lambda>l.
     Inr \<lparr>cf_node = NodeConfig (known node_fields n), cf_network = NetworkConfig (known network_fields net),
          cf_storage = StorageConfig (known storage_fields st),
          cf_replication = ReplicationConfig (known replication_fields r),
          cf_api = ApiConfig (known api_fields a), cf_logging = LoggingConfig (known logging_fields l)\<rparr>))))))"

text \<open>\<open>auto_id token\<close> replaces the identifier \<^verbatim>\<open>auto\<close> by a fresh one.\<close>

definition auto_id :: "string \<Rightarrow> app_config \<Rightarrow> app_config" where
  "auto_id token cfg =
     (if cf_node_id (cf_node cfg) = YStr ''auto''
      then cfg\<lparr>cf_node := (cf_node cfg)\<lparr>cf_node_id := YStr token\<rparr>\<rparr> else cfg)"

record config_env =
  ce_cwd :: string
  ce_root :: string
  ce_files :: "string \<Rightarrow> bytes option"
  ce_safe_load :: "bytes \<Rightarrow> yaml res"

definition find_config :: "config_env \<Rightarrow> string option \<Rightarrow> string option" where
  "find_config E config_path =
     (case config_path of
        Some p \<Rightarrow> Some p
      | None \<Rightarrow> find (\<lambda>p. ce_files E p \<noteq> None) [ce_cwd E @ ''/config.yaml'', ce_root E @ ''/config.yaml''])"

definition load_config :: "config_env \<Rightarrow> string \<Rightarrow> string option \<Rightarrow> app_config res" where
  "load_config E token config_path =
     (case Option.bind (find_config E config_path) (ce_files E) of
        None \<Rightarrow> Inr (auto_id token default_config)
      | Some text \<Rightarrow>
          bindr (ce_safe_load E text) (\<lambda>doc.
          bindr (if yaml_truthy doc then (case doc of YMap raw \<Rightarrow> config_of raw | _ \<Rightarrow> Inl AttributeError)
                 else config_of []) (\<lambda>cfg.
          Inr (auto_id token cfg))))"

text \<open>The singleton: the configuration is loaded once.\<close>

definition get_config ::
    "config_env \<Rightarrow> string \<Rightarrow> string option \<Rightarrow> app_config option \<Rightarrow> app_config res \<times> app_config option" where
  "get_config E token config_path cache =
     (case cache of
        Some cfg \<Rightarrow> (Inr cfg, cache)
      | None \<Rightarrow>
          (case load_config E token config_path of
             Inl e \<Rightarrow> (Inl e, None)
           | Inr cfg \<Rightarrow> (Inr cfg, Some cfg)))"

subsection \<open>\<^verbatim>\<open>int\<close>\<close>

fun dec_digits :: "bool \<Rightarrow> int \<Rightarrow> string \<Rightarrow> int option" where
  "dec_digits after_digit acc [] = (if after_digit then Some acc else None)"
| "dec_digits after_digit acc (c # cs) =
     (if c = CHR ''_'' then if after_digit then dec_digits False acc cs else None
      else case hex_value c of
             None \<Rightarrow> None
           | Some d \<Rightarrow> if d < 10 then dec_digits True (10 * acc + d) cs else None)"

definition int10 :: "string \<Rightarrow> int res" where
  "int10 s =
     (let t = strip s;
          v = (if take 1 t = ''-'' then map_option uminus (dec_digits False 0 (tl t))
               else if take 1 t = ''+'' then dec_digits False 0 (tl t)
               else dec_digits False 0 t)
      in case v of None \<Rightarrow> Inl (ValueError (InvalidLiteral s)) | Some n \<Rightarrow> Inr n)"

fun yaml_int :: "yaml \<Rightarrow> int res" where
  "yaml_int (YInt n) = Inr n"
| "yaml_int (YBool b) = Inr (of_bool b)"
| "yaml_int (YFloat x) = Inr (trunc_float x)"
| "yaml_int (YStr s) = int10 s"
| "yaml_int _ = Inl TypeError"

text \<open>\<^verbatim>\<open>int(os.environ.get(var, default))\<close>\<close>

definition env_int :: "(string \<Rightarrow> string option) \<Rightarrow> string \<Rightarrow> yaml \<Rightarrow> int res" where
  "env_int environ var d = (case environ var of Some s \<Rightarrow> int10 s | None \<Rightarrow> yaml_int d)"

subsection \<open>\<^verbatim>\<open>main.py\<close>\<close>

text \<open>The overrides of \<^verbatim>\<open>_init\<close> on the configuration.\<close>

definition env_overrides :: "(string \<Rightarrow> string option) \<Rightarrow> string \<Rightarrow> app_config \<Rightarrow> app_config res" where
  "env_overrides environ token cfg =
     (let name = (case environ ''DS_NAME'' of Some s \<Rightarrow> YStr s | None \<Rightarrow> cf_name (cf_node cfg))
      in bindr (env_int environ ''DS_TCP_PORT'' (cf_tcp_port (cf_network cfg))) (\<lambda>tcp_port.
         bindr (env_int environ ''DS_UDP_PORT'' (cf_discovery_port (cf_network cfg))) (\<lambda>udp_port.
         let cfg1 = (if name \<noteq> cf_name (cf_node cfg)
                     then cfg\<lparr>cf_node := (cf_node cfg)\<lparr>cf_name := name, cf_node_id := YStr token\<rparr>\<rparr> else cfg)
         in Inr (cfg1\<lparr>cf_network := (cf_network cfg1)\<lparr>cf_tcp_port := YInt tcp_port,
                        cf_discovery_port := YInt udp_port\<rparr>\<rparr>))))"

text \<open>
  The node \<^verbatim>\<open>_init\<close> creates. Its state takes strings: an identifier or a name of another type, which Python keeps
  until it is used as a string, raises here.
\<close>

fun yaml_str :: "yaml \<Rightarrow> string res" where
  "yaml_str (YStr s) = Inr s"
| "yaml_str _ = Inl TypeError"

definition new_node :: "real \<Rightarrow> app_config \<Rightarrow> net_state res" where
  "new_node now cfg =
     bindr (yaml_str (cf_node_id (cf_node cfg))) (\<lambda>nid.
     bindr (yaml_str (cf_name (cf_node cfg))) (\<lambda>name.
     Inr \<lparr>nt_node = new_node_state now nid name, nt_api_port = 8888, nt_connections = [],
          nt_written = (\<lambda>_. []), nt_open = (\<lambda>_. False)\<rparr>))"

text \<open>
  \<^verbatim>\<open>lifespan\<close> up to \<^verbatim>\<open>yield\<close>: the port of the API, the peers of the database, the TCP server.
  \<open>bind_tcp\<close> is the port the system binds for a wanted one, or the exception it raises.
\<close>

definition startup ::
    "(string \<Rightarrow> string option) \<Rightarrow> (int \<Rightarrow> int res) \<Rightarrow> node_db \<Rightarrow> app_config \<Rightarrow> net_state \<Rightarrow> net_state res" where
  "startup environ bind_tcp db cfg S =
     bindr (env_int environ ''DS_API_PORT'' (cf_port (cf_api cfg))) (\<lambda>api_port.
     bindr (bindr (yaml_int (cf_tcp_port (cf_network cfg))) bind_tcp) (\<lambda>actual_port.
     Inr (start_server actual_port
       (S\<lparr>nt_api_port := api_port, nt_node := load_peers_from_db (set_database db (nt_node S))\<rparr>))))"

text \<open>
  The main program tries eleven ports. \<open>serve\<close> is \<^verbatim>\<open>uvicorn.run\<close> on a port: it returns, raises the
  \<^verbatim>\<open>OSError\<close> of an address in use, or raises something else.
\<close>

datatype serve_result = Returns | AddressInUse | Fails exn

datatype main_result = Served int | ExitOne | Raises exn

fun try_ports :: "(int \<Rightarrow> serve_result) \<Rightarrow> int \<Rightarrow> nat \<Rightarrow> main_result" where
  "try_ports serve port 0 = ExitOne"
| "try_ports serve port (Suc n) =
     (case serve port of
        Returns \<Rightarrow> Served port
      | AddressInUse \<Rightarrow> try_ports serve (port + 1) n
      | Fails e \<Rightarrow> Raises e)"

definition main :: "(string \<Rightarrow> string option) \<Rightarrow> (int \<Rightarrow> serve_result) \<Rightarrow> app_config \<Rightarrow> main_result" where
  "main environ serve cfg =
     (case env_int environ ''DS_API_PORT'' (cf_port (cf_api cfg)) of
        Inl e \<Rightarrow> Raises e
      | Inr base_port \<Rightarrow> try_ports serve base_port 11)"

subsection \<open>Loading\<close>

text \<open>The settings of a configuration by section and name, and their defaults.\<close>

definition settings :: "app_config \<Rightarrow> ((string \<times> string) \<times> yaml) list" where
  "settings c =
     [((''node'', ''node_id''), cf_node_id (cf_node c)), ((''node'', ''name''), cf_name (cf_node c)),
      ((''network'', ''discovery_port''), cf_discovery_port (cf_network c)),
      ((''network'', ''tcp_port''), cf_tcp_port (cf_network c)),
      ((''network'', ''broadcast_address''), cf_broadcast_address (cf_network c)),
      ((''network'', ''discovery_interval''), cf_discovery_interval (cf_network c)),
      ((''network'', ''peer_timeout''), cf_peer_timeout (cf_network c)),
      ((''network'', ''swarm_key''), cf_swarm_key (cf_network c)),
      ((''storage'', ''chunk_dir''), cf_chunk_dir (cf_storage c)),
      ((''storage'', ''chunk_size''), cf_chunk_size (cf_storage c)),
      ((''storage'', ''max_storage_mb''), cf_max_storage_mb (cf_storage c)),
      ((''replication'', ''factor''), cf_factor (cf_replication c)),
      ((''api'', ''host''), cf_host (cf_api c)), ((''api'', ''port''), cf_port (cf_api c)),
      ((''logging'', ''level''), cf_level (cf_logging c)), ((''logging'', ''file''), cf_file (cf_logging c))]"

definition raw_value :: "kwargs \<Rightarrow> string \<times> string \<Rightarrow> yaml option" where
  "raw_value raw sk =
     (case section_items raw (fst sk) of Inl e \<Rightarrow> None | Inr kvs \<Rightarrow> dict_get kvs (YStr (snd sk)))"

definition expected :: "string \<Rightarrow> kwargs \<Rightarrow> (string \<times> string) \<times> yaml \<Rightarrow> (string \<times> string) \<times> yaml" where
  "expected token raw x =
     (let v = get_or (snd x) (raw_value raw (fst x))
      in (fst x, if fst x = (''node'', ''node_id'') \<and> v = YStr ''auto'' then YStr token else v))"

lemma arg_known: "k \<in> set ks \<Longrightarrow> arg (known ks kvs) k d = arg kvs k d"
  unfolding arg_def known_def by (induction kvs) auto

lemma arg_Nil [simp]: "arg [] k d = d"
  by (simp add: arg_def)

lemma config_of_settings:
  assumes "config_of raw = Inr cfg"
  shows "settings (auto_id token cfg) = map (expected token raw) (settings default_config)"
proof -
  obtain n net st r a l where s: "section_items raw ''node'' = Inr n" "section_items raw ''network'' = Inr net"
      "section_items raw ''storage'' = Inr st" "section_items raw ''replication'' = Inr r"
      "section_items raw ''api'' = Inr a" "section_items raw ''logging'' = Inr l"
    and cfg: "cfg = \<lparr>cf_node = NodeConfig (known node_fields n), cf_network = NetworkConfig (known network_fields net),
        cf_storage = StorageConfig (known storage_fields st), cf_replication = ReplicationConfig (known replication_fields r),
        cf_api = ApiConfig (known api_fields a), cf_logging = LoggingConfig (known logging_fields l)\<rparr>"
    using assms unfolding config_of_def bindr_eq_Inr by blast
  have raw: "raw_value raw (''node'', k) = dict_get n (YStr k)" "raw_value raw (''network'', k) = dict_get net (YStr k)"
      "raw_value raw (''storage'', k) = dict_get st (YStr k)" "raw_value raw (''replication'', k) = dict_get r (YStr k)"
      "raw_value raw (''api'', k) = dict_get a (YStr k)" "raw_value raw (''logging'', k) = dict_get l (YStr k)" for k
    by (simp_all add: raw_value_def s)
  have get: "get_or d (dict_get kw (YStr k)) = arg kw k d" for d kw k by (simp add: arg_def)
  have auto: "settings (auto_id token cfg) =
      ((''node'', ''node_id''), if cf_node_id (cf_node cfg) = YStr ''auto'' then YStr token else cf_node_id (cf_node cfg)) #
      tl (settings cfg)"
    by (simp add: auto_id_def settings_def)
  show ?thesis
    unfolding auto
    by (simp add: cfg settings_def expected_def raw get default_config_def arg_known field_lists Let_def
        NodeConfig_def NetworkConfig_def StorageConfig_def ReplicationConfig_def ApiConfig_def LoggingConfig_def)
qed

definition section_names :: "string list" where
  "section_names = [''node'', ''network'', ''storage'', ''replication'', ''api'', ''logging'']"

definition bad_section :: "kwargs \<Rightarrow> string \<Rightarrow> bool" where
  "bad_section raw s \<longleftrightarrow> (\<exists>v. dict_get raw (YStr s) = Some v \<and> (\<forall>kvs. v \<noteq> YMap kvs))"

lemma section_items_cases:
  "section_items raw s = (if bad_section raw s then Inl AttributeError else Inr (projr (section_items raw s)))"
  by (auto simp: section_items_def bad_section_def split: option.splits yaml.splits)

lemma config_of_result:
  "case config_of raw of
     Inl e \<Rightarrow> e = AttributeError \<and> (\<exists>s \<in> set section_names. bad_section raw s)
   | Inr cfg \<Rightarrow> (\<forall>s \<in> set section_names. \<not> bad_section raw s)"
proof -
  note s = section_items_cases [of raw "''node''"] section_items_cases [of raw "''network''"]
    section_items_cases [of raw "''storage''"] section_items_cases [of raw "''replication''"]
    section_items_cases [of raw "''api''"] section_items_cases [of raw "''logging''"]
  consider (bad) "\<exists>s \<in> set section_names. bad_section raw s" | (good) "\<forall>s \<in> set section_names. \<not> bad_section raw s"
    by blast
  then show ?thesis
  proof cases
    case bad
    then have "config_of raw = Inl AttributeError"
      unfolding config_of_def
      by (subst s(1), subst s(2), subst s(3), subst s(4), subst s(5), subst s(6)) (auto simp: section_names_def)
    then show ?thesis using bad by simp
  next
    case good
    then have "\<exists>cfg. config_of raw = Inr cfg"
      unfolding config_of_def
      by (subst s(1), subst s(2), subst s(3), subst s(4), subst s(5), subst s(6)) (simp add: section_names_def)
    then show ?thesis using good by auto
  qed
qed

text \<open>
  C33. Loading a configuration file whose document is a mapping (an empty file counts as one): every
  setting has the value the document gives it in its section, or else its default; what the
  document says under other names is ignored, and the identifier \<^verbatim>\<open>auto\<close> becomes the fresh one. The load
  fails, with \<^verbatim>\<open>AttributeError\<close>, exactly when one of the six sections is there and is not a
  mapping, as for a section whose entries are all commented out.
\<close>

theorem load_config_settings:
  assumes "find_config E path = Some p" and "ce_files E p = Some txt" and "ce_safe_load E txt = Inr doc"
    and "doc = YMap raw \<or> (\<not> yaml_truthy doc \<and> raw = [])"
  shows "case load_config E token path of
     Inl e \<Rightarrow> e = AttributeError \<and> (\<exists>s \<in> set section_names. bad_section raw s)
   | Inr cfg \<Rightarrow> (\<forall>s \<in> set section_names. \<not> bad_section raw s) \<and>
       settings cfg = map (expected token raw) (settings default_config)"
proof -
  have "(if yaml_truthy doc then (case doc of YMap raw \<Rightarrow> config_of raw | _ \<Rightarrow> Inl AttributeError) else config_of []) =
      config_of raw"
    using assms(4) by (cases doc) auto
  then have "load_config E token path = bindr (config_of raw) (\<lambda>cfg. Inr (auto_id token cfg))"
    using assms(1-3) by (simp add: load_config_def)
  then show ?thesis
    using config_of_result [of raw] config_of_settings [of raw] by (cases "config_of raw") auto
qed

definition yaml_env :: "yaml \<Rightarrow> config_env" where
  "yaml_env doc =
     \<lparr>ce_cwd = ''/srv'', ce_root = ''/opt'', ce_files = Map.empty(''/opt/config.yaml'' \<mapsto> [1]),
      ce_safe_load = (\<lambda>b. Inr doc)\<rparr>"

theorem load_config_settings_witness:
  "load_config (yaml_env (YMap [(YStr ''api'', YMap [(YStr ''port'', YInt 9000), (YStr ''color'', YInt 1)])])) ''f00d'' None =
     Inr (default_config\<lparr>cf_api := \<lparr>cf_host = YStr ''0.0.0.0'', cf_port = YInt 9000\<rparr>,
       cf_node := \<lparr>cf_node_id = YStr ''f00d'', cf_name = YStr ''node-default''\<rparr>\<rparr>) \<and>
   load_config (yaml_env (YMap [(YStr ''node'', YNull)])) ''f00d'' None = Inl AttributeError"
proof
  let ?raw = "[(YStr ''api'', YMap [(YStr ''port'', YInt 9000), (YStr ''color'', YInt 1)])]"
  have f: "find_config (yaml_env doc) None = Some ''/opt/config.yaml''" for doc
    by (simp add: find_config_def yaml_env_def)
  have "\<forall>s \<in> set section_names. \<not> bad_section ?raw s"
    by (simp add: section_names_def bad_section_def)
  then obtain cfg where cfg: "load_config (yaml_env (YMap ?raw)) ''f00d'' None = Inr cfg"
    "settings cfg = map (expected ''f00d'' ?raw) (settings default_config)"
    using load_config_settings [OF f, of "YMap ?raw" "[1]" "YMap ?raw" ?raw "''f00d''"]
    by (auto simp: yaml_env_def split: sum.splits)
  have "cfg = default_config\<lparr>cf_api := \<lparr>cf_host = YStr ''0.0.0.0'', cf_port = YInt 9000\<rparr>,
       cf_node := \<lparr>cf_node_id = YStr ''f00d'', cf_name = YStr ''node-default''\<rparr>\<rparr>"
    using cfg(2)
    by (simp add: settings_def expected_def raw_value_def section_items_def default_config_def NodeConfig_def
        NetworkConfig_def StorageConfig_def ReplicationConfig_def ApiConfig_def LoggingConfig_def Let_def)
  with cfg(1) show "load_config (yaml_env (YMap ?raw)) ''f00d'' None =
     Inr (default_config\<lparr>cf_api := \<lparr>cf_host = YStr ''0.0.0.0'', cf_port = YInt 9000\<rparr>,
       cf_node := \<lparr>cf_node_id = YStr ''f00d'', cf_name = YStr ''node-default''\<rparr>\<rparr>)" by simp
  let ?doc = "YMap [(YStr ''node'', YNull)]"
  have bad: "bad_section [(YStr ''node'', YNull)] ''node''" by (simp add: bad_section_def)
  have "''node'' \<in> set section_names" by (simp add: section_names_def)
  with bad show "load_config (yaml_env ?doc) ''f00d'' None = Inl AttributeError"
    using load_config_settings [OF f, of ?doc "[1]" ?doc "[(YStr ''node'', YNull)]" "''f00d''"]
    by (auto simp: yaml_env_def split: sum.splits)
qed

subsection \<open>Ports\<close>

lemma try_ports_result:
  "case try_ports serve port n of
     Served p \<Rightarrow> port \<le> p \<and> p < port + int n \<and> serve p = Returns \<and> (\<forall>q. port \<le> q \<and> q < p \<longrightarrow> serve q = AddressInUse)
   | ExitOne \<Rightarrow> \<forall>q. port \<le> q \<and> q < port + int n \<longrightarrow> serve q = AddressInUse
   | Raises e \<Rightarrow> True"
proof (induction n arbitrary: port)
  case (Suc n)
  have split: "(\<forall>q. port \<le> q \<and> q < b \<longrightarrow> serve q = AddressInUse) \<longleftrightarrow> (\<forall>q. port + 1 \<le> q \<and> q < b \<longrightarrow> serve q = AddressInUse)"
    if "serve port = AddressInUse" for b
    using that by (metis dual_order.order_iff_strict zless_imp_add1_zle zle_add1_eq_le less_le_not_le order_refl add1_zle_eq)
  show ?case
  proof (cases "serve port")
    case AddressInUse
    then show ?thesis
      using Suc.IH [of "port + 1"] split [OF AddressInUse]
      by (cases "try_ports serve (port + 1) n") (auto simp: algebra_simps)
  qed auto
qed auto

text \<open>
  The main program serves the API on the first free port among eleven and exits when all are
  in use; but the port the node announces in its HELLO broadcasts is the configured one, so that after a fallback
  the other nodes are told a port the node does not serve.
\<close>

theorem fallback_port_not_announced:
  assumes "env_int environ ''DS_API_PORT'' (cf_port (cf_api cfg)) = Inr base"
    and "startup environ bind_tcp db cfg S = Inr S'" and "main environ serve cfg = Served p"
  shows "base \<le> p \<and> p \<le> base + 10 \<and> serve p = Returns \<and> (\<forall>q. base \<le> q \<and> q < p \<longrightarrow> serve q = AddressInUse) \<and>
     json_get ''api_port'' (JInt 8888) (hello_payload now he S') = Inr (JInt base) \<and>
     (serve base = AddressInUse \<longrightarrow> p \<noteq> base)"
proof -
  have "try_ports serve base 11 = Served p" using assms(1,3) by (simp add: main_def)
  then have "base \<le> p \<and> p \<le> base + 10 \<and> serve p = Returns \<and> (\<forall>q. base \<le> q \<and> q < p \<longrightarrow> serve q = AddressInUse)"
    using try_ports_result [where serve = serve and port = base and n = 11] by simp
  moreover have "nt_api_port S' = base"
    using assms(1,2) by (auto simp: startup_def start_server_def bindr_eq_Inr)
  ultimately show ?thesis by (auto simp: hello_payload_def)
qed

theorem fallback_port_not_announced_witness:
  "\<exists>S'. startup (\<lambda>v. None) Inr empty_db (auto_id ''aa'' default_config) (fresh_net ''aa'') = Inr S' \<and>
     main (\<lambda>v. None) (\<lambda>p. if p = 8000 then AddressInUse else Returns) (auto_id ''aa'' default_config) = Served 8001 \<and>
     json_get ''api_port'' (JInt 8888) (hello_payload 0 idle_health S') = Inr (JInt 8000)"
proof -
  let ?cfg = "auto_id ''aa'' default_config" and ?serve = "\<lambda>p. if p = 8000 then AddressInUse else Returns"
  have port: "cf_port (cf_api ?cfg) = YInt 8000" "cf_tcp_port (cf_network ?cfg) = YInt 50001"
    by (simp_all add: auto_id_def default_config_def ApiConfig_def NetworkConfig_def)
  then have base: "env_int (\<lambda>v. None) ''DS_API_PORT'' (cf_port (cf_api ?cfg)) = Inr 8000" by (simp add: env_int_def)
  have m: "main (\<lambda>v. None) ?serve ?cfg = Served 8001"
    by (simp add: main_def base) (simp add: eval_nat_numeral)
  have "\<exists>S'. startup (\<lambda>v. None) Inr empty_db ?cfg (fresh_net ''aa'') = Inr S'"
    by (simp add: startup_def port env_int_def)
  then obtain S' where s: "startup (\<lambda>v. None) Inr empty_db ?cfg (fresh_net ''aa'') = Inr S'" by (elim exE)
  show ?thesis using fallback_port_not_announced [OF base s m, of 0 idle_health] s m by blast
qed

end
