(* ===== verification/Client.thy ===== *)
theory Client
  imports Discovery Chunker
begin

section \<open>The Python client (backend/framework/client.py)\<close>

text \<open>
  The HTTP library is a parameter: the answer to the n-th request of a call, or the exception
  the request raises. An answer has the exception \<^verbatim>\<open>raise_for_status\<close> raises for it, its body and its
  JSON. Requests that run at the same time keep the number of the task that makes them; the order in which they
  finish is a parameter of the calls that gather them. Writing the output file succeeds.
\<close>

type_synonym filesystem = "string \<Rightarrow> bytes option"

record response =
  rs_error :: "exn option"
  rs_content :: bytes
  rs_json :: "json res"

type_synonym http_get = "nat \<Rightarrow> string \<Rightarrow> (string \<times> string) list \<Rightarrow> response res"

definition SWARM_CONCURRENCY :: nat where "SWARM_CONCURRENCY = 5"

record sdk_client =
  sc_base_url :: string
  sc_concurrency :: nat

definition rstrip_slash :: "string \<Rightarrow> string" where
  "rstrip_slash s = rev (dropWhile (\<lambda>c. c = CHR ''/'') (rev s))"

definition new_sdk_client :: "string \<Rightarrow> nat \<Rightarrow> sdk_client" where
  "new_sdk_client base_url concurrency = \<lparr>sc_base_url = rstrip_slash base_url, sc_concurrency = concurrency\<rparr>"

definition get_ok :: "http_get \<Rightarrow> nat \<Rightarrow> string \<Rightarrow> (string \<times> string) list \<Rightarrow> response res" where
  "get_ok H n url params =
     bindr (H n url params) (\<lambda>r. case rs_error r of Some e \<Rightarrow> Inl e | None \<Rightarrow> Inr r)"

definition password_params :: "string \<Rightarrow> (string \<times> string) list" where
  "password_params password = (if password = [] then [] else [(''password'', password)])"

subsection \<open>Single requests\<close>

text \<open>\<open>post\<close> is the answer to the upload of a named file with its content and the password.\<close>

definition sdk_upload ::
    "(string \<Rightarrow> string \<Rightarrow> bytes \<Rightarrow> string \<Rightarrow> response res) \<Rightarrow> sdk_client \<Rightarrow> filesystem \<Rightarrow> string \<Rightarrow> string \<Rightarrow> json res" where
  "sdk_upload post C fs file_path password =
     (case fs file_path of
        None \<Rightarrow> Inl (FileNotFoundError (''File not found: '' @ file_path))
      | Some content \<Rightarrow>
          bindr (post (sc_base_url C @ ''/upload'') (path_name file_path) content password) (\<lambda>r.
          case rs_error r of Some e \<Rightarrow> Inl e | None \<Rightarrow> rs_json r))"

definition sdk_download ::
    "http_get \<Rightarrow> sdk_client \<Rightarrow> string \<Rightarrow> string \<Rightarrow> string \<Rightarrow> filesystem \<Rightarrow> string res \<times> filesystem" where
  "sdk_download H C fh output_path password fs =
     (case get_ok H 0 (sc_base_url C @ ''/download/'' @ fh) (password_params password) of
        Inl e \<Rightarrow> (Inl e, fs)
      | Inr r \<Rightarrow> (Inr output_path, fs(output_path \<mapsto> rs_content r)))"

definition sdk_status :: "http_get \<Rightarrow> sdk_client \<Rightarrow> json res" where
  "sdk_status H C = bindr (get_ok H 0 (sc_base_url C @ ''/status'') []) rs_json"

definition sdk_list_files :: "http_get \<Rightarrow> sdk_client \<Rightarrow> json res" where
  "sdk_list_files H C =
     bindr (bindr (get_ok H 0 (sc_base_url C @ ''/files'') []) rs_json) (json_get ''files'' (JList []))"

definition sdk_get_manifest :: "http_get \<Rightarrow> sdk_client \<Rightarrow> string \<Rightarrow> json res" where
  "sdk_get_manifest H C fh = bindr (get_ok H 0 (sc_base_url C @ ''/manifest/'' @ fh) []) rs_json"

definition sdk_get_chunk :: "http_get \<Rightarrow> sdk_client \<Rightarrow> string \<Rightarrow> bytes res" where
  "sdk_get_chunk H C ch = map_sum id rs_content (get_ok H 0 (sc_base_url C @ ''/chunk/'' @ ch) [])"

subsection \<open>Requests in parallel\<close>

definition urls_of :: "sdk_client \<Rightarrow> string list option \<Rightarrow> string list" where
  "urls_of C peer_urls = (case peer_urls of None \<Rightarrow> [sc_base_url C] | Some us \<Rightarrow> if us = [] then [sc_base_url C] else us)"

text \<open>
  \<^verbatim>\<open>asyncio.gather\<close>: the tasks finish in the given order, each acting on the variables the tasks
  share; the first exception ends the call.
\<close>

fun gather :: "(nat \<Rightarrow> 's \<Rightarrow> 's res) \<Rightarrow> nat list \<Rightarrow> 's \<Rightarrow> 's res" where
  "gather finish [] s = Inr s"
| "gather finish (i # order) s = bindr (finish i s) (gather finish order)"

definition peer_chunk_url :: "string list \<Rightarrow> int \<Rightarrow> string \<Rightarrow> string" where
  "peer_chunk_url urls idx ch = urls ! nat (idx mod int (length urls)) @ ''/chunk/'' @ ch"

definition fetch_result ::
    "http_get \<Rightarrow> string list \<Rightarrow> string list \<Rightarrow> nat \<Rightarrow> bytes option list \<Rightarrow> bytes option list res" where
  "fetch_result H urls hashes idx results =
     bindr (get_ok H idx (peer_chunk_url urls (int idx) (hashes ! idx)) []) (\<lambda>r.
     Inr (results[idx := Some (rs_content r)]))"

definition download_chunks_parallel ::
    "http_get \<Rightarrow> sdk_client \<Rightarrow> nat list \<Rightarrow> string list \<Rightarrow> string list option \<Rightarrow> bytes option list res" where
  "download_chunks_parallel H C order chunk_hashes peer_urls =
     gather (fetch_result H (urls_of C peer_urls) chunk_hashes) order (replicate (length chunk_hashes) None)"

text \<open>\<^verbatim>\<open>xs[i] = x\<close>, where a negative index counts from the end.\<close>

definition list_assign :: "int \<Rightarrow> 'a \<Rightarrow> 'a list \<Rightarrow> 'a list res" where
  "list_assign i x xs =
     (let k = (if i < 0 then i + int (length xs) else i)
      in if 0 \<le> k \<and> k < int (length xs) then Inr (xs[nat k := x]) else Inl IndexError)"

definition json_item :: "string \<Rightarrow> json \<Rightarrow> json res" where
  "json_item k v =
     (case v of JObj kvs \<Rightarrow> (case dict_get kvs k of None \<Rightarrow> Inl (KeyError k) | Some x \<Rightarrow> Inr x) | _ \<Rightarrow> Inl TypeError)"

text \<open>The elements a Python loop takes from a parsed value; those of a string or an object are strings.\<close>

fun json_elements :: "json \<Rightarrow> json list res" where
  "json_elements (JList xs) = Inr xs"
| "json_elements (JStr s) = Inr (map (\<lambda>c. JStr [c]) s)"
| "json_elements (JObj kvs) = Inr (map (JStr \<circ> fst) kvs)"
| "json_elements _ = Inl TypeError"

record swarm_vars =
  sv_chunk_data :: "bytes option list"
  sv_downloaded :: nat
  sv_total_bytes :: nat

definition chunk_task :: "json \<Rightarrow> (int \<times> string) res" where
  "chunk_task info =
     bindr (bindr (json_item ''index'' info) json_int) (\<lambda>idx.
     bindr (bindr (json_item ''chunk_hash'' info) json_str) (\<lambda>ch. Inr (idx, ch)))"

definition fetch_chunk ::
    "http_get \<Rightarrow> string list \<Rightarrow> (int \<times> string) list \<Rightarrow> nat \<Rightarrow> swarm_vars \<Rightarrow> swarm_vars res" where
  "fetch_chunk H urls tasks n v =
     (let (idx, ch) = tasks ! n
      in bindr (get_ok H (Suc n) (peer_chunk_url urls idx ch) []) (\<lambda>r.
         bindr (list_assign idx (Some (rs_content r)) (sv_chunk_data v)) (\<lambda>cs.
         Inr \<lparr>sv_chunk_data = cs, sv_downloaded = Suc (sv_downloaded v),
              sv_total_bytes = sv_total_bytes v + length (rs_content r)\<rparr>)))"

record swarm_stats =
  sm_file_hash :: string
  sm_output_path :: string
  sm_total_chunks :: nat
  sm_total_bytes :: nat
  sm_elapsed :: real
  sm_speed :: real
  sm_peers_used :: nat
  sm_concurrency :: nat

text \<open>
  What a swarmed download gets from the peers: the number of chunks, the shared variables after
  the tasks, and the last answer.
\<close>

definition swarm_fetch ::
    "http_get \<Rightarrow> string list \<Rightarrow> nat list \<Rightarrow> string \<Rightarrow> string \<Rightarrow> (nat \<times> swarm_vars \<times> response) res" where
  "swarm_fetch H urls order fh password =
     bindr (bindr (get_ok H 0 (hd urls @ ''/manifest/'' @ fh) []) rs_json) (\<lambda>manifest.
     bindr (bindr (json_get ''chunks'' (JList []) manifest) json_elements) (\<lambda>chunks_info.
     bindr (mapr chunk_task chunks_info) (\<lambda>tasks.
     bindr (gather (fetch_chunk H urls tasks) order
              \<lparr>sv_chunk_data = replicate (length chunks_info) None, sv_downloaded = 0, sv_total_bytes = 0\<rparr>) (\<lambda>v.
     bindr (get_ok H (Suc (length tasks)) (hd urls @ ''/download/'' @ fh) (password_params password)) (\<lambda>r.
     Inr (length chunks_info, v, r))))))"

text \<open>\<open>elapsed\<close> is the time the clock shows for the chunks; \<open>rnd d x\<close> is \<^verbatim>\<open>round(x, d)\<close>.\<close>

definition download_swarmed ::
    "(nat \<Rightarrow> real \<Rightarrow> real) \<Rightarrow> http_get \<Rightarrow> sdk_client \<Rightarrow> nat list \<Rightarrow> real \<Rightarrow> string \<Rightarrow> string \<Rightarrow> string \<Rightarrow>
     string list option \<Rightarrow> filesystem \<Rightarrow> swarm_stats res \<times> filesystem" where
  "download_swarmed rnd H C order elapsed fh output_path password peer_urls fs =
     (let urls = urls_of C peer_urls
      in case swarm_fetch H urls order fh password of
           Inl e \<Rightarrow> (Inl e, fs)
         | Inr (total_chunks, v, r) \<Rightarrow>
             let speed = (if elapsed > 0 then real (sv_total_bytes v) / (1024 * 1024) / elapsed else 0)
             in (Inr \<lparr>sm_file_hash = fh, sm_output_path = output_path, sm_total_chunks = total_chunks,
                     sm_total_bytes = sv_total_bytes v, sm_elapsed = rnd 3 elapsed, sm_speed = rnd 2 speed,
                     sm_peers_used = length urls, sm_concurrency = sc_concurrency C\<rparr>,
                 fs(output_path \<mapsto> rs_content r)))"

subsection \<open>The order of completion\<close>

definition answer :: "http_get \<Rightarrow> sdk_client \<Rightarrow> string list option \<Rightarrow> string list \<Rightarrow> nat \<Rightarrow> response res" where
  "answer H C peer_urls hashes i =
     get_ok H i (peer_chunk_url (urls_of C peer_urls) (int i) (hashes ! i)) []"

lemma fetch_result_answer:
  "fetch_result H (urls_of C us) hashes i results =
     bindr (answer H C us hashes i) (\<lambda>r. Inr (results[i := Some (rs_content r)]))"
  by (simp add: fetch_result_def answer_def)

lemma gather_results:
  assumes "\<forall>i \<in> set order. \<exists>r. answer H C us hashes i = Inr r" and "set order \<subseteq> {..<length results}"
  shows "\<exists>rs'. gather (fetch_result H (urls_of C us) hashes) order results = Inr rs' \<and> length rs' = length results \<and>
     (\<forall>i < length results. rs' ! i =
        (if i \<in> set order then Some (rs_content (projr (answer H C us hashes i))) else results ! i))"
  using assms
proof (induction order arbitrary: results)
  case (Cons i order)
  obtain r where r: "answer H C us hashes i = Inr r" using Cons.prems(1) by auto
  have "set order \<subseteq> {..<length (results[i := Some (rs_content r)])}" using Cons.prems(2) by simp
  from Cons.IH [OF _ this] Cons.prems(1) obtain rs' where
    "gather (fetch_result H (urls_of C us) hashes) order (results[i := Some (rs_content r)]) = Inr rs'"
    "length rs' = length results"
    "\<forall>j < length results. rs' ! j = (if j \<in> set order then Some (rs_content (projr (answer H C us hashes j)))
        else results[i := Some (rs_content r)] ! j)" by auto
  then have "gather (fetch_result H (urls_of C us) hashes) (i # order) results = Inr rs'"
    "\<forall>j < length results. rs' ! j = (if j \<in> set (i # order) then Some (rs_content (projr (answer H C us hashes j)))
        else results ! j)"
    using r Cons.prems(2) by (auto simp: fetch_result_answer nth_list_update)
  then show ?case using \<open>length rs' = length results\<close> by blast
qed simp

lemma gather_fails:
  assumes "gather (fetch_result H (urls_of C us) hashes) order results = Inl e"
  shows "\<exists>i \<in> set order. answer H C us hashes i = Inl e"
  using assms
  by (induction order arbitrary: results) (auto simp: fetch_result_answer bindr_eq_Inl)

text \<open>
  Chunks fetched in parallel come back in the order they were asked for, whatever the order in which the
  requests finish; when some request fails, the call fails with the exception of one that did.
\<close>

theorem parallel_chunks_in_order:
  assumes "mset order = mset [0..<length hashes]"
  shows "if \<forall>i < length hashes. \<exists>r. answer H C us hashes i = Inr r
     then download_chunks_parallel H C order hashes us =
       Inr (map (\<lambda>i. Some (rs_content (projr (answer H C us hashes i)))) [0..<length hashes])
     else \<exists>i < length hashes. \<exists>e. answer H C us hashes i = Inl e \<and> download_chunks_parallel H C order hashes us = Inl e"
proof -
  have set: "set order = {..<length hashes}"
    using assms mset_eq_setD by fastforce
  show ?thesis
  proof (cases "\<forall>i < length hashes. \<exists>r. answer H C us hashes i = Inr r")
    case True
    then obtain rs' where rs': "download_chunks_parallel H C order hashes us = Inr rs'" "length rs' = length hashes"
      "\<forall>i < length hashes. rs' ! i = Some (rs_content (projr (answer H C us hashes i)))"
      using gather_results [of order H C us hashes "replicate (length hashes) None"]
      by (auto simp: set download_chunks_parallel_def)
    then have "rs' = map (\<lambda>i. Some (rs_content (projr (answer H C us hashes i)))) [0..<length hashes]"
      by (intro nth_equalityI) simp_all
    then show ?thesis using True rs'(1) by simp
  next
    case False
    then obtain i e where i: "i < length hashes" "answer H C us hashes i = Inl e"
      by (metis obj_sumE)
    have "\<exists>e. download_chunks_parallel H C order hashes us = Inl e"
    proof (rule ccontr)
      assume "\<not> (\<exists>e. download_chunks_parallel H C order hashes us = Inl e)"
      then obtain rs' where "gather (fetch_result H (urls_of C us) hashes) order (replicate (length hashes) None) = Inr rs'"
        by (metis download_chunks_parallel_def obj_sumE)
      moreover have "i \<in> set order" using i set by simp
      moreover have "\<exists>r. answer H C us hashes j = Inr r"
        if "gather (fetch_result H (urls_of C us) hashes) os results = Inr out" "j \<in> set os" for os results out j
        using that by (induction os arbitrary: results) (auto simp: fetch_result_answer bindr_eq_Inr)
      ultimately show False using i by force
    qed
    then obtain e' where e': "download_chunks_parallel H C order hashes us = Inl e'" by blast
    then have "\<exists>j \<in> set order. answer H C us hashes j = Inl e'"
      using gather_fails unfolding download_chunks_parallel_def by blast
    then show ?thesis using False e' set by auto
  qed
qed

definition echo_server :: http_get where
  "echo_server n url params = Inr \<lparr>rs_error = None, rs_content = encode url, rs_json = Inr (JObj [])\<rparr>"

theorem parallel_chunks_in_order_witness:
  "download_chunks_parallel echo_server (new_sdk_client ''h/'' 5) [1, 0] [''a'', ''b''] None =
     Inr [Some (encode ''h/chunk/a''), Some (encode ''h/chunk/b'')]"
proof -
  have "mset [1, 0] = mset [0..<length [''a'', ''b'']]" by (simp add: numeral_2_eq_2 add_mset_commute)
  from parallel_chunks_in_order [OF this, of echo_server "new_sdk_client ''h/'' 5" None]
  show ?thesis
    by (simp add: answer_def echo_server_def get_ok_def peer_chunk_url_def urls_of_def new_sdk_client_def rstrip_slash_def
        numeral_2_eq_2)
qed

subsection \<open>What a swarmed download delivers\<close>

text \<open>
  A swarmed download writes the body of the first peer's \<^verbatim>\<open>/download\<close> answer. The chunks it
  fetched from the peers enter the statistics and nothing else: on a server that answers by the address alone,
  a download from the first peer without swarming writes the same file, and the two files agree even when the
  chunks are wrong.
\<close>

theorem swarmed_download_discards_chunks:
  assumes "download_swarmed rnd H C order elapsed fh out password us fs = (Inr stats, fs')"
    and "\<forall>n m. H n (hd (urls_of C us) @ ''/download/'' @ fh) (password_params password) =
           H m (hd (urls_of C us) @ ''/download/'' @ fh) (password_params password)"
  shows "sdk_download H (C\<lparr>sc_base_url := hd (urls_of C us)\<rparr>) fh out password fs = (Inr out, fs') \<and>
     (\<exists>r. get_ok H 0 (hd (urls_of C us) @ ''/download/'' @ fh) (password_params password) = Inr r \<and>
        fs' = fs(out \<mapsto> rs_content r))"
proof -
  let ?url = "hd (urls_of C us) @ ''/download/'' @ fh"
  obtain t v r where f: "swarm_fetch H (urls_of C us) order fh password = Inr (t, v, r)" "fs' = fs(out \<mapsto> rs_content r)"
    using assms(1) by (cases "swarm_fetch H (urls_of C us) order fh password") (auto simp: download_swarmed_def)
  have "\<exists>n. get_ok H n ?url (password_params password) = Inr r"
    using f(1) unfolding swarm_fetch_def bindr_eq_Inr by (elim exE conjE) (auto simp only: sum.inject prod.inject)
  then obtain n where r: "get_ok H n ?url (password_params password) = Inr r" ..
  have "H 0 ?url (password_params password) = H n ?url (password_params password)" using assms(2) by (elim allE)
  then have "get_ok H 0 ?url (password_params password) = get_ok H n ?url (password_params password)"
    unfolding get_ok_def by (rule arg_cong)
  then show ?thesis using r f(2) by (simp add: sdk_download_def)
qed

definition one_chunk_server :: http_get where
  "one_chunk_server n url params =
     Inr \<lparr>rs_error = None, rs_content = (if url = ''h/chunk/c'' then [6, 6] else [1, 2, 3]),
          rs_json = Inr (JObj [(''chunks'', JList [JObj [(''index'', JInt 0), (''chunk_hash'', JStr ''c'')]])])\<rparr>"

theorem swarmed_download_discards_chunks_witness:
  "snd (download_swarmed (\<lambda>d x. x) one_chunk_server (new_sdk_client ''h'' 5) [0] 2 ''ab'' ''out'' [] None Map.empty) =
     Map.empty(''out'' \<mapsto> [1, 2, 3])"
proof -
  let ?C = "new_sdk_client ''h'' 5"
  have C: "urls_of ?C None = [''h'']" by (simp add: urls_of_def new_sdk_client_def rstrip_slash_def)
  have srv: "get_ok one_chunk_server n url ps = Inr \<lparr>rs_error = None,
      rs_content = (if url = ''h/chunk/c'' then [6, 6] else [1, 2, 3]),
      rs_json = Inr (JObj [(''chunks'', JList [JObj [(''index'', JInt 0), (''chunk_hash'', JStr ''c'')]])])\<rparr>" for n url ps
    by (simp add: get_ok_def one_chunk_server_def)
  have task: "chunk_task (JObj [(''index'', JInt 0), (''chunk_hash'', JStr ''c'')]) = Inr (0, ''c'')"
    by (simp add: chunk_task_def json_item_def)
  have fetched: "fetch_chunk one_chunk_server [''h''] [(0, ''c'')] 0 v =
      Inr \<lparr>sv_chunk_data = [Some [6, 6]], sv_downloaded = Suc (sv_downloaded v), sv_total_bytes = sv_total_bytes v + 2\<rparr>"
    if "length (sv_chunk_data v) = 1" for v
    using that by (cases "sv_chunk_data v") (simp_all add: fetch_chunk_def srv peer_chunk_url_def list_assign_def)
  have "\<exists>stats fs'. download_swarmed (\<lambda>d x. x) one_chunk_server ?C [0] 2 ''ab'' ''out'' [] None Map.empty = (Inr stats, fs')"
    by (simp add: download_swarmed_def swarm_fetch_def C srv task fetched)
  then obtain stats fs' where
    d: "download_swarmed (\<lambda>d x. x) one_chunk_server ?C [0] 2 ''ab'' ''out'' [] None Map.empty = (Inr stats, fs')"
    by (elim exE)
  have "\<forall>n m. one_chunk_server n url ps = one_chunk_server m url ps" for url ps by (simp add: one_chunk_server_def)
  from swarmed_download_discards_chunks [OF d this] show ?thesis by (auto simp: d C srv)
qed

end
