(* ===== verification/Mesh.thy ===== *)
theory Mesh
  imports Chat Discovery "HOL-Library.Multiset"
begin

section \<open>A swarm of nodes: discovery, links and gossip\<close>

text \<open>
  The nodes of a swarm, each with the state of \<open>node_net\<close>, and the messages on their way. Node \<open>i\<close>'s
  connection \<open>h\<close> ends in connection \<open>g\<close> of node \<open>j\<close> when \<open>wire i h = Some (j, g)\<close>. What a node writes
  is decoded from the bytes that were added to the connection; a message is read by a handler that is
  in its message loop on the other end, or by the listener of a windowed sender. Messages may overtake each other, so that what is
  shown here holds for the order of TCP in particular.
\<close>

type_synonym wiring = "nat \<Rightarrow> nat \<Rightarrow> (nat \<times> nat) option"
type_synonym flight = "(nat \<times> nat \<times> message) multiset"

record mesh =
  ms_nodes :: "nat \<Rightarrow> node_net"
  ms_flight :: flight
  ms_ackers :: "(nat \<times> nat) set"
  ms_acks :: "(nat \<times> nat \<times> int res) list"

definition new_messages :: "codec \<Rightarrow> node_net \<Rightarrow> node_net \<Rightarrow> nat \<Rightarrow> message list" where
  "new_messages C S S' h = message_loop C (drop (length (nt_written S h)) (nt_written S' h))"

definition posted_on :: "codec \<Rightarrow> wiring \<Rightarrow> nat \<Rightarrow> node_net \<Rightarrow> node_net \<Rightarrow> nat \<Rightarrow> (nat \<times> nat \<times> message) list" where
  "posted_on C wire i S S' h =
     (case wire i h of None \<Rightarrow> [] | Some (j, g) \<Rightarrow> map (\<lambda>m. (j, g, m)) (new_messages C S S' h))"

definition posted :: "codec \<Rightarrow> wiring \<Rightarrow> nat \<Rightarrow> node_net \<Rightarrow> node_net \<Rightarrow> flight" where
  "posted C wire i S S' = mset (concat (map (posted_on C wire i S S') [0..<nn_next S']))"

text \<open>A user of node \<open>i\<close> sends a message; a handler takes a message in.\<close>

definition mesh_say ::
    "net_env \<Rightarrow> (string list \<Rightarrow> string) \<Rightarrow> wiring \<Rightarrow> nat \<Rightarrow> real \<Rightarrow> string \<Rightarrow> string option \<Rightarrow> mesh \<Rightarrow> mesh" where
  "mesh_say E pick wire i now msg_id data M =
     (let S = ms_nodes M i; S' = websocket_message (ne_codec E) pick now msg_id data S
      in M\<lparr>ms_nodes := (ms_nodes M)(i := S'), ms_flight := ms_flight M + posted (ne_codec E) wire i S S'\<rparr>)"

text \<open>
  The one other reader of a connection: while a windowed sender runs on it (\<open>ms_ackers\<close>), its listener
  (\<^verbatim>\<open>_ack_listener\<close>) receives from it as well. It hands on the index of a CHUNK_ACK and drops everything else. It is
  modelled where there is no handler, on the connections the node has dialled; where a handler reads as well, asyncio
  refuses whichever of the two reads comes second, and that clash is left out.
\<close>

definition ack_listener :: "message \<Rightarrow> int res option" where
  "ack_listener m = (if has_type MSG_CHUNK_ACK m then Some (int_field ''index'' (- 1) m) else None)"

inductive mesh_step :: "net_env \<Rightarrow> (string list \<Rightarrow> string) \<Rightarrow> wiring \<Rightarrow> mesh \<Rightarrow> mesh \<Rightarrow> bool"
  for E :: net_env and pick :: "string list \<Rightarrow> string" and wire :: wiring where
  delivers: "ms_flight M = add_mset (j, g, m) F \<Longrightarrow> nn_clients (ms_nodes M j) g = Some cl \<Longrightarrow> cl_phase cl = InLoop \<Longrightarrow>
     client_step E (node_handler (ne_codec E) pick now) now (Some m) cl (ms_nodes M j) = (cl', S') \<Longrightarrow>
     mesh_step E pick wire M
       (M\<lparr>ms_nodes := (ms_nodes M)(j := S'\<lparr>nn_clients := (nn_clients S')(g \<mapsto> cl')\<rparr>),
          ms_flight := F + posted (ne_codec E) wire j (ms_nodes M j) S'\<rparr>)"
| listens: "ms_flight M = add_mset (j, g, m) F \<Longrightarrow> (j, g) \<in> ms_ackers M \<Longrightarrow> nn_clients (ms_nodes M j) g = None \<Longrightarrow>
     mesh_step E pick wire M
       (M\<lparr>ms_flight := F, ms_acks := (case ack_listener m of None \<Rightarrow> ms_acks M | Some i \<Rightarrow> ms_acks M @ [(j, g, i)])\<rparr>)"

inductive_cases mesh_stepE: "mesh_step E pick wire M M'"

subsection \<open>What a broadcast writes\<close>

text \<open>The bytes of a broadcast, connection by connection.\<close>

lemma send_to_peer_bytes:
  assumes "send_frame C m = Inr f"
  shows "nt_written (snd (send_to_peer C nid m S)) h =
     (if dict_get (nt_connections S) nid = Some h \<and> nt_open S h then nt_written S h @ f else nt_written S h)"
  using assms by (auto simp: send_to_peer_def conn_send_def split: option.split)

lemma send_to_peer_frame:
  "nt_connections (snd (send_to_peer C nid m S)) = nt_connections S" "nt_open (snd (send_to_peer C nid m S)) = nt_open S"
  using send_to_peer_written [of C nid m S] by auto

definition copies :: "node_net \<Rightarrow> nat \<Rightarrow> string list \<Rightarrow> nat" where
  "copies S h nids = (if nt_open S h then length (filter (\<lambda>nid. dict_get (nt_connections S) nid = Some h) nids) else 0)"

lemma broadcast_loop_bytes:
  assumes "send_frame C m = Inr f"
  shows "nt_written (snd (broadcast_loop C m nids n S)) h = nt_written S h @ concat (replicate (copies S h nids) f)"
proof (induction nids arbitrary: n S)
  case (Cons nid nids)
  obtain ok S1 where s: "send_to_peer C nid m S = (ok, S1)" by fastforce
  have S1: "nt_connections S1 = nt_connections S" "nt_open S1 = nt_open S"
    "nt_written S1 h = (if dict_get (nt_connections S) nid = Some h \<and> nt_open S h then nt_written S h @ f else nt_written S h)"
    using send_to_peer_frame [of C nid m S] send_to_peer_bytes [OF assms, of nid S h] s by simp_all
  then have "copies S1 h nids = copies S h nids" by (simp add: copies_def)
  then show ?case using Cons.IH [of "if ok then Suc n else n" S1] s S1(3) by (auto simp: copies_def)
qed (simp add: copies_def)

lemma broadcast_bytes:
  "send_frame C m = Inr f \<Longrightarrow>
   nt_written (snd (broadcast_to_peers C m S)) h = nt_written S h @ concat (replicate (copies S h (dict_keys (nt_connections S))) f)"
  by (simp add: broadcast_to_peers_def broadcast_loop_bytes)

lemma message_loop_copies:
  "codec_ok C \<Longrightarrow> fits C m \<Longrightarrow> send_frame C m = Inr f \<Longrightarrow> message_loop C (concat (replicate k f)) = replicate k m"
  by (induction k) (simp_all add: message_loop_sent)

subsection \<open>What a delivery does\<close>

lemma posted_mem:
  "x \<in># posted C wire i S S' \<Longrightarrow> \<exists>h j g m. x = (j, g, m) \<and> wire i h = Some (j, g) \<and> m \<in> set (new_messages C S S' h)"
  by (auto simp: posted_def posted_on_def split: option.splits)

lemma posted_quiet: "nt_written S' = nt_written S \<Longrightarrow> posted C wire i S S' = {#}"
proof -
  assume "nt_written S' = nt_written S"
  then have "posted_on C wire i S S' h = []" for h by (auto simp: posted_on_def new_messages_def split: option.split)
  then show ?thesis by (simp add: posted_def)
qed

lemma broadcast_new:
  assumes "codec_ok C" and "fits C m" and "nt_written T = nt_written S"
    and "nt_written S' = nt_written (snd (broadcast_to_peers C m T))"
  shows "new_messages C S S' h = replicate (copies T h (dict_keys (nt_connections T))) m"
proof -
  obtain f where f: "send_frame C m = Inr f" using fits_frame [OF assms(2)] by (elim exE)
  show ?thesis
    by (simp add: new_messages_def assms(3,4) broadcast_bytes [OF f] message_loop_copies [OF assms(1,2) f])
qed

lemma chat_broadcast_frame:
  "nt_written (chat_broadcast p S) = nt_written S" "nt_connections (chat_broadcast p S) = nt_connections S"
  "nt_open (chat_broadcast p S) = nt_open S"
  using chat_broadcast_shown [of p S] by auto

text \<open>A handler either writes nothing and forgets nothing, or takes in an unseen message and passes on copies of it.\<close>

lemma node_handler_news:
  assumes "codec_ok C" and "fits C m" and "node_handler C pick now h m S = (r, S')"
  shows "(nt_written S' = nt_written S \<and> ch_seen S' = ch_seen S) \<or>
     (\<exists>i. str_field ''msg_id'' [] m = Inr i \<and> i \<notin> set (ch_seen S) \<and> ch_seen S' = remember pick i (ch_seen S) \<and>
        (\<forall>k. set (new_messages C S S' k) \<subseteq> {m}))"
proof (cases "has_type MSG_CHAT m")
  case False
  then show ?thesis using assms(3) by (simp add: node_handler_def)
next
  case True
  then have run: "handle_tcp_chat C pick now m S = (r, S')" using assms(3) by (simp add: node_handler_def)
  show ?thesis
  proof (cases "str_field ''msg_id'' [] m")
    case (Inl e)
    then show ?thesis using run by (simp add: handle_tcp_chat_def)
  next
    case (Inr i)
    show ?thesis
    proof (cases "i \<in> set (ch_seen S)")
      case True
      then show ?thesis using run Inr by (simp add: handle_tcp_chat_def)
    next
      case False
      let ?S1 = "S\<lparr>ch_seen := remember pick i (ch_seen S)\<rparr>"
      have "S' = ?S1 \<or> (\<exists>p. S' = snd (broadcast_to_peers C m (chat_broadcast p ?S1)))"
        using run Inr False by (auto simp: handle_tcp_chat_def Let_def split: sum.splits)
      moreover have "set (new_messages C S ?S1 k) \<subseteq> {m}" for k by (simp add: new_messages_def)
      moreover have "set (new_messages C S (snd (broadcast_to_peers C m (chat_broadcast p ?S1))) k) \<subseteq> {m}" for p k
        using broadcast_new [OF assms(1,2) _ refl, of "chat_broadcast p ?S1" S k] by (auto simp: chat_broadcast_frame)
      moreover have "ch_seen (snd (broadcast_to_peers C m (chat_broadcast p ?S1))) = remember pick i (ch_seen S)" for p
        using chat_effect_send [of "remember pick i (ch_seen S)" S C m p] by (auto simp: chat_effect_def)
      ultimately show ?thesis using Inr False by fastforce
    qed
  qed
qed

lemma delivery_news:
  assumes "codec_ok (ne_codec E)" and "fits (ne_codec E) m" and "cl_phase cl = InLoop"
    and "client_step E (node_handler (ne_codec E) pick now) now (Some m) cl S = (cl', S')"
  shows "(posted (ne_codec E) wire j S S' = {#} \<and> ch_seen S' = ch_seen S) \<or>
     (\<exists>i. str_field ''msg_id'' [] m = Inr i \<and> i \<notin> set (ch_seen S) \<and> ch_seen S' = remember pick i (ch_seen S) \<and>
        (\<forall>x \<in># posted (ne_codec E) wire j S S'. snd (snd x) = m \<and> (\<exists>h. wire j h = Some (fst x, fst (snd x)))))"
proof -
  obtain r S1 where s: "node_handler (ne_codec E) pick now (cl_conn cl) m S = (r, S1)" by fastforce
  have "S' = S1 \<or> S' = snd (client_finish cl S1)"
    using assms(3,4) s by (auto simp: client_step_def split: sum.splits)
  then have S': "nt_written S' = nt_written S1" "ch_seen S' = ch_seen S1"
    by (auto simp: client_finish_def conn_close_def)
  then have new: "new_messages (ne_codec E) S S' k = new_messages (ne_codec E) S S1 k" for k
    by (simp add: new_messages_def)
  from node_handler_news [OF assms(1,2) s] show ?thesis
  proof (elim disjE exE conjE)
    assume "nt_written S1 = nt_written S" "ch_seen S1 = ch_seen S"
    then show ?thesis using S' posted_quiet [of S' S] by simp
  next
    fix i assume i: "str_field ''msg_id'' [] m = Inr i" "i \<notin> set (ch_seen S)" "ch_seen S1 = remember pick i (ch_seen S)"
      and "\<forall>k. set (new_messages (ne_codec E) S S1 k) \<subseteq> {m}"
    then have "\<forall>x \<in># posted (ne_codec E) wire j S S'. snd (snd x) = m \<and> (\<exists>h. wire j h = Some (fst x, fst (snd x)))"
      using new by (fastforce dest!: posted_mem)
    then show ?thesis using i S' by auto
  qed
qed

subsection \<open>Gossip ends\<close>

text \<open>
  The nodes \<open>N\<close> that the wires lead to, the identifiers \<open>I\<close> on their way, and room for all of them in
  each node's memory of identifiers.
\<close>

definition gossip_room :: "codec \<Rightarrow> wiring \<Rightarrow> nat set \<Rightarrow> string set \<Rightarrow> mesh \<Rightarrow> bool" where
  "gossip_room C wire N I M \<longleftrightarrow> finite N \<and> finite I \<and> (\<forall>i h j g. wire i h = Some (j, g) \<longrightarrow> j \<in> N) \<and>
     (\<forall>(j, g, m) \<in># ms_flight M. j \<in> N \<and> fits C m \<and> (\<forall>i. str_field ''msg_id'' [] m = Inr i \<longrightarrow> i \<in> I)) \<and>
     (\<forall>j \<in> N. length (ch_seen (ms_nodes M j)) + card (I - set (ch_seen (ms_nodes M j))) \<le> MAX_SEEN)"

definition unseen :: "nat set \<Rightarrow> string set \<Rightarrow> mesh \<Rightarrow> (nat \<times> string) set" where
  "unseen N I M = {(j, i). j \<in> N \<and> i \<in> I \<and> i \<notin> set (ch_seen (ms_nodes M j))}"

definition gossip_order :: "nat set \<Rightarrow> string set \<Rightarrow> (mesh \<times> mesh) set" where
  "gossip_order N I = inv_image (less_than <*lex*> less_than) (\<lambda>M. (card (unseen N I M), size (ms_flight M)))"

lemma wf_gossip_order: "wf (gossip_order N I)"
  by (auto simp: gossip_order_def)

lemma finite_unseen: "finite N \<Longrightarrow> finite I \<Longrightarrow> finite (unseen N I M)"
  by (rule finite_subset [of _ "N \<times> I"]) (auto simp: unseen_def)

lemma remember_room: "i \<notin> set seen \<Longrightarrow> length seen < MAX_SEEN \<Longrightarrow> remember pick i seen = i # seen"
  by (simp add: remember_def)

lemma gossip_progress:
  assumes "codec_ok (ne_codec E)" and "gossip_room (ne_codec E) wire N I M" and "mesh_step E pick wire M M'"
  shows "gossip_room (ne_codec E) wire N I M' \<and> (M', M) \<in> gossip_order N I"
  using assms(3)
proof cases
  case (delivers j g m F cl now cl' S')
  let ?S = "ms_nodes M j" and ?P = "posted (ne_codec E) wire j (ms_nodes M j) S'"
  have room: "j \<in> N" "fits (ne_codec E) m" "\<And>i. str_field ''msg_id'' [] m = Inr i \<Longrightarrow> i \<in> I" "finite N" "finite I"
    using assms(2) delivers(2) by (auto simp: gossip_room_def)
  have seen: "ch_seen (ms_nodes M' k) = (if k = j then ch_seen S' else ch_seen (ms_nodes M k))" for k
    using delivers(1) by simp
  from delivery_news [OF assms(1) room(2) delivers(4,5), of wire j] show ?thesis
  proof (elim disjE exE conjE)
    assume q: "?P = {#}" "ch_seen S' = ch_seen ?S"
    then have "unseen N I M' = unseen N I M" by (auto simp: unseen_def seen split: if_splits)
    moreover have "gossip_room (ne_codec E) wire N I M'"
      using assms(2) delivers(1,2) q by (auto simp: gossip_room_def)
    ultimately show ?thesis using delivers(1,2) q by (simp add: gossip_order_def)
  next
    fix i assume i: "str_field ''msg_id'' [] m = Inr i" "i \<notin> set (ch_seen ?S)" "ch_seen S' = remember pick i (ch_seen ?S)"
      and new: "\<forall>x \<in># ?P. snd (snd x) = m \<and> (\<exists>h. wire j h = Some (fst x, fst (snd x)))"
    have I: "i \<in> I" using room(3) i(1) by blast
    have drop: "I - set (i # ch_seen ?S) = (I - set (ch_seen ?S)) - {i}" "i \<in> I - set (ch_seen ?S)"
      using I i(2) by auto
    then have card: "card (I - set (ch_seen ?S)) = Suc (card (I - set (i # ch_seen ?S)))"
      using room(5) card_Suc_Diff1 [of "I - set (ch_seen ?S)" i] by (simp only: finite_Diff simp_thms)
    have cap: "length (ch_seen ?S) + card (I - set (ch_seen ?S)) \<le> MAX_SEEN"
      using assms(2) room(1) by (auto simp: gossip_room_def)
    then have S': "ch_seen S' = i # ch_seen ?S" using card i(2,3) by (simp add: remember_room)
    have "unseen N I M' = unseen N I M - {(j, i)}" "(j, i) \<in> unseen N I M"
      using room(1) I i(2) by (auto simp: unseen_def seen S' split: if_splits)
    then have "card (unseen N I M') < card (unseen N I M)"
      using card_Diff1_less [OF finite_unseen [OF room(4,5)]] by simp
    moreover have "gossip_room (ne_codec E) wire N I M'"
    proof -
      have "\<forall>(k, g, m') \<in># F + ?P. k \<in> N \<and> fits (ne_codec E) m' \<and> (\<forall>i. str_field ''msg_id'' [] m' = Inr i \<longrightarrow> i \<in> I)"
        using assms(2) new delivers(2) room(2,3) unfolding gossip_room_def by fastforce
      moreover have "length (ch_seen (ms_nodes M' k)) + card (I - set (ch_seen (ms_nodes M' k))) \<le> MAX_SEEN" if "k \<in> N" for k
        using assms(2) that cap card by (auto simp: seen S' gossip_room_def)
      ultimately show ?thesis using assms(2) delivers(1) unfolding gossip_room_def by simp
    qed
    ultimately show ?thesis by (simp add: gossip_order_def)
  qed
next
  case (listens j g m F)
  then have "ch_seen (ms_nodes M' k) = ch_seen (ms_nodes M k)" for k by simp
  then have "unseen N I M' = unseen N I M" by (simp add: unseen_def)
  moreover have "gossip_room (ne_codec E) wire N I M'" using assms(2) listens(1,2) by (simp add: gossip_room_def)
  ultimately show ?thesis using listens(1,2) by (simp add: gossip_order_def)
qed

interpretation gossip: terminating_system "mesh_step E pick wire"
    "\<lambda>M. codec_ok (ne_codec E) \<and> gossip_room (ne_codec E) wire N I M" "gossip_order N I" for E pick wire N I
  by unfold_locales (use gossip_progress wf_gossip_order in blast)+

text \<open>
  C25. Gossip ends. However messages are delivered, in whatever order and to whatever handlers, a
  swarm of finitely many nodes passes the messages on only finitely often, as long as each node's memory of 500
  identifiers has room for those on their way: a node passes on a message once, and each delivery
  of a known one removes it.
\<close>

theorem gossip_terminates:
  assumes "codec_ok (ne_codec E)" and "gossip_room (ne_codec E) wire N I M"
  shows "\<not> (\<exists>Ms. Ms 0 = M \<and> (\<forall>n. mesh_step E pick wire (Ms n) (Ms (Suc n))))"
  by (rule gossip.no_infinite_run) (use assms in simp)

subsection \<open>Gossip arrives\<close>

text \<open>A link that carries messages: registered and open at one end, with a handler at the other.\<close>

definition link_at :: "wiring \<Rightarrow> mesh \<Rightarrow> nat \<Rightarrow> nat \<Rightarrow> nat \<Rightarrow> bool" where
  "link_at wire M a b g \<longleftrightarrow>
     (\<exists>nid h. dict_get (nt_connections (ms_nodes M a)) nid = Some h \<and> nt_open (ms_nodes M a) h \<and>
        h < nn_next (ms_nodes M a) \<and> wire a h = Some (b, g)) \<and>
     (\<exists>cl. nn_clients (ms_nodes M b) g = Some cl \<and> cl_phase cl = InLoop)"

definition reads_from :: "wiring \<Rightarrow> mesh \<Rightarrow> nat \<Rightarrow> nat \<Rightarrow> bool" where
  "reads_from wire M a b \<longleftrightarrow> (\<exists>g. link_at wire M a b g)"

lemma ws_send_loop_eq:
  "ws_send_loop p wss dead S =
     (dead @ filter (\<lambda>ws. \<not> ch_ws_ok S ws) wss,
      S\<lparr>ch_shown := (\<lambda>ws. ch_shown S ws @ replicate (count_list (filter (ch_ws_ok S) wss) ws) p)\<rparr>)"
proof (induction wss arbitrary: dead S)
  case (Cons ws wss)
  show ?case
    by (cases "ch_ws_ok S ws") (auto simp: Cons.IH fun_eq_iff intro!: arg_cong [where f = "\<lambda>s. S\<lparr>ch_shown := s\<rparr>"])
qed simp

lemma count_list_distinct: "distinct xs \<Longrightarrow> x \<in> set xs \<Longrightarrow> count_list xs x = 1"
  by (induction xs) auto

lemma fold_remove1:
  "distinct xs \<Longrightarrow> distinct (fold remove1 dead xs) \<and> set (fold remove1 dead xs) = set xs - set dead"
  by (induction dead arbitrary: xs) auto

text \<open>What a node does with a message it shows and passes on.\<close>

definition same_links :: "node_net \<Rightarrow> node_net \<Rightarrow> bool" where
  "same_links S S' \<longleftrightarrow> nt_connections S' = nt_connections S \<and> nt_open S' = nt_open S \<and>
     nn_clients S' = nn_clients S \<and> nn_next S' = nn_next S \<and> ch_ws_ok S' = ch_ws_ok S"

definition shows_once :: "chat_payload \<Rightarrow> node_net \<Rightarrow> node_net \<Rightarrow> bool" where
  "shows_once p S S' \<longleftrightarrow> distinct (ch_active S') \<and>
     (\<forall>ws \<in> set (ch_active S). ch_ws_ok S ws \<longrightarrow> ws \<in> set (ch_active S') \<and> ch_shown S' ws = ch_shown S ws @ [p])"

lemma passes_on:
  fixes S :: node_net
  assumes "S' = snd (broadcast_to_peers C m (chat_broadcast p (S\<lparr>ch_seen := seen\<rparr>)))" and "distinct (ch_active S)"
  shows "same_links S S' \<and> shows_once p S S' \<and> ch_seen S' = seen"
proof -
  let ?T = "chat_broadcast p (S\<lparr>ch_seen := seen\<rparr>)"
  obtain w where w: "S' = ?T\<lparr>nt_written := w\<rparr>" using broadcast_written [of C m ?T] assms(1) by auto
  let ?dead = "filter (\<lambda>ws. \<not> ch_ws_ok S ws) (ch_active S)"
  have T: "?T = S\<lparr>ch_seen := seen, ch_shown := (\<lambda>ws. ch_shown S ws @ replicate (count_list (filter (ch_ws_ok S) (ch_active S)) ws) p),
      ch_active := fold remove1 ?dead (ch_active S)\<rparr>"
    by (simp add: chat_broadcast_def ws_send_loop_eq)
  have "count_list (filter (ch_ws_ok S) (ch_active S)) ws = 1" if "ws \<in> set (ch_active S)" "ch_ws_ok S ws" for ws
    using count_list_distinct [of "filter (ch_ws_ok S) (ch_active S)" ws] assms(2) that by simp
  then show ?thesis
    using fold_remove1 [OF assms(2), of ?dead] by (simp add: w T same_links_def shows_once_def)
qed

lemma posts_on_links:
  assumes "codec_ok C" and "fits C m" and "S' = snd (broadcast_to_peers C m (chat_broadcast p (S\<lparr>ch_seen := seen\<rparr>)))"
    and "dict_get (nt_connections S) nid = Some h" and "nt_open S h" and "h < nn_next S" and "nn_next S' = nn_next S"
    and "wire j h = Some (k, g)"
  shows "(k, g, m) \<in># posted C wire j S S'"
proof -
  let ?T = "chat_broadcast p (S\<lparr>ch_seen := seen\<rparr>)"
  have new: "new_messages C S S' h = replicate (copies ?T h (dict_keys (nt_connections ?T))) m"
    by (rule broadcast_new [OF assms(1,2)]) (simp_all add: assms(3) chat_broadcast_frame)
  have "nid \<in> set (dict_keys (nt_connections S))" using assms(4) by (force dest: map_of_SomeD)
  then have "nid \<in> set (filter (\<lambda>nid. dict_get (nt_connections S) nid = Some h) (dict_keys (nt_connections S)))"
    using assms(4) by simp
  then have "filter (\<lambda>nid. dict_get (nt_connections S) nid = Some h) (dict_keys (nt_connections S)) \<noteq> []" by fastforce
  then have "copies ?T h (dict_keys (nt_connections ?T)) \<noteq> 0" using assms(5) by (simp add: copies_def chat_broadcast_frame del: length_filter_map)
  then have "m \<in> set (new_messages C S S' h)" by (simp add: new)
  then have "(k, g, m) \<in> set (posted_on C wire j S S' h)" by (simp add: posted_on_def assms(8))
  then show ?thesis using assms(6,7) by (auto simp: posted_def)
qed

text \<open>The message of a user, as it travels.\<close>

definition said_msg :: "real \<Rightarrow> string \<Rightarrow> string \<Rightarrow> node_net \<Rightarrow> message" where
  "said_msg now i txt S = dict_set ''msg_id'' (VStr i) (chat_msg now (ns_node_id (nt_node S)) (ns_name (nt_node S)) txt)"

definition said_payload :: "real \<Rightarrow> string \<Rightarrow> string \<Rightarrow> string \<Rightarrow> node_net \<Rightarrow> chat_payload" where
  "said_payload now i txt source S =
     \<lparr>cp_msg_id = i, cp_sender_id = ns_node_id (nt_node S), cp_sender_name = ns_name (nt_node S), cp_text = txt,
      cp_timestamp = now, cp_source = source\<rparr>"

lemma websocket_says:
  "strip (get_or [] data) \<noteq> [] \<Longrightarrow> websocket_message C pick now i data S =
     snd (broadcast_to_peers C (said_msg now i (strip (get_or [] data)) S)
       (chat_broadcast (said_payload now i (strip (get_or [] data)) ''local'' S) (S\<lparr>ch_seen := remember pick i (ch_seen S)\<rparr>)))"
  by (simp add: websocket_message_def said_msg_def said_payload_def Let_def)

lemma tcp_says:
  fixes S0 S :: node_net
  assumes "m = said_msg now i txt S0"
  shows "node_handler C pick later h m S =
     (Inr (), if i \<in> set (ch_seen S) then S
      else snd (broadcast_to_peers C m
        (chat_broadcast (said_payload now i txt ''peer'' S0) (S\<lparr>ch_seen := remember pick i (ch_seen S)\<rparr>))))"
proof -
  have "has_type MSG_CHAT m" "str_field ''msg_id'' [] m = Inr i" "str_field ''sender_id'' [] m = Inr (ns_node_id (nt_node S0))"
    "str_field ''sender_name'' ''unknown'' m = Inr (ns_name (nt_node S0))" "str_field ''text'' [] m = Inr txt"
    "real_field ''timestamp'' later m = Inr now"
    by (simp_all add: assms said_msg_def chat_msg_def build_message_def has_type_def str_field_def real_field_def)
  then show ?thesis by (simp add: node_handler_def handle_tcp_chat_def said_payload_def)
qed

text \<open>
  The state of a swarm through which one message spreads: a node that has it has shown it once and
  every node it has a link to has it as well or is about to get it.
\<close>

definition node_spread :: "node_net \<Rightarrow> string \<Rightarrow> chat_payload \<Rightarrow> node_net \<Rightarrow> bool" where
  "node_spread S0 i p S \<longleftrightarrow> same_links S0 S \<and> distinct (ch_active S) \<and>
     (if i \<in> set (ch_seen S) then ch_seen S = i # ch_seen S0 else ch_seen S = ch_seen S0) \<and>
     (\<forall>ws \<in> set (ch_active S0). ch_ws_ok S0 ws \<longrightarrow> ws \<in> set (ch_active S) \<and>
        ch_shown S ws = ch_shown S0 ws @ (if i \<in> set (ch_seen S) then [p] else []))"

definition spread :: "wiring \<Rightarrow> mesh \<Rightarrow> string \<Rightarrow> message \<Rightarrow> (nat \<Rightarrow> chat_payload) \<Rightarrow> mesh \<Rightarrow> bool" where
  "spread wire M0 i m p M \<longleftrightarrow>
     (\<forall>x \<in># ms_flight M. snd (snd x) = m) \<and>
     (\<forall>j. node_spread (ms_nodes M0 j) i (p j) (ms_nodes M j)) \<and>
     (\<forall>x y g. i \<in> set (ch_seen (ms_nodes M x)) \<and> link_at wire M0 x y g \<longrightarrow>
        i \<in> set (ch_seen (ms_nodes M y)) \<or> (y, g, m) \<in># ms_flight M)"

lemma node_spread_takes:
  fixes S :: node_net
  assumes "node_spread S0 i p S" and "i \<notin> set (ch_seen S)" and "length (ch_seen S0) < MAX_SEEN"
    and "S' = snd (broadcast_to_peers C m (chat_broadcast p (S\<lparr>ch_seen := remember pick i (ch_seen S)\<rparr>)))"
  shows "node_spread S0 i p S' \<and> ch_seen S' = i # ch_seen S0 \<and> same_links S S'"
proof -
  have "remember pick i (ch_seen S) = i # ch_seen S0"
    using assms(1-3) by (simp add: node_spread_def remember_room)
  then have "same_links S S' \<and> shows_once p S S' \<and> ch_seen S' = i # ch_seen S0"
    using passes_on [OF assms(4)] assms(1) by (simp add: node_spread_def)
  then show ?thesis using assms(1,2) by (auto simp: node_spread_def same_links_def shows_once_def)
qed

lemma node_spread_links:
  "node_spread S0 i p S \<Longrightarrow> nt_connections S = nt_connections S0 \<and> nt_open S = nt_open S0 \<and>
     nn_clients S = nn_clients S0 \<and> nn_next S = nn_next S0"
  by (simp add: node_spread_def same_links_def)

lemma spread_step:
  assumes "codec_ok (ne_codec E)" and "fits (ne_codec E) m" and m: "m = said_msg t i txt U"
    and "\<forall>j. length (ch_seen (ms_nodes M0 j)) < MAX_SEEN" and "spread wire M0 i m p M"
    and "\<forall>j. i \<notin> set (ch_seen (ms_nodes M j)) \<longrightarrow> p j = said_payload t i txt ''peer'' U" and "mesh_step E pick wire M M'"
  shows "spread wire M0 i m p M' \<and> (\<forall>j. i \<in> set (ch_seen (ms_nodes M j)) \<longrightarrow> i \<in> set (ch_seen (ms_nodes M' j)))"
  using assms(7)
proof cases
  case (delivers j g m' F cl now cl' S')
  let ?S = "ms_nodes M j" and ?P = "posted (ne_codec E) wire j (ms_nodes M j) S'"
  have m': "m' = m" using assms(5) delivers(2) by (simp add: spread_def)
  have node: "node_spread (ms_nodes M0 k) i (p k) (ms_nodes M k)" for k using assms(5) by (simp add: spread_def)
  have old: "i \<in> set (ch_seen (ms_nodes M x)) \<Longrightarrow> link_at wire M0 x y h \<Longrightarrow>
      i \<in> set (ch_seen (ms_nodes M y)) \<or> (y, h, m) \<in># ms_flight M" for x y h using assms(5) by (auto simp: spread_def)
  note handled = tcp_says [OF m, of "ne_codec E" pick now "cl_conn cl" ?S]
  have cl: "cl' = cl" and S': "S' = (if i \<in> set (ch_seen ?S) then ?S else snd (broadcast_to_peers (ne_codec E) m
      (chat_broadcast (said_payload t i txt ''peer'' U) (?S\<lparr>ch_seen := remember pick i (ch_seen ?S)\<rparr>))))"
    using delivers(4,5) by (simp_all add: client_step_def m' handled)
  show ?thesis
  proof (cases "i \<in> set (ch_seen ?S)")
    case True
    then have "S' = ?S" "?P = {#}" using S' posted_quiet by simp_all
    then have M': "ms_nodes M' = ms_nodes M" "ms_flight M = add_mset (j, g, m) (ms_flight M')"
      using delivers(1-3) cl m' by (simp_all add: fun_upd_idem)
    then show ?thesis using assms(5) old True by (fastforce simp: spread_def)
  next
    case False
    then have s: "S' = snd (broadcast_to_peers (ne_codec E) m (chat_broadcast (p j) (?S\<lparr>ch_seen := remember pick i (ch_seen ?S)\<rparr>)))"
      using S' assms(6) by simp
    have taken: "node_spread (ms_nodes M0 j) i (p j) S'" "ch_seen S' = i # ch_seen (ms_nodes M0 j)" "same_links ?S S'"
      using node_spread_takes [OF node False _ s] assms(4) by blast+
    then have "nn_clients S' = nn_clients ?S" by (simp add: same_links_def)
    then have "S'\<lparr>nn_clients := (nn_clients S')(g \<mapsto> cl')\<rparr> = S'" using delivers(3) cl by (simp add: fun_upd_idem)
    then have M': "ms_nodes M' = (ms_nodes M)(j := S')" "ms_flight M' = F + ?P" using delivers(1) by simp_all
    have flight: "ms_flight M = add_mset (j, g, m) F" using delivers(2) m' by simp
    have msgs: "\<forall>x \<in># ms_flight M'. snd (snd x) = m"
    proof
      fix x assume "x \<in># ms_flight M'"
      then show "snd (snd x) = m"
        using assms(5) M'(2) flight broadcast_new [OF assms(1,2) _ arg_cong [OF s, of nt_written], of ?S]
        by (auto simp: spread_def chat_broadcast_frame dest!: posted_mem)
    qed
    have "i \<in> set (ch_seen (ms_nodes M' y)) \<or> (y, h, m) \<in># ms_flight M'"
      if x: "i \<in> set (ch_seen (ms_nodes M' x))" "link_at wire M0 x y h" for x y h
    proof (cases "x = j")
      case True
      from x(2) obtain nid k where "dict_get (nt_connections (ms_nodes M0 x)) nid = Some k" "nt_open (ms_nodes M0 x) k"
          "k < nn_next (ms_nodes M0 x)" "wire x k = Some (y, h)" by (auto simp: link_at_def)
      then have "(y, h, m) \<in># ?P"
        using posts_on_links [OF assms(1,2) s, of nid k wire j y h] node_spread_links [OF node, of j] taken(3)
        by (simp add: True same_links_def)
      then show ?thesis using M'(2) by simp
    next
      case False
      then show ?thesis using old [OF _ x(2)] x(1) M' flight taken(2) by (auto split: if_splits)
    qed
    moreover have "node_spread (ms_nodes M0 k) i (p k) (ms_nodes M' k)" for k using node taken(1) by (simp add: M'(1))
    ultimately have "spread wire M0 i m p M'" unfolding spread_def using msgs by blast
    moreover have "\<forall>k. i \<in> set (ch_seen (ms_nodes M k)) \<longrightarrow> i \<in> set (ch_seen (ms_nodes M' k))"
      by (simp add: M'(1) taken(2))
    ultimately show ?thesis by blast
  qed
next
  case (listens j g m' F)
  have "(y, h, m) \<in># F" if "link_at wire M0 x y h" "(y, h, m) \<in># ms_flight M" for x y h
  proof -
    have "nn_clients (ms_nodes M y) h \<noteq> None"
      using that(1) node_spread_links [of "ms_nodes M0 y" i "p y" "ms_nodes M y"] assms(5) by (auto simp: link_at_def spread_def)
    then have "(y, h) \<noteq> (j, g)" using listens(4) by auto
    then show ?thesis using that(2) listens(2) by auto
  qed
  then have flown: "i \<in> set (ch_seen (ms_nodes M y)) \<or> (y, h, m) \<in># F"
    if "i \<in> set (ch_seen (ms_nodes M x))" "link_at wire M0 x y h" for x y h
    using that assms(5) unfolding spread_def by blast
  have M': "ms_nodes M' = ms_nodes M" "ms_flight M' = F" using listens(1) by simp_all
  have "\<forall>x \<in># F. snd (snd x) = m" using assms(5) listens(2) by (simp add: spread_def)
  moreover have "\<forall>k. node_spread (ms_nodes M0 k) i (p k) (ms_nodes M k)" using assms(5) by (simp add: spread_def)
  ultimately show ?thesis using flown unfolding spread_def M' by blast
qed

lemma spread_run:
  assumes "codec_ok (ne_codec E)" and "fits (ne_codec E) m" and m: "m = said_msg t i txt U"
    and "\<forall>j. length (ch_seen (ms_nodes M0 j)) < MAX_SEEN" and "spread wire M0 i m p M"
    and "\<forall>j. i \<notin> set (ch_seen (ms_nodes M j)) \<longrightarrow> p j = said_payload t i txt ''peer'' U"
    and "(mesh_step E pick wire)\<^sup>*\<^sup>* M M'"
  shows "spread wire M0 i m p M' \<and> (\<forall>j. i \<in> set (ch_seen (ms_nodes M j)) \<longrightarrow> i \<in> set (ch_seen (ms_nodes M' j)))"
  using assms(7)
proof (induction rule: rtranclp_induct)
  case (step T T')
  then have "\<forall>j. i \<notin> set (ch_seen (ms_nodes T j)) \<longrightarrow> p j = said_payload t i txt ''peer'' U" using assms(6) by blast
  then show ?case using spread_step [OF assms(1-4) _ _ step.hyps(2)] step.IH by blast
qed (simp add: assms(5))

lemma spread_reaches:
  assumes "spread wire M0 i m p M" and "\<not> (\<exists>M'. mesh_step E pick wire M M')" and "i \<in> set (ch_seen (ms_nodes M a))"
    and "(reads_from wire M0)\<^sup>*\<^sup>* a b"
  shows "i \<in> set (ch_seen (ms_nodes M b))"
  using assms(4)
proof (induction rule: rtranclp_induct)
  case (step x y)
  then obtain g where g: "link_at wire M0 x y g" by (auto simp: reads_from_def)
  then obtain cl where cl: "nn_clients (ms_nodes M y) g = Some cl" "cl_phase cl = InLoop"
    using node_spread_links [of "ms_nodes M0 y" i "p y" "ms_nodes M y"] assms(1) by (auto simp: link_at_def spread_def)
  have "(y, g, m) \<notin># ms_flight M"
  proof
    assume "(y, g, m) \<in># ms_flight M"
    then obtain F where F: "ms_flight M = add_mset (y, g, m) F" by (blast dest: multi_member_split)
    obtain cl' T where "client_step E (node_handler (ne_codec E) pick 0) 0 (Some m) cl (ms_nodes M y) = (cl', T)" by fastforce
    from delivers [OF F cl this] assms(2) show False by blast
  qed
  then show ?case using assms(1) step.IH g unfolding spread_def by blast
qed (rule assms(3))

text \<open>A message that is said starts to spread.\<close>

lemma say_spreads:
  assumes "codec_ok (ne_codec E)" and "ms_flight M = {#}"
    and "\<forall>j. length (ch_seen (ms_nodes M j)) < MAX_SEEN \<and> i \<notin> set (ch_seen (ms_nodes M j)) \<and> distinct (ch_active (ms_nodes M j))"
    and "strip (get_or [] data) = txt" and "txt \<noteq> []" and "U = ms_nodes M a" and "m = said_msg now i txt U"
    and "fits (ne_codec E) m" and "p a = said_payload now i txt ''local'' U" and "M1 = mesh_say E pick wire a now i data M"
  shows "spread wire M i m p M1 \<and> (\<forall>j. ch_seen (ms_nodes M1 j) = (if j = a then i # ch_seen U else ch_seen (ms_nodes M j))) \<and>
     (\<forall>x \<in># ms_flight M1. snd (snd x) = m \<and> (\<exists>h. wire a h = Some (fst x, fst (snd x))))"
proof -
  define S' where "S' = websocket_message (ne_codec E) pick now i data U"
  have s: "S' = snd (broadcast_to_peers (ne_codec E) m (chat_broadcast (p a) (U\<lparr>ch_seen := remember pick i (ch_seen U)\<rparr>)))"
    using websocket_says [of data "ne_codec E" pick now i U] assms(4,5,7,9) by (simp add: S'_def)
  have fresh: "node_spread (ms_nodes M j) i (p j) (ms_nodes M j)" for j
    using assms(3) by (simp add: node_spread_def same_links_def)
  have taken: "node_spread U i (p a) S'" "ch_seen S' = i # ch_seen U" "same_links U S'"
    using node_spread_takes [OF fresh [of a] _ _ s [unfolded assms(6)]] assms(3,6) by blast+
  have M1: "ms_nodes M1 = (ms_nodes M)(a := S')" "ms_flight M1 = posted (ne_codec E) wire a U S'"
    using assms(2,6,10) by (simp_all add: mesh_say_def S'_def Let_def)
  have said: "\<forall>x \<in># ms_flight M1. snd (snd x) = m \<and> (\<exists>h. wire a h = Some (fst x, fst (snd x)))"
    using broadcast_new [OF assms(1,8) _ arg_cong [OF s, of nt_written], of U]
    by (auto simp: M1(2) chat_broadcast_frame dest!: posted_mem)
  have "(y, g, m) \<in># ms_flight M1" if x: "i \<in> set (ch_seen (ms_nodes M1 x))" "link_at wire M x y g" for x y g
  proof -
    have "x = a" using x(1) assms(3) by (auto simp: M1(1) split: if_splits)
    moreover obtain nid k where "dict_get (nt_connections (ms_nodes M x)) nid = Some k" "nt_open (ms_nodes M x) k"
        "k < nn_next (ms_nodes M x)" "wire x k = Some (y, g)" using x(2) by (auto simp: link_at_def)
    ultimately show ?thesis
      using posts_on_links [OF assms(1,8) s, of nid k wire a y g] taken(3) by (simp add: M1(2) assms(6) same_links_def)
  qed
  moreover have "node_spread (ms_nodes M j) i (p j) (ms_nodes M1 j)" for j
    using fresh taken(1) assms(6) by (simp add: M1(1))
  ultimately have "spread wire M i m p M1" unfolding spread_def using said by blast
  then show ?thesis using said taken(2) by (simp add: M1(1))
qed

text \<open>
  C24. Gossip arrives, as long as nobody's memory of identifiers is full. In a quiet swarm in which every node remembers
  fewer than 500 identifiers, the new one not among them, a message that a user sends ends up at every node that can be reached
  over links which are read at their other end: deliveries come to an end in every order, and then each open
  browser of each such node has been shown the message exactly once more, and so have the
  browsers of the sender.
\<close>

theorem gossip_delivers:
  assumes "codec_ok (ne_codec E)" and "ms_flight M = {#}"
    and "finite N" and "\<forall>i h j g. wire i h = Some (j, g) \<longrightarrow> j \<in> N"
    and "\<forall>j. length (ch_seen (ms_nodes M j)) < MAX_SEEN \<and> i \<notin> set (ch_seen (ms_nodes M j)) \<and> distinct (ch_active (ms_nodes M j))"
    and "strip (get_or [] data) \<noteq> []"
    and "fits (ne_codec E) (said_msg now i (strip (get_or [] data)) (ms_nodes M a))"
  shows "(\<exists>M'. (mesh_step E pick wire)\<^sup>*\<^sup>* (mesh_say E pick wire a now i data M) M' \<and> \<not> (\<exists>M''. mesh_step E pick wire M' M'')) \<and>
     (\<forall>M'. (mesh_step E pick wire)\<^sup>*\<^sup>* (mesh_say E pick wire a now i data M) M' \<and> \<not> (\<exists>M''. mesh_step E pick wire M' M'') \<longrightarrow>
        (\<forall>b ws. (reads_from wire M)\<^sup>*\<^sup>* a b \<and> ws \<in> set (ch_active (ms_nodes M b)) \<and> ch_ws_ok (ms_nodes M b) ws \<longrightarrow>
           ch_shown (ms_nodes M' b) ws = ch_shown (ms_nodes M b) ws @
             [said_payload now i (strip (get_or [] data)) (if b = a then ''local'' else ''peer'') (ms_nodes M a)]))"
proof -
  let ?txt = "strip (get_or [] data)" and ?U = "ms_nodes M a"
  let ?m = "said_msg now i ?txt ?U" and ?M1 = "mesh_say E pick wire a now i data M"
  define p where "p b = said_payload now i ?txt (if b = a then ''local'' else ''peer'') ?U" for b
  have start: "spread wire M i ?m p ?M1" "\<And>j. ch_seen (ms_nodes ?M1 j) = (if j = a then i # ch_seen ?U else ch_seen (ms_nodes M j))"
    "\<And>x. x \<in># ms_flight ?M1 \<Longrightarrow> snd (snd x) = ?m \<and> (\<exists>h. wire a h = Some (fst x, fst (snd x)))"
    using say_spreads [OF assms(1,2,5) refl assms(6) refl refl assms(7) _ refl, where p = p and pick = pick and wire = wire] by (simp_all add: p_def)
  have ends: "\<exists>M'. (mesh_step E pick wire)\<^sup>*\<^sup>* ?M1 M' \<and> \<not> (\<exists>M''. mesh_step E pick wire M' M'')"
  proof (rule gossip.comes_to_rest)
    have "str_field ''msg_id'' [] ?m = Inr i" by (simp add: said_msg_def str_field_def)
    then have "\<forall>(j, g, m') \<in># ms_flight ?M1. j \<in> N \<and> fits (ne_codec E) m' \<and> (\<forall>k. str_field ''msg_id'' [] m' = Inr k \<longrightarrow> k \<in> {i})"
      using start(3) assms(4,7) by fastforce
    moreover have "length (ch_seen (ms_nodes ?M1 j)) + card ({i} - set (ch_seen (ms_nodes ?M1 j))) \<le> MAX_SEEN" for j
      using assms(5) by (simp add: start(2) Suc_le_eq insert_Diff_if)
    ultimately show "codec_ok (ne_codec E) \<and> gossip_room (ne_codec E) wire N {i} ?M1"
      unfolding gossip_room_def using assms(1,3,4) by blast
  qed
  have "ch_shown (ms_nodes M' b) ws = ch_shown (ms_nodes M b) ws @ [p b]"
    if run: "(mesh_step E pick wire)\<^sup>*\<^sup>* ?M1 M'" "\<not> (\<exists>M''. mesh_step E pick wire M' M'')"
      and b: "(reads_from wire M)\<^sup>*\<^sup>* a b" "ws \<in> set (ch_active (ms_nodes M b))" "ch_ws_ok (ms_nodes M b) ws" for M' b ws
  proof -
    have "\<forall>j. i \<notin> set (ch_seen (ms_nodes ?M1 j)) \<longrightarrow> p j = said_payload now i ?txt ''peer'' ?U"
      by (simp add: start(2) p_def)
    then have inv: "spread wire M i ?m p M'" "i \<in> set (ch_seen (ms_nodes M' a))"
      using spread_run [OF assms(1,7) refl _ start(1) _ run(1)] assms(5) start(2) by auto
    have "i \<in> set (ch_seen (ms_nodes M' b))" by (rule spread_reaches [OF inv(1) run(2) inv(2) b(1)])
    moreover have "node_spread (ms_nodes M b) i (p b) (ms_nodes M' b)" using inv(1) by (simp add: spread_def)
    ultimately show ?thesis using b(2,3) by (auto simp: node_spread_def)
  qed
  then show ?thesis using ends unfolding p_def by blast
qed

subsection \<open>A link runs one way\<close>

lemma client_step_clients:
  fixes S :: node_net
  assumes "client_step E (node_handler C pick now) now received cl S = (cl2, S')"
  shows "nn_clients S' = nn_clients S \<and> nn_next S' = nn_next S"
proof -
  have hd: "nn_clients S1 = nn_clients S \<and> nn_next S1 = nn_next S" if "node_handler C pick now h m S = (r, S1)" for h m r S1
    using node_handler_effect [of S pick C now h m] that by (auto simp: chat_effect_def)
  have more: "nn_clients T' = nn_clients T \<and> nn_next T' = nn_next T"
    if "net_state.more T' = net_state.more T" for T T' :: node_net
    using that by (cases T; cases T') simp
  have fin: "nn_clients T' = nn_clients T \<and> nn_next T' = nn_next T" if "client_finish c T = (c', T')" for c c' and T T' :: node_net
    by (rule more [OF client_finish_more [OF that]])
  have acc: "nn_clients T' = nn_clients T \<and> nn_next T' = nn_next T" if "accept_handshake E now m c T = (c', T')"
    for m c c' and T T' :: node_net
    by (rule more [OF accept_handshake_more [OF that]])
  show ?thesis
    using assms
    by (auto simp: client_step_def split: phase.splits option.splits if_splits prod.splits sum.splits dest!: fin acc hd)
qed

lemma net_step_no_handler:
  "net_step E pick S S' \<Longrightarrow> h < nn_next S \<and> nn_clients S h = None \<Longrightarrow> h < nn_next S' \<and> nn_clients S' h = None"
proof (erule net_stepE)
  fix g cl now received cl' S1
  assume "h < nn_next S \<and> nn_clients S h = None" and "nn_clients S g = Some cl"
    and "S' = S1\<lparr>nn_clients := (nn_clients S1)(g \<mapsto> cl')\<rparr>"
    and "client_step E (node_handler (ne_codec E) pick now) now received cl S = (cl', S1)"
  then show "h < nn_next S' \<and> nn_clients S' h = None" using client_step_clients [of E "ne_codec E" pick now received cl S cl' S1] by auto
next
  fix now i data assume "h < nn_next S \<and> nn_clients S h = None" and "S' = websocket_message (ne_codec E) pick now i data S"
  then show "h < nn_next S' \<and> nn_clients S' h = None"
    using websocket_message_effect [of S pick "ne_codec E" now i data] by (auto simp: chat_effect_def)
next
  fix dial now ip port r assume "h < nn_next S \<and> nn_clients S h = None" and "dial_peer E dial now ip port S = (r, S')"
  then show "h < nn_next S' \<and> nn_clients S' h = None"
    using dial_peer_effect by (fastforce simp: register_conn_def)
qed (auto simp: chat_connect_def chat_disconnect_def)

interpretation no_handler: invariant_system "net_step E pick" "\<lambda>S. h < nn_next S \<and> nn_clients S h = None" for E pick h
  by unfold_locales (rule net_step_no_handler)

lemma dialled_handle:
  assumes "dial_peer E dial now ip port S = (Inr (Some h), S')"
  shows "h = nn_next S \<and> nn_next S' = Suc (nn_next S) \<and> nn_clients S' = nn_clients S"
proof (cases "dial ip port")
  case None
  then show ?thesis using assms by (simp add: dial_peer_def connect_to_peer_def)
next
  case (Some reply)
  let ?S = "S\<lparr>nn_next := Suc (nn_next S), nt_open := (nt_open S)(nn_next S := True)\<rparr>"
  have c: "connect_to_peer E now (Some (nn_next S, reply)) ip port ?S = (Inr (Some h), S')"
    using assms Some by (simp add: dial_peer_def)
  then have "h = nn_next S"
    by (auto simp: connect_to_peer_def Let_def split: sum.splits prod.splits option.splits if_splits)
  then show ?thesis using connect_to_peer_effect [OF c] by (auto simp: register_conn_def)
qed

text \<open>
  C38. Nothing the accepting side sends is handled. A connection that a node has dialled gets no
  handler, whatever the node does afterwards. What arrives on it stays unread, or a windowed sender's
  listener on that connection takes it: that changes no node and sends nothing, and anything but a
  CHUNK_ACK is dropped without a trace. A chat message that arrives there is neither shown nor passed on.
\<close>

theorem dialled_link_unhandled:
  assumes "net_reachable E pick S" and "dial_peer E dial now ip port S = (Inr (Some h), S')"
    and "(net_step E pick)\<^sup>*\<^sup>* S' (ms_nodes M j)" and "mesh_step E pick wire M M'"
  shows "nn_clients (ms_nodes M j) h = None \<and>
     (\<forall>m. count (ms_flight M') (j, h, m) < count (ms_flight M) (j, h, m) \<longrightarrow>
        (j, h) \<in> ms_ackers M \<and> ms_nodes M' = ms_nodes M \<and> ms_flight M = add_mset (j, h, m) (ms_flight M') \<and>
        (\<not> has_type MSG_CHUNK_ACK m \<longrightarrow> ms_acks M' = ms_acks M))"
proof -
  have "nn_clients S (nn_next S) = None" by (rule fresh_client_none [OF reachable_conns [OF assms(1)]])
  then have "h < nn_next S' \<and> nn_clients S' h = None" using dialled_handle [OF assms(2)] by simp
  from no_handler.runs_keep [OF assms(3) this] have none: "nn_clients (ms_nodes M j) h = None" ..
  show ?thesis
    using assms(4)
  proof cases
    case (delivers k g m F cl now cl' T)
    have "(k, g) \<noteq> (j, h)" using none delivers(3) by auto
    then show ?thesis using none delivers(1,2) by auto
  next
    case (listens k g m F)
    then show ?thesis using none by (auto simp: ack_listener_def split: if_splits)
  qed
qed

subsection \<open>When the memory is full\<close>

lemma link_at_same: "(\<And>z. same_links (ms_nodes M z) (ms_nodes M' z)) \<Longrightarrow> link_at wire M' a b g = link_at wire M a b g"
  by (simp add: link_at_def same_links_def)

lemma full_memory_step:
  assumes "codec_ok (ne_codec E)" and "fits (ne_codec E) m" and m: "m = said_msg t i txt U" and "\<And>seen. pick (i # seen) = i"
    and "length (ch_seen (ms_nodes M k)) = MAX_SEEN" and "i \<notin> set (ch_seen (ms_nodes M k))" and "distinct (ch_active (ms_nodes M k))"
    and "link_at wire M a k gk" and "(k, gk, m) \<in># ms_flight M" and "link_at wire M k b g"
  shows "\<exists>M'. mesh_step E pick wire M M' \<and> (b, g, m) \<in># ms_flight M' \<and>
     (\<forall>z. same_links (ms_nodes M z) (ms_nodes M' z) \<and> ch_seen (ms_nodes M' z) = ch_seen (ms_nodes M z) \<and>
        (distinct (ch_active (ms_nodes M z)) \<longrightarrow> distinct (ch_active (ms_nodes M' z))))"
proof -
  let ?S = "ms_nodes M k" and ?p = "said_payload t i txt ''peer'' U"
  obtain F where F: "ms_flight M = add_mset (k, gk, m) F" using assms(9) by (blast dest: multi_member_split)
  obtain cl where cl: "nn_clients ?S gk = Some cl" "cl_phase cl = InLoop" using assms(8) by (auto simp: link_at_def)
  obtain nid h where l: "dict_get (nt_connections ?S) nid = Some h" "nt_open ?S h" "h < nn_next ?S" "wire k h = Some (b, g)"
    using assms(10) by (auto simp: link_at_def)
  define S' where "S' = snd (broadcast_to_peers (ne_codec E) m (chat_broadcast ?p (?S\<lparr>ch_seen := remember pick i (ch_seen ?S)\<rparr>)))"
  have taken: "same_links ?S S'" "shows_once ?p ?S S'" "ch_seen S' = ch_seen ?S"
    using passes_on [OF S'_def assms(7)] assms(4-6) by (simp_all add: remember_def)
  have step: "client_step E (node_handler (ne_codec E) pick t) t (Some m) cl ?S = (cl, S')"
    using tcp_says [OF m, of "ne_codec E" pick t "cl_conn cl" ?S] assms(6) cl(2) by (simp add: client_step_def S'_def)
  have same: "S'\<lparr>nn_clients := (nn_clients S')(gk \<mapsto> cl)\<rparr> = S'"
    using cl(1) taken(1) by (simp add: same_links_def fun_upd_idem)
  have "(b, g, m) \<in># posted (ne_codec E) wire k ?S S'"
    using posts_on_links [OF assms(1,2) S'_def l(1-3), of wire k b g] l(4) taken(1) by (simp add: same_links_def)
  then show ?thesis
    using delivers [OF F cl step, of wire] taken unfolding same
    by (intro exI [of _ "M\<lparr>ms_nodes := (ms_nodes M)(k := S'), ms_flight := F + posted (ne_codec E) wire k ?S S'\<rparr>"])
      (auto simp: shows_once_def same_links_def)
qed

text \<open>
  C40. With the memory of identifiers full, gossip need not end. \<^verbatim>\<open>set.pop\<close> may remove the very identifier
  that was just added; two nodes that are linked both ways then pass the same message to and fro for ever.
\<close>

theorem full_memory_gossip_loops:
  assumes "codec_ok (ne_codec E)" and "fits (ne_codec E) (said_msg t i txt U)"
    and "\<And>seen. pick (i # seen) = i"
    and "\<forall>j \<in> {x, y}. length (ch_seen (ms_nodes M j)) = MAX_SEEN \<and> i \<notin> set (ch_seen (ms_nodes M j)) \<and> distinct (ch_active (ms_nodes M j))"
    and "link_at wire M x y g" and "link_at wire M y x h" and "(y, g, said_msg t i txt U) \<in># ms_flight M"
  shows "\<exists>Ms. Ms 0 = M \<and> (\<forall>n. mesh_step E pick wire (Ms n) (Ms (Suc n)))"
proof -
  let ?m = "said_msg t i txt U"
  define Q where "Q M \<longleftrightarrow> (\<forall>j \<in> {x, y}. length (ch_seen (ms_nodes M j)) = MAX_SEEN \<and> i \<notin> set (ch_seen (ms_nodes M j)) \<and>
      distinct (ch_active (ms_nodes M j))) \<and> link_at wire M x y g \<and> link_at wire M y x h \<and>
      ((y, g, ?m) \<in># ms_flight M \<or> (x, h, ?m) \<in># ms_flight M)" for M
  have "\<exists>M'. Q M' \<and> mesh_step E pick wire M M'" if Q: "Q M" for M
  proof -
    have side: "\<exists>M'. Q M' \<and> mesh_step E pick wire M M'"
      if s: "{a, b} = {x, y}" "link_at wire M a b gb" "link_at wire M b a ga" "(b, gb, ?m) \<in># ms_flight M"
        "(a, ga) = (x, h) \<or> (a, ga) = (y, g)" for a b ga gb
    proof -
      have "b \<in> {x, y}" using s(1) by auto
      then have full: "length (ch_seen (ms_nodes M b)) = MAX_SEEN" "i \<notin> set (ch_seen (ms_nodes M b))"
        "distinct (ch_active (ms_nodes M b))" using Q by (auto simp: Q_def)
      obtain M' where M': "mesh_step E pick wire M M'" "(a, ga, ?m) \<in># ms_flight M'"
        "\<forall>z. same_links (ms_nodes M z) (ms_nodes M' z) \<and> ch_seen (ms_nodes M' z) = ch_seen (ms_nodes M z) \<and>
           (distinct (ch_active (ms_nodes M z)) \<longrightarrow> distinct (ch_active (ms_nodes M' z)))"
        using full_memory_step [where pick = pick and i = i, OF assms(1,2) refl assms(3) full s(2,4,3)] by blast
      then have "Q M'" using Q s(5) link_at_same [of M M' wire] by (auto simp: Q_def)
      then show ?thesis using M'(1) by blast
    qed
    show ?thesis
      using Q side [of x y g h] side [of y x h g] by (auto simp: Q_def)
  qed
  moreover have "Q M" using assms(4-7) by (simp add: Q_def)
  ultimately show ?thesis using dependent_nat_choice [of "\<lambda>n M'. Q M' \<and> (n = 0 \<longrightarrow> M' = M)" "\<lambda>n. mesh_step E pick wire"] by auto
qed

subsection \<open>From a broadcast to a link\<close>

lemma connector_loop_known:
  "\<forall>(nid, p) \<in> set ps. dict_get (nt_connections S) nid \<noteq> None \<Longrightarrow> connector_loop E dial now ps S = (Inr (), S)"
  by (induction ps) auto

lemma connector_loop_one:
  assumes "\<forall>(k, q) \<in> set xs. dict_get (nt_connections S) k \<noteq> None" and "dict_get (nt_connections S) nid = None"
    and "dial_peer E dial now (pi_ip p) (pi_tcp_port p) S = (Inr r, S')"
    and "\<forall>(k, q) \<in> set ys. dict_get (nt_connections S') k \<noteq> None"
  shows "connector_loop E dial now (xs @ (nid, p) # ys) S = (Inr (), S')"
  using assms(1)
proof (induction xs)
  case Nil
  then show ?case using assms(2-4) connector_loop_known [of ys S' E dial now] by simp
qed auto

text \<open>The HELLO of a new peer, and the one connection the next round opens.\<close>

definition answers_at :: "string \<Rightarrow> int \<Rightarrow> message option \<Rightarrow> string \<Rightarrow> int \<Rightarrow> message option option" where
  "answers_at ip port reply ip' port' = (if ip' = ip \<and> port' = port then Some reply else None)"

lemma handshake_fields_node:
  "ns_node_id (nt_node S) = ns_node_id (nt_node A) \<Longrightarrow> ns_name (nt_node S) = ns_name (nt_node A) \<Longrightarrow>
   ns_tcp_port (nt_node S) = ns_tcp_port (nt_node A) \<Longrightarrow> nt_api_port S = nt_api_port A \<Longrightarrow>
   handshake_fields t S = handshake_fields t A"
  by (simp add: handshake_fields_def)

lemma add_peer_self [simp]:
  "ns_node_id (add_peer now p st) = ns_node_id st" "ns_name (add_peer now p st) = ns_name st"
  "ns_tcp_port (add_peer now p st) = ns_tcp_port st"
  by (simp_all add: add_peer_def Let_def)

text \<open>The alive peers after a HELLO: the one that was announced, and others that the node knew before.\<close>

lemma announced_alive:
  assumes "st = add_peer now (announced_peer sent now ip he A) (nt_node B)" and "dict_ok (ns_peers (nt_node B))"
    and "later - now < timeout"
  obtains p xs ys where "get_alive_peers later timeout st = xs @ (ns_node_id (nt_node A), p) # ys" "pi_ip p = ip"
    "pi_tcp_port p = ns_tcp_port (nt_node A)" "\<And>k. k \<in> fst ` set (xs @ ys) \<Longrightarrow> k \<in> fst ` set (ns_peers (nt_node B)) \<and> k \<noteq> ns_node_id (nt_node A)"
proof -
  let ?a = "ns_node_id (nt_node A)"
  obtain p where p: "dict_get (ns_peers st) ?a = Some p" "pi_ip p = ip" "pi_tcp_port p = ns_tcp_port (nt_node A)"
    "pi_last_seen p = now"
    using add_peer_knows [of now "announced_peer sent now ip he A" "nt_node B"] by (auto simp: assms(1) announced_peer_def)
  have "dict_ok (ns_peers st)" using assms(2) by (auto simp: assms(1) add_peer_def Let_def)
  then have ok: "dict_ok (get_alive_peers later timeout st)" by (auto simp: get_alive_peers_def)
  have "(?a, p) \<in> set (get_alive_peers later timeout st)"
    using p assms(3) by (auto simp: get_alive_peers_def is_alive_def dest: map_of_SomeD)
  then obtain xs ys where l: "get_alive_peers later timeout st = xs @ (?a, p) # ys" by (blast dest: split_list)
  have "k \<in> fst ` set (ns_peers (nt_node B)) \<and> k \<noteq> ?a" if k: "k \<in> fst ` set (xs @ ys)" for k
  proof -
    have "k \<noteq> ?a" using ok k by (auto simp: l dict_ok_def image_iff)
    moreover have "k \<in> fst ` set (ns_peers st)"
      using k arg_cong [OF l, of set] by (auto simp: get_alive_peers_def)
    ultimately show ?thesis by (auto simp: assms(1) add_peer_def Let_def announced_peer_def dom_update)
  qed
  then show thesis using that l p(2,3) by blast
qed

text \<open>
  C22. Nodes find each other without configuration. When a node \<open>B\<close>, connected to every other peer it knows,
  takes in the HELLO a node \<open>A\<close> with the same swarm key has broadcast, the next round of its connector dials exactly the address
  the datagram came from and the port the HELLO announces; the handshake completes, and each node has
  registered a connection to the other. \<open>A\<close> has a running handler for it.
\<close>

theorem discovery_connects:
  fixes A B :: node_net
  assumes "codec_ok (ne_codec E)" and "reads_back (dc_orjson D) (hello_wrapper D (hello_payload sent he A))"
    and "\<forall>k m. dc_hmac D k m \<noteq> []" and "ns_node_id (nt_node A) \<noteq> ns_node_id (nt_node B)"
    and "dict_ok (ns_peers (nt_node B))"
    and "\<forall>(nid, p) \<in> set (ns_peers (nt_node B)). nid \<noteq> ns_node_id (nt_node A) \<longrightarrow> dict_get (nt_connections B) nid \<noteq> None"
    and "dict_get (nt_connections B) (ns_node_id (nt_node A)) = None"
    and "later - now < timeout" and "nt_written B (nn_next B) = []" and "nt_open A g" and "nt_written A g = []"
    and "fits (ne_codec E) (auth_handshake_msg (ne_hmac E) (ns_node_id (nt_node B)) (ne_swarm_key E))"
    and "fits (ne_codec E) (handshake_fields ''HANDSHAKE'' B)" and "fits (ne_codec E) (handshake_fields ''HANDSHAKE_ACK'' A)"
  shows "\<exists>B1 B2 A' cl ack. datagram_received D now (build_hello D sent he A) ipA B = (Inr (), B1) \<and>
     connector_round E (answers_at ipA (ns_tcp_port (nt_node A)) (Some ack)) timeout later B1 = (Inr (), B2) \<and>
     client_feed E H later (message_loop (ne_codec E) (nt_written B2 (nn_next B))) (new_client g ipB) A = (cl, A') \<and>
     message_loop (ne_codec E) (nt_written A' g) = [ack] \<and> cl_phase cl = InLoop \<and>
     dict_get (nt_connections B2) (ns_node_id (nt_node A)) = Some (nn_next B) \<and>
     dict_get (nt_connections A') (ns_node_id (nt_node B)) = Some g"
proof -
  let ?a = "ns_node_id (nt_node A)" and ?h = "nn_next B"
  define B1 where "B1 = B\<lparr>nt_node := add_peer now (announced_peer sent now ipA he A) (nt_node B)\<rparr>"
  have hello: "datagram_received D now (build_hello D sent he A) ipA B = (Inr (), B1)"
    using hello_from_build [OF assms(2), of now ipA] assms(3,4)
    by (simp add: B1_def datagram_received_def hello_signature_def)
  define B1' where "B1' = B1\<lparr>nn_next := Suc (nn_next B1), nt_open := (nt_open B1)(nn_next B1 := True)\<rparr>"
  have B1': "ns_node_id (nt_node B1') = ns_node_id (nt_node B)" "nt_open B1' ?h" "nt_written B1' ?h = []"
    "handshake_fields ''HANDSHAKE'' B1' = handshake_fields ''HANDSHAKE'' B" "nt_connections B1' = nt_connections B"
    using assms(9) by (simp_all add: B1'_def B1_def handshake_fields_def)
  obtain B2 A' cl ack where run:
    "connect_to_peer E later (Some (?h, Some ack)) ipA (ns_tcp_port (nt_node A)) B1' = (Inr (Some ?h), B2)"
    "client_feed E H later (message_loop (ne_codec E) (nt_written B2 ?h)) (new_client g ipB) A = (cl, A')"
    "message_loop (ne_codec E) (nt_written A' g) = [ack]" "cl_phase cl = InLoop"
    "dict_get (nt_connections B2) ?a = Some ?h" "dict_get (nt_connections A') (ns_node_id (nt_node B)) = Some g"
    using handshake_both_sides [OF assms(1) B1'(2) assms(10) B1'(3) assms(11), unfolded B1', OF assms(12-14),
        of later ipA "ns_tcp_port (nt_node A)" H ipB] by (elim exE conjE)
  have keep: "dict_get (nt_connections B2) k \<noteq> None" if "dict_get (nt_connections B) k \<noteq> None" for k
    using connect_to_peer_effect [OF run(1)] that B1'(5) by (auto simp: register_conn_def)
  obtain p xs ys where p: "get_alive_peers later timeout (nt_node B1) = xs @ (?a, p) # ys" "pi_ip p = ipA"
    "pi_tcp_port p = ns_tcp_port (nt_node A)"
    "\<And>k. k \<in> fst ` set (xs @ ys) \<Longrightarrow> k \<in> fst ` set (ns_peers (nt_node B)) \<and> k \<noteq> ?a"
    using announced_alive [of "nt_node B1" now sent ipA he A B, OF _ assms(5,8)] by (simp add: B1_def) blast
  have others: "\<forall>(k, q) \<in> set (xs @ ys). dict_get (nt_connections B) k \<noteq> None"
    using p(4) assms(6) by fastforce
  have dial: "dial_peer E (answers_at ipA (ns_tcp_port (nt_node A)) (Some ack)) later (pi_ip p) (pi_tcp_port p) B1 = (Inr (Some ?h), B2)"
    using run(1) by (simp add: dial_peer_def answers_at_def p(2,3) B1'_def B1_def)
  have "connector_round E (answers_at ipA (ns_tcp_port (nt_node A)) (Some ack)) timeout later B1 = (Inr (), B2)"
    unfolding connector_round_def p(1)
    by (rule connector_loop_one [OF _ _ dial]) (use others keep assms(7) in \<open>fastforce simp: B1_def\<close>)+
  then show ?thesis using hello run by blast
qed

subsection \<open>Concrete swarms\<close>

text \<open>Node 0 has dialled node 1; and two nodes that have dialled each other, their memory full.\<close>

definition talker :: node_net where
  "talker = chat_node\<lparr>nt_connections := [(''bb'', 0)], nn_next := 1\<rparr>"

definition listener :: node_net where
  "listener = chat_node\<lparr>nn_next := 1,
     nn_clients := [0 \<mapsto> \<lparr>cl_conn = 0, cl_ip = ''10.0.0.1'', cl_phase = InLoop, cl_peer_id = ''aa''\<rparr>]\<rparr>"

definition hi :: message where
  "hi = said_msg 0 ''1'' ''hi'' talker"

definition talk_env :: net_env where
  "talk_env = two_node_env\<lparr>ne_codec := table_codec [hi]\<rparr>"

definition talk_wire :: wiring where
  "talk_wire i h = (if i = 0 \<and> h = 0 then Some (1, 0) else None)"

definition talk_mesh :: "flight \<Rightarrow> mesh" where
  "talk_mesh F = \<lparr>ms_nodes = (\<lambda>i. if i = 0 then talker else listener), ms_flight = F, ms_ackers = {}, ms_acks = []\<rparr>"

lemma talk_env_ok: "codec_ok (ne_codec talk_env)" "fits (ne_codec talk_env) hi"
  using table_codec_fits [of 0 "[hi]"] by (simp_all add: talk_env_def table_codec_ok)

lemma talk_seen [simp]:
  "ch_seen (ms_nodes (talk_mesh F) j) = []" "ch_active (ms_nodes (talk_mesh F) j) = [0]"
  "ch_ws_ok (ms_nodes (talk_mesh F) j) ws" "ch_shown (ms_nodes (talk_mesh F) j) ws = []"
  by (simp_all add: talk_mesh_def talker_def listener_def chat_node_def)

lemma strip_hi: "strip (get_or [] (Some ''hi'')) = ''hi''"
  by (simp add: strip_def is_space_def)

theorem gossip_terminates_witness:
  "\<not> (\<exists>Ms. Ms 0 = talk_mesh {# (1, 0, hi) #} \<and> (\<forall>n. mesh_step talk_env hd talk_wire (Ms n) (Ms (Suc n))))"
proof (rule gossip_terminates [OF talk_env_ok(1)])
  show "gossip_room (ne_codec talk_env) talk_wire {1} {''1''} (talk_mesh {# (1, 0, hi) #})"
    using talk_env_ok(2)
    by (simp add: gossip_room_def talk_wire_def MAX_SEEN_def) (simp add: talk_mesh_def hi_def said_msg_def str_field_def)
qed

theorem gossip_delivers_witness:
  "\<exists>M'. (mesh_step talk_env hd talk_wire)\<^sup>*\<^sup>* (mesh_say talk_env hd talk_wire 0 0 ''1'' (Some ''hi'') (talk_mesh {#})) M' \<and>
     ch_shown (ms_nodes M' 0) 0 = [said_payload 0 ''1'' ''hi'' ''local'' talker] \<and>
     ch_shown (ms_nodes M' 1) 0 = [said_payload 0 ''1'' ''hi'' ''peer'' talker]"
proof -
  have t: "ms_nodes (talk_mesh {#}) 0 = talker" "ms_flight (talk_mesh {#}) = {#}" by (simp_all add: talk_mesh_def)
  have "reads_from talk_wire (talk_mesh {#}) 0 1"
    by (simp add: reads_from_def link_at_def talk_mesh_def talker_def listener_def talk_wire_def chat_node_def)
  then have l: "(reads_from talk_wire (talk_mesh {#}))\<^sup>*\<^sup>* 0 1" "(reads_from talk_wire (talk_mesh {#}))\<^sup>*\<^sup>* 0 0" by auto
  have fit: "fits (ne_codec talk_env) (said_msg 0 ''1'' (strip (get_or [] (Some ''hi''))) (ms_nodes (talk_mesh {#}) 0))"
    unfolding t strip_hi using talk_env_ok(2) by (simp add: hi_def)
  have wires: "\<forall>i h j g. talk_wire i h = Some (j, g) \<longrightarrow> j \<in> {1}" by (simp add: talk_wire_def)
  have fresh: "\<forall>j. length (ch_seen (ms_nodes (talk_mesh {#}) j)) < MAX_SEEN \<and> ''1'' \<notin> set (ch_seen (ms_nodes (talk_mesh {#}) j)) \<and>
      distinct (ch_active (ms_nodes (talk_mesh {#}) j))" by (simp add: MAX_SEEN_def)
  have ne: "strip (get_or [] (Some ''hi'')) \<noteq> []" unfolding strip_hi by simp
  note d = gossip_delivers [OF talk_env_ok(1) t(2) _ wires fresh ne fit, of hd, unfolded t(1) strip_hi]
  then obtain M' where M': "(mesh_step talk_env hd talk_wire)\<^sup>*\<^sup>* (mesh_say talk_env hd talk_wire 0 0 ''1'' (Some ''hi'') (talk_mesh {#})) M'"
      "\<not> (\<exists>M''. mesh_step talk_env hd talk_wire M' M'')" by auto
  have "ch_shown (ms_nodes M' b) 0 = [said_payload 0 ''1'' ''hi'' (if b = 0 then ''local'' else ''peer'') talker]"
    if "(reads_from talk_wire (talk_mesh {#}))\<^sup>*\<^sup>* 0 b" for b
    using conjunct2 [OF d] M' that by auto
  from this [OF l(1)] this [OF l(2)] show ?thesis using M'(1) by auto
qed

text \<open>The first dial of a fresh node, answered.\<close>

definition ack_reply :: "message option" where
  "ack_reply = Some (handshake_fields ''HANDSHAKE_ACK'' (fresh_net ''bb''))"

definition dial_env :: net_env where
  "dial_env = two_node_env\<lparr>ne_codec := table_codec
     [auth_handshake_msg (ne_hmac two_node_env) ''aa'' (ne_swarm_key two_node_env), handshake_fields ''HANDSHAKE'' chat_node, hi]\<rparr>"

lemma dial_env_ok:
  "codec_ok (ne_codec dial_env)" "fits (ne_codec dial_env) (auth_handshake_msg (ne_hmac dial_env) ''aa'' (ne_swarm_key dial_env))"
  "fits (ne_codec dial_env) (handshake_fields ''HANDSHAKE'' chat_node)" "fits (ne_codec dial_env) hi"
  using table_codec_fits [of 0 "[auth_handshake_msg (ne_hmac two_node_env) ''aa'' (ne_swarm_key two_node_env),
      handshake_fields ''HANDSHAKE'' chat_node, hi]"]
    table_codec_fits [of 1 "[auth_handshake_msg (ne_hmac two_node_env) ''aa'' (ne_swarm_key two_node_env),
      handshake_fields ''HANDSHAKE'' chat_node, hi]"]
    table_codec_fits [of 2 "[auth_handshake_msg (ne_hmac two_node_env) ''aa'' (ne_swarm_key two_node_env),
      handshake_fields ''HANDSHAKE'' chat_node, hi]"]
  by (simp_all add: dial_env_def table_codec_ok)

lemma chat_node_dials: "\<exists>S'. dial_peer dial_env (\<lambda>ip port. Some ack_reply) 0 ''10.0.0.2'' 50001 chat_node = (Inr (Some 0), S')"
proof -
  let ?S = "chat_node\<lparr>nn_next := 1, nt_open := (nt_open chat_node)(0 := True)\<rparr>"
  obtain f1 where f1: "send_frame (ne_codec dial_env) (auth_handshake_msg (ne_hmac dial_env) ''aa'' (ne_swarm_key dial_env)) = Inr f1"
    using fits_frame [OF dial_env_ok(2)] by (elim exE)
  obtain f2 where f2: "send_frame (ne_codec dial_env) (handshake_fields ''HANDSHAKE'' ?S) = Inr f2"
    using fits_frame [OF dial_env_ok(3)] by (elim exE) (simp add: handshake_fields_def)
  have n: "ns_node_id (nt_node ?S) = ''aa''" "nn_next chat_node = 0" by (simp_all add: chat_node_def new_node_state_def)
  have "connect_to_peer dial_env 0 (Some (0, Some (handshake_fields ''HANDSHAKE_ACK'' (fresh_net ''bb'')))) ''10.0.0.2'' 50001 ?S =
      (Inr (Some 0), (register_conn 0 (ns_node_id (nt_node (fresh_net ''bb''))) 0 (peer_of_handshake 0 ''10.0.0.2'' (fresh_net ''bb'')) ?S)
        \<lparr>nt_written := (nt_written ?S)(0 := nt_written ?S 0 @ f1 @ f2)\<rparr>)"
    by (rule connect_handshake) (use f1 f2 n in simp_all)
  then show ?thesis by (simp add: dial_peer_def ack_reply_def n(2))
qed

text \<open>A chat message on the connection that node 0 has dialled, where a sender's listener reads.\<close>

theorem dialled_link_unhandled_witness:
  "\<exists>S' (M' :: mesh). dial_peer dial_env (\<lambda>ip port. Some ack_reply) 0 ''10.0.0.2'' 50001 chat_node = (Inr (Some 0), S') \<and>
     mesh_step dial_env hd talk_wire
       \<lparr>ms_nodes = (\<lambda>j. if j = 0 then S' else listener), ms_flight = {# (0, 0, hi) #}, ms_ackers = {(0, 0)}, ms_acks = []\<rparr> M' \<and>
     ms_flight M' = {#} \<and> nn_clients S' 0 = None \<and> ms_nodes M' 0 = S' \<and> ms_nodes M' 1 = listener \<and> ms_acks M' = []"
proof -
  obtain S' where S': "dial_peer dial_env (\<lambda>ip port. Some ack_reply) 0 ''10.0.0.2'' 50001 chat_node = (Inr (Some 0), S')"
    using chat_node_dials by (elim exE)
  let ?M = "\<lparr>ms_nodes = (\<lambda>j. if j = 0 then S' else listener), ms_flight = {# (0, 0, hi) #}, ms_ackers = {(0, 0)}, ms_acks = []\<rparr> :: mesh"
  have reach: "net_reachable dial_env hd chat_node"
    by (auto simp: net_reachable_def net_started_def chat_node_def intro!: exI [of _ chat_node])
  have "nn_clients chat_node (nn_next chat_node) = None" by (simp add: chat_node_def)
  then have none: "nn_clients (ms_nodes ?M 0) 0 = None" using dialled_handle [OF S'] by simp
  have "\<exists>M'. mesh_step dial_env hd talk_wire ?M M' \<and> ms_flight M' = {#}"
    by (rule exI, rule conjI, rule listens [where j = 0 and g = 0 and m = hi and F = "{#}"]) (use none in simp_all)
  then obtain M' where M': "mesh_step dial_env hd talk_wire ?M M'" "ms_flight M' = {#}" by (elim exE conjE)
  have hi: "\<not> has_type MSG_CHUNK_ACK hi" by (simp add: hi_def said_msg_def chat_msg_def build_message_def has_type_def MSG_CHUNK_ACK_def MSG_CHAT_def)
  have "nn_clients (ms_nodes ?M 0) 0 = None \<and> (\<forall>m. count (ms_flight M') (0, 0, m) < count (ms_flight ?M) (0, 0, m) \<longrightarrow>
      (0, 0) \<in> ms_ackers ?M \<and> ms_nodes M' = ms_nodes ?M \<and> ms_flight ?M = add_mset (0, 0, m) (ms_flight M') \<and>
      (\<not> has_type MSG_CHUNK_ACK m \<longrightarrow> ms_acks M' = ms_acks ?M))"
    by (rule dialled_link_unhandled [OF reach S' _ M'(1)]) simp
  from conjunct2 [OF this, THEN spec [of _ hi]] have "ms_nodes M' = ms_nodes ?M" "ms_acks M' = []" using M'(2) hi by simp_all
  then show ?thesis using S' M' none by (intro exI [of _ S'] exI [of _ M']) simp
qed

definition full_node :: node_net where
  "full_node = chat_node\<lparr>nt_connections := [(''bb'', 0)], nn_next := 2, ch_seen := replicate 500 ''0'',
     nn_clients := [1 \<mapsto> \<lparr>cl_conn = 1, cl_ip = ''10.0.0.1'', cl_phase = InLoop, cl_peer_id = ''aa''\<rparr>]\<rparr>"

definition ring_wire :: wiring where
  "ring_wire i h = (if h = 0 then Some (1 - i, 1) else None)"

theorem full_memory_gossip_loops_witness:
  "\<exists>Ms. Ms 0 = \<lparr>ms_nodes = (\<lambda>i. full_node), ms_flight = {# (1, 1, hi) #}, ms_ackers = {}, ms_acks = []\<rparr> \<and>
     (\<forall>n. mesh_step talk_env hd ring_wire (Ms n) (Ms (Suc n)))"
proof (rule full_memory_gossip_loops [OF talk_env_ok(1) talk_env_ok(2) [unfolded hi_def]])
  show "link_at ring_wire \<lparr>ms_nodes = (\<lambda>i. full_node), ms_flight = {# (1, 1, hi) #}, ms_ackers = {}, ms_acks = []\<rparr> 0 1 1"
    "link_at ring_wire \<lparr>ms_nodes = (\<lambda>i. full_node), ms_flight = {# (1, 1, hi) #}, ms_ackers = {}, ms_acks = []\<rparr> 1 0 1"
    by (auto simp: link_at_def full_node_def ring_wire_def chat_node_def)
qed (simp_all add: full_node_def chat_node_def MAX_SEEN_def hi_def)

definition announcer :: node_net where
  "announcer = chat_node\<lparr>nt_node := nt_node hello_sender, nt_api_port := 8007\<rparr>"

definition meet_env :: net_env where
  "meet_env = two_node_env\<lparr>ne_codec := table_codec
     [auth_handshake_msg (ne_hmac two_node_env) ''aa'' (ne_swarm_key two_node_env), handshake_fields ''HANDSHAKE'' chat_node,
      handshake_fields ''HANDSHAKE_ACK'' announcer]\<rparr>"

lemma meet_env_ok:
  "codec_ok (ne_codec meet_env)" "fits (ne_codec meet_env) (auth_handshake_msg (ne_hmac meet_env) ''aa'' (ne_swarm_key meet_env))"
  "fits (ne_codec meet_env) (handshake_fields ''HANDSHAKE'' chat_node)"
  "fits (ne_codec meet_env) (handshake_fields ''HANDSHAKE_ACK'' announcer)"
  using table_codec_fits [of 0 "[auth_handshake_msg (ne_hmac two_node_env) ''aa'' (ne_swarm_key two_node_env),
      handshake_fields ''HANDSHAKE'' chat_node, handshake_fields ''HANDSHAKE_ACK'' announcer]"]
    table_codec_fits [of 1 "[auth_handshake_msg (ne_hmac two_node_env) ''aa'' (ne_swarm_key two_node_env),
      handshake_fields ''HANDSHAKE'' chat_node, handshake_fields ''HANDSHAKE_ACK'' announcer]"]
    table_codec_fits [of 2 "[auth_handshake_msg (ne_hmac two_node_env) ''aa'' (ne_swarm_key two_node_env),
      handshake_fields ''HANDSHAKE'' chat_node, handshake_fields ''HANDSHAKE_ACK'' announcer]"]
  by (simp_all add: meet_env_def table_codec_ok)

theorem discovery_connects_witness:
  "\<exists>B1 B2 ack. datagram_received hello_env 10 (build_hello hello_env 9 idle_health announcer) ''10.0.0.7'' chat_node = (Inr (), B1) \<and>
     connector_round meet_env (answers_at ''10.0.0.7'' 50007 (Some ack)) 15 12 B1 = (Inr (), B2) \<and>
     dict_get (nt_connections B2) ''n7'' = Some 0"
proof -
  have ids: "ns_node_id (nt_node announcer) = ''n7''" "ns_tcp_port (nt_node announcer) = 50007"
    "ns_node_id (nt_node chat_node) = ''aa''" "nn_next chat_node = 0"
    by (simp_all add: announcer_def hello_sender_def chat_node_def new_node_state_def)
  have reads: "reads_back (dc_orjson hello_env) (hello_wrapper hello_env (hello_payload 9 idle_health announcer))"
    using hello_env_reads_back by (simp add: hello_payload_def announcer_def hello_sender_def)
  have "\<exists>B1 B2 A' cl ack. datagram_received hello_env 10 (build_hello hello_env 9 idle_health announcer) ''10.0.0.7'' chat_node = (Inr (), B1) \<and>
     connector_round meet_env (answers_at ''10.0.0.7'' (ns_tcp_port (nt_node announcer)) (Some ack)) 15 12 B1 = (Inr (), B2) \<and>
     client_feed meet_env default_handler 12 (message_loop (ne_codec meet_env) (nt_written B2 (nn_next chat_node))) (new_client 0 ''10.0.0.2'') announcer = (cl, A') \<and>
     message_loop (ne_codec meet_env) (nt_written A' 0) = [ack] \<and> cl_phase cl = InLoop \<and>
     dict_get (nt_connections B2) (ns_node_id (nt_node announcer)) = Some (nn_next chat_node) \<and>
     dict_get (nt_connections A') (ns_node_id (nt_node chat_node)) = Some 0"
    by (rule discovery_connects [OF meet_env_ok(1) reads])
      (use meet_env_ok in \<open>simp_all add: ids\<close>, simp_all add: hello_env_def chat_node_def new_node_state_def announcer_def)
  then show ?thesis unfolding ids by blast
qed

end
