(* ===== verification/Swarm.thy ===== *)
theory Swarm
  imports Api
begin

section \<open>Nodes that serve each other (the HTTP endpoints together)\<close>

text \<open>
  The \<open>peer_net\<close> of the handlers is what other nodes answer. Here it is the other nodes themselves:
  \<open>serves ip port\<close> is the node whose HTTP server listens there, and a request to it is answered by its
  own handlers. The nodes that answer do not change in the meantime, apart from the access times of their chunks.
\<close>

type_synonym addresses = "string \<Rightarrow> int \<Rightarrow> api_world option"

definition ok_body :: "'a res \<Rightarrow> 'a option" where
  "ok_body r = (case r of Inr x \<Rightarrow> Some x | Inl e \<Rightarrow> None)"

definition no_peers :: peer_net where
  "no_peers = \<lparr>pn_chunk = (\<lambda>n p h. None), pn_manifest = (\<lambda>n p h. None), pn_files = (\<lambda>n p. None)\<rparr>"

definition node_at :: "addresses \<Rightarrow> peer_info \<Rightarrow> api_world option" where
  "node_at serves p = serves (pi_ip p) (pi_api_port p)"

definition swarm_net :: "addresses \<Rightarrow> peer_net" where
  "swarm_net serves =
     \<lparr>pn_chunk = (\<lambda>n p h. Option.bind (node_at serves p) (\<lambda>v. ok_body (fst (get_chunk h (aw_store v))))),
      pn_manifest = (\<lambda>n p fh. Option.bind (node_at serves p) (\<lambda>v. ok_body (get_manifest fh (aw_store v)))),
      pn_files = (\<lambda>n p. map_option (\<lambda>v. fst (list_files no_peers True v)) (node_at serves p))\<rparr>"

lemma swarm_net_chunk: "pn_chunk (swarm_net serves) n p h = Option.bind (node_at serves p) (\<lambda>v. world_chunks v h)"
proof (cases "node_at serves p")
  case (Some v)
  then show ?thesis
    using load_chunk_value [of "aw_store v" h]
    by (cases "load_chunk (aw_store v) h")
      (auto simp: swarm_net_def get_chunk_def world_chunks_def ok_body_def split: option.split)
qed (simp add: swarm_net_def)

lemma swarm_net_manifest:
  "pn_manifest (swarm_net serves) n p fh = Option.bind (node_at serves p) (\<lambda>v. load_manifest (aw_store v) fh)"
  by (cases "node_at serves p") (auto simp: swarm_net_def get_manifest_def ok_body_def split: option.split)

subsection \<open>Fetching from honest peers\<close>

lemma fetch_honest:
  assumes "honest L net_chunk (alive_peers w) es" and "clean L es w"
    and "set ds \<subseteq> set es" and "map ci_hash infos = map (sha256 L) ds"
  shows "\<exists>w'. fetch_chunks (chunk_loader net_chunk missing) infos w = (Inr ds, w') \<and> clean L es w' \<and>
     (\<forall>e \<in> set es. e \<in> set ds \<or> world_chunks w (sha256 L e) = Some e \<longrightarrow> world_chunks w' (sha256 L e) = Some e)"
  using assms
proof (induction ds arbitrary: infos w)
  case (Cons d ds)
  then obtain info rest where infos: "infos = info # rest" "ci_hash info = sha256 L d" "map ci_hash rest = map (sha256 L) ds"
    by (cases infos) auto
  have d: "d \<in> set es" using Cons.prems(3) by simp
  let ?w = "snd (chunk_loader net_chunk missing (sha256 L d) w)"
  note l = loader_honest [OF Cons.prems(1,2) d, of missing]
  obtain W where load: "chunk_loader net_chunk missing (sha256 L d) w = (Inr d, W)"
    using l(1) by (cases "chunk_loader net_chunk missing (sha256 L d) w") simp
  have "honest L net_chunk (alive_peers ?w) es" using Cons.prems(1) by (simp add: loader_alive)
  moreover have "clean L es ?w" by (rule l(2))
  ultimately obtain w' where w': "fetch_chunks (chunk_loader net_chunk missing) rest ?w = (Inr ds, w')" "clean L es w'"
    "\<forall>e \<in> set es. e \<in> set ds \<or> world_chunks ?w (sha256 L e) = Some e \<longrightarrow> world_chunks w' (sha256 L e) = Some e"
    using Cons.IH [of ?w rest] Cons.prems(3) infos(3) by auto
  have "world_chunks w' (sha256 L e) = Some e"
    if e: "e \<in> set es" "e \<in> set (d # ds) \<or> world_chunks w (sha256 L e) = Some e" for e
  proof -
    have "e \<in> set ds \<or> world_chunks ?w (sha256 L e) = Some e"
      using e(2) l(3) world_source.load_keep [of w "sha256 L e" e] by auto
    then show ?thesis using w'(3) e(1) by blast
  qed
  moreover have "fetch_chunks (chunk_loader net_chunk missing) infos w = (Inr (d # ds), w')"
    using w'(1) infos(1,2) by (simp add: load)
  ultimately show ?case using w'(2) by blast
qed simp

lemma stored_dict_idem: "stored_dict fh (stored_dict fh d) = stored_dict fh d"
  by (simp add: stored_dict_def)

text \<open>A found manifest of a peer is kept under its hash.\<close>

lemma fetch_manifest_peer:
  assumes "load_manifest (aw_store w) fh = None"
    and "\<forall>(nid, p) \<in> set (alive_peers w). \<forall>n. pn_manifest P n p fh \<in> {None, Some d}"
    and "\<exists>(nid, p) \<in> set (alive_peers w). \<forall>n. pn_manifest P n p fh = Some d" and "\<not> empty_dict d"
  shows "\<exists>k. fetch_manifest P fh w = (Some d, w\<lparr>aw_store := snd (save_manifest fh d (aw_store w)), aw_requests := k\<rparr>)"
proof -
  have "fst (ask_peers (\<lambda>n p. pn_manifest P n p fh) (alive_peers w) (aw_requests w)) = Some d"
    by (rule ask_peers_honest [OF assms(2,3)])
  then obtain k where "ask_peers (\<lambda>n p. pn_manifest P n p fh) (alive_peers w) (aw_requests w) = (Some d, k)"
    by (cases "ask_peers (\<lambda>n p. pn_manifest P n p fh) (alive_peers w) (aw_requests w)") simp
  then show ?thesis using assms(1,4) by (auto simp: fetch_manifest_def)
qed

subsection \<open>A file uploaded on one node and downloaded on another\<close>

text \<open>What an upload leaves in the store of its node, as the others will read it.\<close>

lemma upload_served:
  assumes "lib_ok L" and "0 \<le> re_k R" and "CHR ''/'' \<notin> set filename"
    and "upload_file L R round2 tmp_dir filename content password fs r S = (Inr resp, fs', r', S')"
    and "es = uploaded_chunks L tmp_dir filename content password fs r" and "\<not> collision_in L (set es)"
  obtains m d where "stored_file L (optional_password password) content es m" and "original_filename m = filename"
    and "from_dict L d = Inr (m\<lparr>file_hash := sha256 L content\<rparr>)" and "\<not> empty_dict d" and "stored_dict (ur_file_hash resp) d = d"
    and "load_manifest (rp_store S') (ur_file_hash resp) = Some d"
    and "\<forall>e \<in> set es. chunk_view (rp_store S') (sha256 L e) = Some e"
proof -
  obtain m where m: "stored_file L (optional_password password) content es m" and name: "original_filename m = filename"
    and fh: "ur_file_hash resp = file_hash m" and view: "\<forall>e \<in> set es. chunk_view (rp_store S') (sha256 L e) = Some e"
    and load: "load_manifest (rp_store S') (file_hash m) = Some (stored_dict (file_hash m) (to_dict m))"
    by (rule upload_stored [OF assms(1-4) assms(6) [unfolded assms(5)] assms(5)])
  let ?fh = "file_hash m"
  let ?d = "stored_dict ?fh (to_dict m)" and ?m = "m\<lparr>chunk_size := DEFAULT_CHUNK_SIZE\<rparr>"
  have m': "stored_file L (optional_password password) content es ?m" by (rule stored_file_chunk_size [OF m])
  have "?fh = sha256 L content" using stored_file_opens [OF m] by blast
  then have "m\<lparr>file_hash := sha256 L content\<rparr> = m" "?m\<lparr>file_hash := sha256 L content\<rparr> = ?m" by (cases m, simp)+
  then have "from_dict L ?d = Inr (?m\<lparr>file_hash := sha256 L content\<rparr>)"
    using stored_file_with_root [OF m'] by (simp add: from_stored_to_dict)
  moreover have "\<not> empty_dict ?d" by (simp add: empty_dict_def stored_dict_def to_dict_def)
  ultimately show thesis using that [of ?m ?d] m' name view load fh stored_dict_idem by simp
qed

lemma swarm_honest:
  assumes "(nid, q) \<in> set peers" and "node_at serves q = Some A" and "\<forall>e \<in> set es. world_chunks A (sha256 L e) = Some e"
    and "\<forall>(nid, p) \<in> set peers. \<forall>v. node_at serves p = Some v \<longrightarrow> v = A \<or> clean L es v"
  shows "honest L (pn_chunk (swarm_net serves)) peers es"
proof -
  have "world_chunks v (sha256 L e) \<in> {None, Some e}"
    if "(nid, p) \<in> set peers" "node_at serves p = Some v" "e \<in> set es" for nid p v e
    using assms(3,4) that by (fastforce simp: clean_def)
  then have "\<forall>(nid, p) \<in> set peers. \<forall>n. Option.bind (node_at serves p) (\<lambda>v. world_chunks v (sha256 L e)) \<in> {None, Some e}"
    if "e \<in> set es" for e using that by (fastforce split: bind_splits)
  moreover have "\<exists>(nid, q) \<in> set peers. \<forall>n. Option.bind (node_at serves q) (\<lambda>v. world_chunks v (sha256 L e)) = Some e"
    if "e \<in> set es" for e using that assms(2,3) by (intro bexI [OF _ assms(1)]) simp
  ultimately show ?thesis unfolding honest_def swarm_net_chunk by (intro ballI [where A = "set es"] conjI) assumption+
qed

text \<open>
  C3. A node delivers a file that was uploaded on another one. After a successful upload on a node
  \<open>A\<close>, let a node \<open>w\<close> that does not have the file know \<open>A\<close> as an alive peer; every other alive
  peer does not answer, or has no other manifest under the hash of the file and no other bytes under the hashes of its chunks.
  Then the download on \<open>w\<close> delivers the exact content and name. It keeps the manifest and the chunks:
  a second download delivers the file again, whatever has become of the peers. The exception is that
  two different chunks of the upload collide under SHA-256.
\<close>

theorem cross_node_download:
  assumes "lib_ok L" and "0 \<le> re_k R" and "CHR ''/'' \<notin> set filename"
    and "upload_file L R round2 tmp_dir filename content password fs r S = (Inr resp, fs', r', S')"
    and "A = \<lparr>aw_node = nt_node S', aw_store = rp_store S', aw_requests = k\<rparr>"
    and "es = uploaded_chunks L tmp_dir filename content password fs r"
    and "load_manifest (aw_store w) (ur_file_hash resp) = None" and "clean L es w"
    and "\<exists>(nid, p) \<in> set (alive_peers w). node_at serves p = Some A"
    and "\<forall>(nid, p) \<in> set (alive_peers w). \<forall>v. node_at serves p = Some v \<longrightarrow> v = A \<or>
       clean L es v \<and> load_manifest (aw_store v) (ur_file_hash resp) \<in> {None, load_manifest (aw_store A) (ur_file_hash resp)}"
  shows "collision_in L (set es) \<or>
     (\<exists>w'. download_file L (swarm_net serves) (ur_file_hash resp) password temp gs w =
        (Inr \<lparr>fr_content = content, fr_filename = filename\<rparr>, gs(temp := None), w') \<and>
        (\<exists>w''. download_file L P (ur_file_hash resp) password temp' gs' w' =
           (Inr \<lparr>fr_content = content, fr_filename = filename\<rparr>, gs'(temp' := None), w'')))"
proof (cases "collision_in L (set es)")
  case False
  let ?P = "swarm_net serves" and ?fh = "ur_file_hash resp"
  obtain m d where m: "stored_file L (optional_password password) content es m" "original_filename m = filename"
    and d: "from_dict L d = Inr (m\<lparr>file_hash := sha256 L content\<rparr>)" "\<not> empty_dict d" "stored_dict ?fh d = d"
    and load: "load_manifest (rp_store S') ?fh = Some d" and view: "\<forall>e \<in> set es. chunk_view (rp_store S') (sha256 L e) = Some e"
    by (rule upload_served [OF assms(1-4,6) False])
  have A: "load_manifest (aw_store A) ?fh = Some d" "\<forall>e \<in> set es. world_chunks A (sha256 L e) = Some e"
    using load view assms(5) by (simp_all add: world_chunks_def)
  obtain nid q where q: "(nid, q) \<in> set (alive_peers w)" "node_at serves q = Some A" using assms(9) by auto
  have serve: "\<forall>(nid, p) \<in> set (alive_peers w). \<forall>n. pn_manifest ?P n p ?fh \<in> {None, Some d}"
    using assms(10) A(1) by (fastforce simp: swarm_net_manifest split: bind_splits)
  have some: "\<exists>(nid, p) \<in> set (alive_peers w). \<forall>n. pn_manifest ?P n p ?fh = Some d"
    using q A(1) by (intro bexI [OF _ q(1)]) (simp add: swarm_net_manifest)
  obtain k where found: "fetch_manifest ?P ?fh w =
      (Some d, w\<lparr>aw_store := snd (save_manifest ?fh d (aw_store w)), aw_requests := k\<rparr>)"
    using fetch_manifest_peer [OF assms(7) serve some d(2)] by blast
  define w1 where "w1 = w\<lparr>aw_store := snd (save_manifest ?fh d (aw_store w)), aw_requests := k\<rparr>"
  have w1: "alive_peers w1 = alive_peers w" "world_chunks w1 = world_chunks w"
    by (simp add: w1_def alive_peers_def save_manifest_def, rule ext, simp add: w1_def world_chunks_def)
  have hon: "honest L (pn_chunk ?P) (alive_peers w1) es"
    using swarm_honest [OF q A(2)] assms(10) by (auto simp: w1(1))
  have "clean L es w1" using assms(8) by (simp add: clean_def w1(2))
  then obtain w2 where fetch: "fetch_chunks (chunk_loader (pn_chunk ?P) nowhere) (chunks m) w1 = (Inr es, w2)"
    and kept: "\<forall>e \<in> set es. world_chunks w2 (sha256 L e) = Some e"
    using fetch_honest [OF hon, of es "chunks m"] stored_file_indices(3) [OF m(1)] by blast
  have first: "download_file L ?P ?fh password temp gs w =
      (Inr \<lparr>fr_content = content, fr_filename = filename\<rparr>, gs(temp := None), w2)"
    using download_fetched [OF m(1) found d(1) fetch [unfolded w1_def], of temp gs] m(2) by simp
  have "load_manifest (aw_store w2) ?fh = Some d"
    using fetch_chunks_db [OF fetch] d(3) by (simp add: w1_def load_manifest_def save_manifest_def manifests.get_put)
  then have found2: "fetch_manifest P ?fh w2 = (Some d, w2)" by (simp add: fetch_manifest_def)
  show ?thesis using first download_stored [OF m(1) kept found2 d(1), of temp' gs'] m(2) by auto
qed simp

text \<open>The upload of the example, downloaded by a node that is empty and knows one peer.\<close>

definition empty_world :: api_world where
  "empty_world = example_world\<lparr>aw_store := (aw_store example_world)\<lparr>ls_files := []\<rparr>\<rparr>"

theorem cross_node_download_witness:
  "\<exists>(resp :: upload_response) (S' :: repl_state) (A :: api_world) w' w''.
     A = \<lparr>aw_node = nt_node S', aw_store = rp_store S', aw_requests = 0\<rparr> \<and>
     download_file ref_lib (swarm_net (\<lambda>ip port. Some A)) (ur_file_hash resp) ''pw'' ''t'' Map.empty empty_world =
       (Inr \<lparr>fr_content = [1, 2, 3], fr_filename = ''a.txt''\<rparr>, Map.empty(''t'' := None), w') \<and>
     download_file ref_lib no_peers (ur_file_hash resp) ''pw'' ''t'' Map.empty w' =
       (Inr \<lparr>fr_content = [1, 2, 3], fr_filename = ''a.txt''\<rparr>, Map.empty(''t'' := None), w'')"
proof -
  obtain resp fs' r1 S' where u: "upload_file ref_lib example_engine id ''/tmp'' ''a.txt'' [1, 2, 3] ''pw'' Map.empty ((\<lambda>i. 0), 0)
     (pair_state\<lparr>nt_node := (nt_node pair_state)\<lparr>ns_peers := []\<rparr>\<rparr>) = (Inr resp, fs', r1, S')"
    using example_upload by blast
  let ?es = "uploaded_chunks ref_lib ''/tmp'' ''a.txt'' [1, 2, 3] ''pw'' Map.empty ((\<lambda>i. 0), 0)"
  let ?A = "\<lparr>aw_node = nt_node S', aw_store = rp_store S', aw_requests = 0\<rparr>"
  have alive: "alive_peers empty_world = [(''n1'', example_peer\<lparr>pi_last_seen := 4\<rparr>)]"
    using example_alive by (simp add: empty_world_def alive_peers_def)
  have "load_manifest (aw_store empty_world) (ur_file_hash resp) = None"
    by (simp add: empty_world_def example_world_def example_store_def load_manifest_def empty_db_def get_manifest_sync_def)
  moreover have "clean ref_lib ?es empty_world"
    by (simp add: clean_def empty_world_def world_chunks_def chunk_view_def)
  moreover have "\<exists>(nid, p) \<in> set (alive_peers empty_world). node_at (\<lambda>ip port. Some ?A) p = Some ?A"
    by (simp add: alive node_at_def)
  moreover have "\<forall>(nid, p) \<in> set (alive_peers empty_world). \<forall>v. node_at (\<lambda>ip port. Some ?A) p = Some v \<longrightarrow> v = ?A \<or>
      clean ref_lib ?es v \<and> load_manifest (aw_store v) (ur_file_hash resp) \<in> {None, load_manifest (aw_store ?A) (ur_file_hash resp)}"
    by (simp add: node_at_def)
  ultimately show ?thesis
    using cross_node_download [OF ref_lib_ok example_upload_args u, of ?A 0 ?es empty_world "\<lambda>ip port. Some ?A"
        "''t''" Map.empty no_peers "''t''" Map.empty] example_no_collision by blast
qed

end
