(* ===== verification/StoreSpec.thy ===== *)
theory StoreSpec
  imports Eviction
begin

section \<open>What the chunk store promises\<close>

text \<open>
  The contract of the chunk store: a finite map from chunk hashes to bytes. The requests are the operations of
  \<^verbatim>\<open>LocalStore\<close> and the passing of time; \<open>map_step\<close> says, without files and access times, which answers
  and which new maps they may give. An eviction may choose its victims: it may only pick chunks that can be
  deleted, has to report their bytes, and has to reach its goal or delete all it can.
\<close>

datatype store_request =
    SaveChunk string bytes
  | LoadChunk string
  | HasChunk string
  | DeleteChunk string
  | ListChunks
  | EvictChunks int
  | ClockAt real

datatype store_answer =
    Saved
  | Loaded "bytes option"
  | Present bool
  | Deleted "bool res"
  | Listed "string list"
  | Evicted nat
  | Ticked

inductive map_step ::
    "(string \<Rightarrow> bool) \<Rightarrow> store_request \<Rightarrow> (string \<rightharpoonup> bytes) \<Rightarrow> store_answer \<Rightarrow> (string \<rightharpoonup> bytes) \<Rightarrow> bool"
  for stuck :: "string \<Rightarrow> bool" where
  saves: "map_step stuck (SaveChunk h d) m Saved (m(h \<mapsto> d))"
| loads: "map_step stuck (LoadChunk h) m (Loaded (m h)) m"
| has: "map_step stuck (HasChunk h) m (Present (h \<in> dom m)) m"
| deletes: "h \<in> dom m \<Longrightarrow> \<not> stuck h \<Longrightarrow> map_step stuck (DeleteChunk h) m (Deleted (Inr True)) (m(h := None))"
| refuses: "h \<in> dom m \<Longrightarrow> stuck h \<Longrightarrow> map_step stuck (DeleteChunk h) m (Deleted (Inl OSError)) m"
| misses: "h \<notin> dom m \<Longrightarrow> map_step stuck (DeleteChunk h) m (Deleted (Inr False)) m"
| lists: "distinct hs \<Longrightarrow> set hs = dom m \<Longrightarrow> map_step stuck ListChunks m (Listed hs) m"
| evicts: "H \<subseteq> dom m \<Longrightarrow> \<forall>h \<in> H. \<not> stuck h \<Longrightarrow> freed = (\<Sum>h \<in> H. length (the (m h))) \<Longrightarrow>
     goal \<le> int freed \<or> H = {h \<in> dom m. \<not> stuck h} \<Longrightarrow>
     map_step stuck (EvictChunks goal) m (Evicted freed) (m |` (- H))"
| ticks: "map_step stuck (ClockAt t) m Ticked m"

text \<open>The store answers the same requests.\<close>

fun serve :: "store_request \<Rightarrow> local_store \<Rightarrow> store_answer \<times> local_store" where
  "serve (SaveChunk h d) st = (Saved, save_chunk h d st)"
| "serve (LoadChunk h) st = (let (d, st') = load_chunk st h in (Loaded d, st'))"
| "serve (HasChunk h) st = (Present (has_chunk st h), st)"
| "serve (DeleteChunk h) st = (let (r, st') = delete_chunk h st in (Deleted r, st'))"
| "serve ListChunks st = (Listed (list_chunks st), st)"
| "serve (EvictChunks goal) st = (let (freed, st') = evict_oldest_chunks goal st in (Evicted freed, st'))"
| "serve (ClockAt t) st = (Ticked, st\<lparr>ls_now := t\<rparr>)"

fun serve_all :: "store_request list \<Rightarrow> local_store \<Rightarrow> store_answer list \<times> local_store" where
  "serve_all [] st = ([], st)"
| "serve_all (q # qs) st = (let (a, st1) = serve q st; (as, st2) = serve_all qs st1 in (a # as, st2))"

inductive map_run ::
    "(string \<Rightarrow> bool) \<Rightarrow> store_request list \<Rightarrow> (string \<rightharpoonup> bytes) \<Rightarrow> store_answer list \<Rightarrow> (string \<rightharpoonup> bytes) \<Rightarrow> bool"
  for stuck :: "string \<Rightarrow> bool" where
  run_end: "map_run stuck [] m [] m"
| run_step: "map_step stuck q m a m1 \<Longrightarrow> map_run stuck qs m1 as m2 \<Longrightarrow> map_run stuck (q # qs) m (a # as) m2"

subsection \<open>Well-formed directories\<close>

text \<open>Chunk files have the name of a hash; a hexadecimal digest has no underscore.\<close>

definition plain_hash :: "string \<Rightarrow> bool" where
  "plain_hash h \<longleftrightarrow> CHR ''_'' \<notin> set h"

definition chunk_dir :: "local_store \<Rightarrow> bool" where
  "chunk_dir st \<longleftrightarrow> store_ok st \<and>
     (\<forall>n \<in> fst ` set (ls_files st). is_chunk_name n \<longrightarrow> (\<exists>h. plain_hash h \<and> n = chunk_filename h))"

fun plain_request :: "store_request \<Rightarrow> bool" where
  "plain_request (SaveChunk h d) = plain_hash h"
| "plain_request _ = True"

definition stuck_chunk :: "local_store \<Rightarrow> string \<Rightarrow> bool" where
  "stuck_chunk st h = ls_locked st (chunk_filename h)"

lemma dom_chunk_view: "h \<in> dom (chunk_view st) \<longleftrightarrow> chunk_filename h \<in> fst ` set (ls_files st)"
  by (simp add: chunk_view_def dom_map_of_conv_image_fst [symmetric] dom_def)

lemma chunk_dir_mono: "chunk_dir st \<Longrightarrow> store_ok st' \<Longrightarrow> fst ` set (ls_files st') \<subseteq> fst ` set (ls_files st) \<Longrightarrow> chunk_dir st'"
  unfolding chunk_dir_def by (meson subsetD)

lemma listed_chunks:
  assumes "chunk_dir st"
  shows "distinct (list_chunks st) \<and> set (list_chunks st) = dom (chunk_view st)"
proof -
  let ?hash = "\<lambda>n. str_remove ''chunk_'' (path_stem n)"
  have name: "chunk_filename (?hash n) = n" if "n \<in> fst ` set (ls_files st)" "is_chunk_name n" for n
    using assms that chunk_listed by (auto simp: chunk_dir_def plain_hash_def)
  have "distinct (map fst (glob_chunks st))"
    using assms dict_ok_filter [of "ls_files st"] by (simp add: chunk_dir_def store_ok_def glob_chunks_def dict_ok_def)
  moreover have "inj_on ?hash (set (map fst (glob_chunks st)))"
    by (rule inj_on_inverseI [where g = chunk_filename]) (auto simp: glob_chunks_def intro!: name)
  ultimately have "distinct (map ?hash (map fst (glob_chunks st)))" by (simp only: distinct_map)
  moreover have "list_chunks st = map ?hash (map fst (glob_chunks st))"
    by (simp add: list_chunks_def case_prod_unfold)
  moreover have "set (list_chunks st) = dom (chunk_view st)"
  proof (intro equalityI subsetI)
    fix h assume "h \<in> set (list_chunks st)"
    then obtain n where "n \<in> fst ` set (ls_files st)" "is_chunk_name n" "h = ?hash n" by (auto simp: set_list_chunks)
    then show "h \<in> dom (chunk_view st)" using name by (simp add: dom_chunk_view)
  next
    fix h assume "h \<in> dom (chunk_view st)"
    then have "chunk_filename h \<in> fst ` set (ls_files st)" by (simp add: dom_chunk_view)
    then show "h \<in> set (list_chunks st)"
      using name [of "chunk_filename h"] unfolding set_list_chunks by (intro image_eqI [where x = "chunk_filename h"]) simp_all
  qed
  ultimately show ?thesis by simp
qed

subsection \<open>An eviction is a choice of victims\<close>

definition evicted_hashes :: "int \<Rightarrow> local_store \<Rightarrow> string set" where
  "evicted_hashes goal st = {h. chunk_filename h \<in> fst ` set (evicted goal st)}"

lemma evicted_hash:
  assumes "chunk_dir st" and "(n, f) \<in> set (evicted goal st)"
  shows "\<exists>h \<in> evicted_hashes goal st. n = chunk_filename h \<and> chunk_view st h = Some (fo_data f) \<and> \<not> stuck_chunk st h"
proof -
  have f: "(n, f) \<in> set (ls_files st)" "is_chunk_name n" "\<not> ls_locked st n"
    using evicted_deletable [OF assms(2)] by (simp_all add: set_deletable)
  then obtain h where h: "n = chunk_filename h" using assms(1) by (force simp: chunk_dir_def)
  have "chunk_view st h = Some (fo_data f)"
    using f(1) assms(1) dict_ok_get [of "ls_files st" n f] by (simp add: chunk_view_def h chunk_dir_def store_ok_def)
  moreover have "h \<in> evicted_hashes goal st" using assms(2) by (force simp: evicted_hashes_def h)
  ultimately show ?thesis using f(3) h by (auto simp: stuck_chunk_def)
qed

lemma evicted_hash_file:
  assumes "chunk_dir st" and "h \<in> evicted_hashes goal st"
  shows "\<exists>f. (chunk_filename h, f) \<in> set (evicted goal st) \<and> chunk_view st h = Some (fo_data f) \<and> \<not> stuck_chunk st h"
proof -
  obtain f where f: "(chunk_filename h, f) \<in> set (evicted goal st)" using assms(2) by (auto simp: evicted_hashes_def)
  then show ?thesis using evicted_hash [OF assms(1) f] by auto
qed

lemma bytes_of_evicted:
  assumes "chunk_dir st"
  shows "bytes_of (evicted goal st) = (\<Sum>h \<in> evicted_hashes goal st. length (the (chunk_view st h)))"
proof -
  have keys: "distinct (map fst (evicted goal st))" using assms by (intro evicted_ok) (simp add: chunk_dir_def)
  then have d: "distinct (evicted goal st)" by (simp add: distinct_map)
  let ?entry = "\<lambda>h. (chunk_filename h, the (map_of (evicted goal st) (chunk_filename h)))"
  have entry: "?entry h = (chunk_filename h, f)" if "(chunk_filename h, f) \<in> set (evicted goal st)" for h f
    using that keys by simp
  have "bij_betw ?entry (evicted_hashes goal st) (set (evicted goal st))"
  proof (rule bij_betw_imageI)
    show "inj_on ?entry (evicted_hashes goal st)" by (simp add: inj_on_def)
    show "?entry ` evicted_hashes goal st = set (evicted goal st)"
    proof (intro equalityI subsetI)
      fix x assume "x \<in> ?entry ` evicted_hashes goal st"
      then show "x \<in> set (evicted goal st)" using evicted_hash_file [OF assms] entry by fastforce
    next
      fix x assume x: "x \<in> set (evicted goal st)"
      obtain n f where nf: "x = (n, f)" by (cases x)
      obtain h where "h \<in> evicted_hashes goal st" "n = chunk_filename h"
        using evicted_hash [OF assms x [unfolded nf]] by blast
      then show "x \<in> ?entry ` evicted_hashes goal st" using entry [of h f] x nf by force
    qed
  qed
  then have "(\<Sum>h \<in> evicted_hashes goal st. length (fo_data (snd (?entry h)))) = (\<Sum>x \<in> set (evicted goal st). length (fo_data (snd x)))"
    by (rule sum.reindex_bij_betw)
  moreover have "length (fo_data (snd (?entry h))) = length (the (chunk_view st h))" if "h \<in> evicted_hashes goal st" for h
    using evicted_hash_file [OF assms that] entry by auto
  ultimately show ?thesis
    using sum_list_distinct_conv_sum_set [OF d, of "\<lambda>x. length (fo_data (snd x))"] by (simp add: bytes_of_def case_prod_unfold)
qed

lemma evict_map_step:
  assumes "chunk_dir st" and "evict_oldest_chunks goal st = (freed, st')"
  shows "map_step (stuck_chunk st) (EvictChunks goal) (chunk_view st) (Evicted freed) (chunk_view st')"
proof -
  let ?H = "evicted_hashes goal st"
  have "chunk_view st' = chunk_view st |` (- ?H)"
    using evict_get [of st goal] assms
    by (auto simp: chunk_dir_def chunk_view_def restrict_map_def evicted_hashes_def fun_eq_iff)
  moreover have "map_step (stuck_chunk st) (EvictChunks goal) (chunk_view st) (Evicted freed) (chunk_view st |` (- ?H))"
  proof (rule evicts)
    show "?H \<subseteq> dom (chunk_view st)" "\<forall>h \<in> ?H. \<not> stuck_chunk st h" using evicted_hash_file [OF assms(1)] by blast+
    have freed: "freed = bytes_of (evicted goal st)" using assms(2) by (simp add: evict_oldest_chunks_evicted)
    then show "freed = (\<Sum>h \<in> ?H. length (the (chunk_view st h)))" by (simp add: bytes_of_evicted [OF assms(1)])
    show "goal \<le> int freed \<or> ?H = {h \<in> dom (chunk_view st). \<not> stuck_chunk st h}"
    proof (cases "goal \<le> int freed")
      case False
      then have all: "set (deletable st) \<subseteq> set (evicted goal st)" using evicted_enough [of st goal] freed by blast
      have "h \<in> ?H" if h: "h \<in> dom (chunk_view st)" "\<not> stuck_chunk st h" for h
      proof -
        obtain f where "(chunk_filename h, f) \<in> set (ls_files st)" using h(1) by (auto simp: dom_chunk_view)
        then have "(chunk_filename h, f) \<in> set (deletable st)" using h(2) by (simp add: set_deletable stuck_chunk_def)
        then show ?thesis using all by (force simp: evicted_hashes_def)
      qed
      then have "?H = {h \<in> dom (chunk_view st). \<not> stuck_chunk st h}"
        using evicted_hash_file [OF assms(1), of _ goal] by blast
      then show ?thesis by simp
    qed simp
  qed
  ultimately show ?thesis by simp
qed

subsection \<open>The refinement\<close>

lemma load_chunk_names:
  "fst ` set (ls_files (snd (load_chunk st h))) = fst ` set (ls_files st)"
  by (auto simp: load_chunk_def Let_def dom_map_of_conv_image_fst [symmetric] update_conv' split: option.split)

lemma load_chunk_keeps: "store_ok st \<Longrightarrow> store_ok (snd (load_chunk st h))"
  by (auto simp: load_chunk_def store_ok_def Let_def split: option.split)

lemma delete_map_step:
  assumes "chunk_dir st" and "delete_chunk h st = (r, st')"
  shows "map_step (stuck_chunk st) (DeleteChunk h) (chunk_view st) (Deleted r) (chunk_view st') \<and> chunk_dir st' \<and>
     ls_locked st' = ls_locked st"
proof (cases "h \<in> dom (chunk_view st) \<and> \<not> stuck_chunk st h")
  case True
  then have f: "dict_get (ls_files st) (chunk_filename h) \<noteq> None" "\<not> ls_locked st (chunk_filename h)"
    by (auto simp: chunk_view_def stuck_chunk_def)
  then have r: "r = Inr True" "st' = st\<lparr>ls_files := dict_del (chunk_filename h) (ls_files st)\<rparr>"
    using assms(2) by (auto simp: delete_chunk_def Let_def)
  then have "chunk_view st' = (chunk_view st)(h := None)" by (auto simp: chunk_view_def)
  moreover have "chunk_dir st'"
  proof (rule chunk_dir_mono [OF assms(1)])
    show "store_ok st'" using assms(1) by (auto simp: r(2) chunk_dir_def store_ok_def)
    show "fst ` set (ls_files st') \<subseteq> fst ` set (ls_files st)" by (auto simp: r(2) AList.delete_eq)
  qed
  ultimately show ?thesis using deletes [of h "chunk_view st" "stuck_chunk st"] True r by simp
next
  case False
  then have "st' = st \<and> r = (if h \<in> dom (chunk_view st) then Inl OSError else Inr False)"
    using assms(2) by (auto simp: delete_chunk_def Let_def chunk_view_def stuck_chunk_def split: if_splits)
  then show ?thesis using False assms(1) by (auto intro: refuses misses)
qed

lemma serve_refines:
  assumes "chunk_dir st" and "plain_request q" and "serve q st = (a, st')"
  shows "map_step (stuck_chunk st) q (chunk_view st) a (chunk_view st') \<and> chunk_dir st' \<and> ls_locked st' = ls_locked st"
proof (cases q)
  case (SaveChunk h d)
  then have st': "st' = save_chunk h d st" "a = Saved" using assms(3) by simp_all
  then have "chunk_view st' = (chunk_view st)(h \<mapsto> d)" by (auto simp: chunk_view_save)
  moreover have "chunk_dir st'"
    using assms(1,2) save_chunk_ok [of st h d] by (auto simp: chunk_dir_def st' SaveChunk save_chunk_names)
  moreover have "ls_locked st' = ls_locked st" by (simp add: st' save_chunk_def Let_def)
  ultimately show ?thesis by (simp add: SaveChunk st'(2) saves)
next
  case (LoadChunk h)
  then have st': "st' = snd (load_chunk st h)" "a = Loaded (chunk_view st h)"
    using assms(3) load_chunk_value [of st h] by (auto split: prod.splits)
  have "chunk_view st' = chunk_view st" by (rule ext) (simp add: st' load_chunk_frame)
  moreover have "chunk_dir st'"
    using assms(1) load_chunk_keeps [of st h] by (simp add: chunk_dir_def st' load_chunk_names)
  moreover have "ls_locked st' = ls_locked st" by (simp add: st' load_chunk_def Let_def split: option.split)
  ultimately show ?thesis by (simp add: LoadChunk st'(2) loads)
next
  case (HasChunk h)
  then have "st' = st" "a = Present (h \<in> dom (chunk_view st))"
    using assms(3) by (auto simp: has_chunk_view)
  then show ?thesis using assms(1) by (simp only: HasChunk has simp_thms)
next
  case (DeleteChunk h)
  then show ?thesis using assms delete_map_step [of st h] by (auto split: prod.splits)
next
  case ListChunks
  then show ?thesis using assms(1,3) lists [OF _ _, of "list_chunks st" "chunk_view st"] listed_chunks [OF assms(1)] by auto
next
  case (EvictChunks goal)
  then obtain freed where e: "evict_oldest_chunks goal st = (freed, st')" "a = Evicted freed"
    using assms(3) by (auto split: prod.splits)
  have "chunk_dir st'"
  proof (rule chunk_dir_mono [OF assms(1)])
    show "store_ok st'" using assms(1) evict_keeps_ok [of st goal] e(1) by (simp add: chunk_dir_def)
    show "fst ` set (ls_files st') \<subseteq> fst ` set (ls_files st)" using e(1) by (auto simp: evict_oldest_chunks_evicted)
  qed
  then show ?thesis using evict_map_step [OF assms(1) e(1)] e by (auto simp: EvictChunks evict_oldest_chunks_evicted)
next
  case (ClockAt t)
  have "chunk_view (st\<lparr>ls_now := t\<rparr>) = chunk_view st" by (rule ext) (simp add: chunk_view_def)
  then show ?thesis using ClockAt assms(1,3) by (auto simp: chunk_dir_def store_ok_def ticks)
qed

text \<open>
  C14. The chunk store is a finite map. Whatever sequence of saves, loads, tests, deletions, listings and
  evictions is asked of a storage directory with a hash in each chunk's file name, at whatever times, the
  answers are those a finite map from hashes to bytes gives, an eviction being a choice of chunks that can be deleted; the files,
  their names, their access times and the locks of the system do not show.
\<close>

theorem store_refines_map:
  assumes "chunk_dir st" and "\<forall>q \<in> set qs. plain_request q" and "serve_all qs st = (as, st')"
  shows "map_run (stuck_chunk st) qs (chunk_view st) as (chunk_view st') \<and> chunk_dir st'"
  using assms
proof (induction qs arbitrary: st as)
  case Nil
  then show ?case by (simp add: run_end)
next
  case (Cons q qs)
  obtain a st1 where s: "serve q st = (a, st1)" by fastforce
  obtain bs st2 where r: "serve_all qs st1 = (bs, st2)" by fastforce
  have "as = a # bs" "st2 = st'" using Cons.prems(3) s r by simp_all
  moreover have step: "map_step (stuck_chunk st) q (chunk_view st) a (chunk_view st1)" "chunk_dir st1"
      "ls_locked st1 = ls_locked st"
    using serve_refines [OF Cons.prems(1) _ s] Cons.prems(2) by simp_all
  moreover have "stuck_chunk st1 = stuck_chunk st" using step(3) by (simp add: stuck_chunk_def fun_eq_iff)
  ultimately show ?case using Cons.IH [of st1 bs] Cons.prems(2) r by (auto intro: run_step)
qed

theorem store_refines_map_witness:
  "let st = example_store\<lparr>ls_files := []\<rparr>;
       qs = [SaveChunk ''a1'' [7, 8], ClockAt 12, SaveChunk ''b2'' [9], LoadChunk ''a1'', EvictChunks 1, ListChunks, DeleteChunk ''c3''];
       (as, st') = serve_all qs st
   in map_run (stuck_chunk st) qs Map.empty as (chunk_view st') \<and> length as = 7"
proof -
  let ?st = "example_store\<lparr>ls_files := []\<rparr>"
  let ?qs = "[SaveChunk ''a1'' [7, 8], ClockAt 12, SaveChunk ''b2'' [9], LoadChunk ''a1'', EvictChunks 1, ListChunks, DeleteChunk ''c3'']"
  obtain as st' where r: "serve_all ?qs ?st = (as, st')" by fastforce
  have "chunk_dir ?st" using example_store_ok by (simp add: chunk_dir_def store_ok_def)
  then have "map_run (stuck_chunk ?st) ?qs (chunk_view ?st) as (chunk_view st')"
    using store_refines_map [OF _ _ r] by (simp add: plain_hash_def)
  moreover have "chunk_view ?st = Map.empty" by (simp add: chunk_view_def fun_eq_iff)
  moreover have "length as = 7" using r by (auto split: prod.splits)
  ultimately show ?thesis by (simp add: r del: serve_all.simps)
qed

end
