(* ===== verification/Node.thy ===== *)
theory Node
  imports Mesh Config StoreSpec
begin

section \<open>The node orchestrator (backend/node/node.py)\<close>

text \<open>
  \<^verbatim>\<open>DistriNode\<close>: the parts of a node and its background tasks. A task is its loop; one turn is what it does from one
  \<^verbatim>\<open>sleep\<close> to the next. The storage monitor catches every exception of a turn, the connector loop none, and the broadcast
  loop all but those of the \<^verbatim>\<open>sleep\<close> at its end: an exception that is not caught ends the task. The settings a turn reads are
  those the node was made with, of any type YAML gives them. What the system binds, the clock, the readings of the
  machine and the answers of dialled peers are given per turn.
\<close>

datatype node_task = BroadcastLoop | ConnectorLoop | MonitorLoop

datatype task_status = Running | Died exn | Cancelled

record dist_node =
  dn_config :: app_config
  dn_net :: node_net
  dn_listening :: bool
  dn_udp :: bool
  dn_tasks :: "(node_task \<times> task_status) list"
  dn_store :: local_store
  dn_sent :: "bytes list"

record turn_env =
  te_net :: net_env
  te_disc :: disc_env
  te_now :: real
  te_health :: health
  te_udp_up :: bool
  te_dial :: "string \<Rightarrow> int \<Rightarrow> message option option"

subsection \<open>Start and stop\<close>

definition node_init :: "real \<Rightarrow> app_config \<Rightarrow> local_store \<Rightarrow> dist_node res" where
  "node_init now cfg store =
     bindr (new_node now cfg) (\<lambda>S.
     Inr \<lparr>dn_config = cfg, dn_net = \<lparr>nt_node = nt_node S, nt_api_port = nt_api_port S, nt_connections = nt_connections S,
            nt_written = nt_written S, nt_open = nt_open S, ch_active = [], ch_shown = (\<lambda>_. []), ch_ws_ok = (\<lambda>_. True),
            ch_seen = [], nn_clients = (\<lambda>_. None), nn_next = 0\<rparr>,
          dn_listening = False, dn_udp = False, dn_tasks = [], dn_store = store, dn_sent = []\<rparr>)"

text \<open>
  \<open>bind_tcp\<close> is the port the system binds for the wanted one, \<open>bind_udp\<close> whether the discovery port can be bound.
  A start that fails at the second leaves the server of the first running.
\<close>

definition node_start ::
    "(int \<Rightarrow> int res) \<Rightarrow> (int \<Rightarrow> unit res) \<Rightarrow> bool \<Rightarrow> dist_node \<Rightarrow> unit res \<times> dist_node" where
  "node_start bind_tcp bind_udp with_store N =
     (case bindr (yaml_int (cf_tcp_port (cf_network (dn_config N)))) bind_tcp of
        Inl e \<Rightarrow> (Inl e, N)
      | Inr port \<Rightarrow>
          let N1 = N\<lparr>dn_net := start_server port (dn_net N), dn_listening := True\<rparr>
          in case bindr (yaml_int (cf_discovery_port (cf_network (dn_config N)))) bind_udp of
               Inl e \<Rightarrow> (Inl e, N1)
             | Inr _ \<Rightarrow>
                 (Inr (), N1\<lparr>dn_udp := True,
                    dn_tasks := dn_tasks N1 @ [(BroadcastLoop, Running), (ConnectorLoop, Running)] @
                      (if with_store then [(MonitorLoop, Running)] else [])\<rparr>))"

text \<open>The discovery transport is not closed.\<close>

definition node_stop :: "dist_node \<Rightarrow> dist_node" where
  "node_stop N =
     N\<lparr>dn_tasks := map (\<lambda>(t, s). (t, if s = Running then Cancelled else s)) (dn_tasks N),
       dn_listening := False, dn_net := stop (dn_net N)\<rparr>"

text \<open>
  \<^verbatim>\<open>run_forever\<close>: \<open>life\<close> is what happens to the node until it is interrupted. A start that fails is not followed by a stop.
\<close>

definition run_forever ::
    "(int \<Rightarrow> int res) \<Rightarrow> (int \<Rightarrow> unit res) \<Rightarrow> (dist_node \<Rightarrow> dist_node) \<Rightarrow> dist_node \<Rightarrow> unit res \<times> dist_node" where
  "run_forever bind_tcp bind_udp life N =
     (let (r, N1) = node_start bind_tcp bind_udp False N
      in case r of Inl e \<Rightarrow> (Inl e, N1) | Inr _ \<Rightarrow> (Inr (), node_stop (life N1)))"

text \<open>\<^verbatim>\<open>lifespan\<close>: up to \<^verbatim>\<open>yield\<close>, and after it.\<close>

definition lifespan_up ::
    "(string \<Rightarrow> string option) \<Rightarrow> (int \<Rightarrow> int res) \<Rightarrow> (int \<Rightarrow> unit res) \<Rightarrow> dist_node \<Rightarrow> unit res \<times> dist_node" where
  "lifespan_up environ bind_tcp bind_udp N =
     (case env_int environ ''DS_API_PORT'' (cf_port (cf_api (dn_config N))) of
        Inl e \<Rightarrow> (Inl e, N)
      | Inr api_port \<Rightarrow>
          node_start bind_tcp bind_udp True
            (N\<lparr>dn_net := (dn_net N)\<lparr>nt_api_port := api_port,
                 nt_node := load_peers_from_db (set_database (ls_db (dn_store N)) (nt_node (dn_net N)))\<rparr>\<rparr>))"

definition lifespan_down :: "dist_node \<Rightarrow> dist_node" where
  "lifespan_down N = node_stop N"

subsection \<open>Turns of the tasks\<close>

text \<open>A setting where a number is wanted; and \<^verbatim>\<open>asyncio.sleep\<close>, which compares it with 0 and adds it to the clock.\<close>

fun yaml_num :: "yaml \<Rightarrow> real option" where
  "yaml_num (YInt n) = Some (real_of_int n)"
| "yaml_num (YBool b) = Some (of_bool b)"
| "yaml_num (YFloat x) = Some x"
| "yaml_num _ = None"

fun async_sleep :: "yaml \<Rightarrow> unit res" where
  "async_sleep (YInt n) = (if 2 ^ 1024 - 2 ^ 970 \<le> n then Inl OverflowError else Inr ())"
| "async_sleep (YBool b) = Inr ()"
| "async_sleep (YFloat x) = Inr ()"
| "async_sleep _ = Inl TypeError"

text \<open>\<^verbatim>\<open>sendto\<close> raises when the network is down; the loop logs it and goes on to the \<^verbatim>\<open>sleep\<close>, which is outside the \<^verbatim>\<open>try\<close>.\<close>

definition broadcast_turn :: "turn_env \<Rightarrow> dist_node \<Rightarrow> unit res \<times> dist_node" where
  "broadcast_turn V N =
     (async_sleep (cf_discovery_interval (cf_network (dn_config N))),
      if te_udp_up V then N\<lparr>dn_sent := dn_sent N @ [build_hello (te_disc V) (te_now V) (te_health V) (dn_net N)]\<rparr> else N)"

text \<open>A timeout that is not a number makes the first comparison raise; without peers there is none.\<close>

definition connector_turn :: "turn_env \<Rightarrow> dist_node \<Rightarrow> unit res \<times> dist_node" where
  "connector_turn V N =
     (case yaml_num (cf_peer_timeout (cf_network (dn_config N))) of
        None \<Rightarrow> (if ns_peers (nt_node (dn_net N)) = [] then Inr () else Inl TypeError, N)
      | Some peer_timeout \<Rightarrow>
          let (r, S) = connector_round (te_net V) (te_dial V) peer_timeout (te_now V) (dn_net N)
          in (r, N\<lparr>dn_net := S\<rparr>))"

text \<open>
  A quota that is not a number, or too large for a float, ends the round before anything is deleted. The
  eviction runs in a thread; here it is part of its turn, also when the node is stopped meanwhile.
\<close>

definition monitor_turn :: "dist_node \<Rightarrow> dist_node" where
  "monitor_turn N =
     (case yaml_num (cf_max_storage_mb (cf_storage (dn_config N))) of
        None \<Rightarrow> N
      | Some mb \<Rightarrow>
          if 2 ^ 1024 - 2 ^ 970 \<le> \<bar>mb * 1024 * 1024\<bar> then N
          else N\<lparr>dn_store := monitor_round_at (mb * 1024 * 1024) (dn_store N)\<rparr>)"

fun task_turn :: "turn_env \<Rightarrow> node_task \<Rightarrow> dist_node \<Rightarrow> unit res \<times> dist_node" where
  "task_turn V BroadcastLoop N = broadcast_turn V N"
| "task_turn V ConnectorLoop N = connector_turn V N"
| "task_turn V MonitorLoop N = (Inr (), monitor_turn N)"

definition node_turn :: "turn_env \<Rightarrow> nat \<Rightarrow> dist_node \<Rightarrow> dist_node" where
  "node_turn V i N =
     (if i < length (dn_tasks N) \<and> snd (dn_tasks N ! i) = Running then
        let t = fst (dn_tasks N ! i); (r, N') = task_turn V t N
        in case r of Inr _ \<Rightarrow> N' | Inl e \<Rightarrow> N'\<lparr>dn_tasks := (dn_tasks N')[i := (t, Died e)]\<rparr>
      else N)"

text \<open>
  Everything a node does: a turn of a task, a datagram while the discovery socket is open, a step of its connections and browsers, of which
  only a listening node gets new handlers. A stop falls between two turns.
\<close>

inductive run_step :: "net_env \<Rightarrow> (string list \<Rightarrow> string) \<Rightarrow> dist_node \<Rightarrow> dist_node \<Rightarrow> bool"
  for E :: net_env and pick :: "string list \<Rightarrow> string" where
  turns: "te_net V = E \<Longrightarrow> run_step E pick N (node_turn V i N)"
| hears: "dn_udp N \<Longrightarrow> run_step E pick N (N\<lparr>dn_net := snd (datagram_received D now data ip (dn_net N))\<rparr>)"
| connects: "net_step E pick (dn_net N) S \<Longrightarrow>
     dn_listening N \<or> (\<forall>h. nn_clients (dn_net N) h = None \<longrightarrow> nn_clients S h = None) \<Longrightarrow>
     run_step E pick N (N\<lparr>dn_net := S\<rparr>)"
| stops: "run_step E pick N (node_stop N)"

inductive_cases run_stepE: "run_step E pick N N'"

definition run_reachable :: "net_env \<Rightarrow> (string list \<Rightarrow> string) \<Rightarrow> dist_node \<Rightarrow> bool" where
  "run_reachable E pick N \<longleftrightarrow>
     (\<exists>now cfg store N0 environ bind_tcp bind_udp. node_init now cfg store = Inr N0 \<and> store_ok store \<and>
        (run_step E pick)\<^sup>*\<^sup>* (snd (lifespan_up environ bind_tcp bind_udp N0)) N)"

subsection \<open>Invariants\<close>

lemma connector_loop_inv:
  "connector_loop E dial now ps S = (r, S') \<Longrightarrow> conns_ok S \<and> seen_ok S \<Longrightarrow> conns_ok S' \<and> seen_ok S'"
proof (induction ps arbitrary: S)
  case (Cons q ps)
  obtain nid p where q: "q = (nid, p)" by (cases q)
  obtain r1 S1 where d: "dial_peer E dial now (pi_ip p) (pi_tcp_port p) S = (r1, S1)" by fastforce
  have "conns_ok S1 \<and> seen_ok S1"
    using dial_peer_ok [OF _ d] dial_peer_seen [OF d] Cons.prems(2) by (simp add: seen_ok_def)
  then show ?case using Cons q d by (auto split: if_splits sum.splits)
qed simp

definition may_die :: "dist_node \<Rightarrow> node_task \<Rightarrow> exn \<Rightarrow> bool" where
  "may_die N t e \<longleftrightarrow> t = ConnectorLoop \<or>
     (t = BroadcastLoop \<and> async_sleep (cf_discovery_interval (cf_network (dn_config N))) = Inl e)"

definition dist_ok :: "dist_node \<Rightarrow> bool" where
  "dist_ok N \<longleftrightarrow> conns_ok (dn_net N) \<and> seen_ok (dn_net N) \<and> store_ok (dn_store N) \<and>
     map fst (dn_tasks N) \<in> {[], [BroadcastLoop, ConnectorLoop, MonitorLoop]} \<and>
     (\<forall>(t, s) \<in> set (dn_tasks N). \<forall>e. s = Died e \<longrightarrow> may_die N t e)"

lemma may_die_config: "dn_config N' = dn_config N \<Longrightarrow> may_die N' = may_die N"
  by (simp add: may_die_def fun_eq_iff)

lemma monitor_store_ok: "store_ok st \<Longrightarrow> store_ok (monitor_round_at max_bytes st)"
  by (simp add: monitor_round_at_def Let_def evict_keeps_ok)

lemma task_turn_frame:
  "dn_config (snd (task_turn V t N)) = dn_config N \<and> dn_tasks (snd (task_turn V t N)) = dn_tasks N \<and>
   (fst (task_turn V t N) = Inl e \<longrightarrow> may_die N t e)"
  by (cases t) (auto simp: broadcast_turn_def connector_turn_def monitor_turn_def may_die_def Let_def split: prod.split option.split)

lemma datagram_net: "\<exists>st. snd (datagram_received D now data ip S) = S\<lparr>nt_node := st\<rparr>"
  by (auto simp: datagram_received_def split: sum.split option.split intro: exI [of _ "nt_node S"])

lemma node_turn_tasks:
  "dn_config (node_turn V i N) = dn_config N \<and>
   (dn_tasks (node_turn V i N) = dn_tasks N \<or>
    (\<exists>t e. i < length (dn_tasks N) \<and> dn_tasks N ! i = (t, Running) \<and> may_die N t e \<and>
       dn_tasks (node_turn V i N) = (dn_tasks N)[i := (t, Died e)]))"
proof (cases "i < length (dn_tasks N) \<and> snd (dn_tasks N ! i) = Running")
  case True
  obtain t where t: "dn_tasks N ! i = (t, Running)" using True by (cases "dn_tasks N ! i") simp
  obtain r N' where r: "task_turn V t N = (r, N')" by fastforce
  show ?thesis
    using True t r task_turn_frame [of V t N] by (cases r) (auto simp: node_turn_def)
qed (auto simp: node_turn_def)

lemma task_turn_state:
  assumes "dist_ok N"
  shows "conns_ok (dn_net (snd (task_turn V t N))) \<and> seen_ok (dn_net (snd (task_turn V t N))) \<and>
     store_ok (dn_store (snd (task_turn V t N)))"
proof (cases t)
  case BroadcastLoop
  then show ?thesis using assms by (simp add: dist_ok_def broadcast_turn_def)
next
  case ConnectorLoop
  have "conns_ok S \<and> seen_ok S" if "connector_round (te_net V) (te_dial V) peer_timeout (te_now V) (dn_net N) = (r, S)" for peer_timeout r S
    using that connector_loop_inv [of "te_net V" "te_dial V" "te_now V"] assms by (auto simp: connector_round_def dist_ok_def)
  then show ?thesis
    using assms ConnectorLoop by (auto simp: connector_turn_def dist_ok_def Let_def split: option.split prod.split)
next
  case MonitorLoop
  then show ?thesis using assms by (simp add: monitor_turn_def dist_ok_def monitor_store_ok split: option.split)
qed

lemma node_turn_state:
  "dn_net (node_turn V i N) \<in> {dn_net N, dn_net (snd (task_turn V (fst (dn_tasks N ! i)) N))} \<and>
   dn_store (node_turn V i N) \<in> {dn_store N, dn_store (snd (task_turn V (fst (dn_tasks N ! i)) N))}"
  by (auto simp: node_turn_def Let_def split: prod.split sum.split)

lemma node_turn_ok: "dist_ok N \<Longrightarrow> dist_ok (node_turn V i N)"
proof -
  assume ok: "dist_ok N"
  have tasks: "map fst (dn_tasks (node_turn V i N)) = map fst (dn_tasks N)"
    using node_turn_tasks [of V i N] by (auto simp: map_update) (metis fst_conv list_update_id map_update nth_map)
  have die: "may_die (node_turn V i N) = may_die N" by (rule may_die_config) (simp add: node_turn_tasks)
  have died: "\<forall>(t, s) \<in> set (dn_tasks (node_turn V i N)). \<forall>e. s = Died e \<longrightarrow> may_die N t e"
    using node_turn_tasks [of V i N] ok set_update_subset_insert [of "dn_tasks N" i]
    unfolding dist_ok_def by fastforce
  have "conns_ok (dn_net (node_turn V i N)) \<and> seen_ok (dn_net (node_turn V i N)) \<and> store_ok (dn_store (node_turn V i N))"
    using node_turn_state [of V i N] task_turn_state [OF ok, of V] ok by (auto simp: dist_ok_def)
  then show ?thesis using ok tasks died by (simp add: dist_ok_def die)
qed

lemma fold_conn_close: "fold conn_close hs S = S\<lparr>nt_open := (\<lambda>h. nt_open S h \<and> h \<notin> set hs)\<rparr>"
proof (induction hs rule: rev_induct)
  case (snoc x hs)
  have "(\<lambda>h. nt_open S h \<and> h \<notin> set hs)(x := False) = (\<lambda>h. nt_open S h \<and> h \<notin> set (hs @ [x]))" by (auto simp: fun_eq_iff)
  then show ?case using snoc by (simp add: conn_close_def)
qed simp

lemma stop_net:
  "nt_connections (stop S) = []" "nn_clients (stop S) = nn_clients S" "nn_next (stop S) = nn_next S" "ch_seen (stop S) = ch_seen S"
  "nt_open (stop S) h \<longleftrightarrow> nt_open S h \<and> h \<notin> set (map snd (nt_connections S))"
  by (simp_all add: stop_def fold_conn_close)

lemma run_step_ok:
  assumes "run_step E pick N N'" and "dist_ok N" and "\<And>xs. xs \<noteq> [] \<Longrightarrow> pick xs \<in> set xs"
  shows "dist_ok N'"
  using assms(1)
proof cases
  case (hears D now data ip)
  obtain st where "snd (datagram_received D now data ip (dn_net N)) = (dn_net N)\<lparr>nt_node := st\<rparr>"
    using datagram_net by blast
  then show ?thesis using hears(1) assms(2) by (simp add: dist_ok_def conns_ok_def seen_ok_def may_die_def)
next
  case (connects S)
  then show ?thesis using assms(2) net_step_conns net_step_seen [OF _ assms(3)] by (auto simp: dist_ok_def may_die_def)
next
  case stops
  have "may_die N' = may_die N" by (rule may_die_config) (simp add: stops node_stop_def)
  then have "\<forall>(t, s) \<in> set (dn_tasks N'). \<forall>e. s = Died e \<longrightarrow> may_die N' t e"
    using assms(2) stops by (fastforce simp: dist_ok_def node_stop_def split: if_splits)
  moreover have "map fst (dn_tasks N') = map fst (dn_tasks N)" by (simp add: stops node_stop_def case_prod_unfold comp_def)
  moreover have "conns_ok (dn_net N') \<and> seen_ok (dn_net N') \<and> dn_store N' = dn_store N"
    using assms(2) by (simp add: stops node_stop_def dist_ok_def conns_ok_def seen_ok_def stop_net)
  ultimately show ?thesis using assms(2) by (simp add: dist_ok_def)
qed (use assms(2) node_turn_ok in blast)

interpretation well_formed: invariant_system "run_step E pick" "\<lambda>N. (\<forall>xs. xs \<noteq> [] \<longrightarrow> pick xs \<in> set xs) \<longrightarrow> dist_ok N" for E pick
  by unfold_locales (use run_step_ok in blast)

text \<open>
  C23. In every state a node reaches, from its construction and start, successful or not, through turns of its tasks, datagrams, steps of
  its connections and browsers, and its stop: every registered connection is an outbound one or has its authenticated
  handler running; at most 500 chat identifiers are remembered; the chunk store and its database have their keys
  once; the tasks are the broadcast, the connector and the monitor loop, if the start has got
  so far. The monitor loop never dies; the connector loop can; the broadcast loop only of its \<^verbatim>\<open>sleep\<close>, when the configured
  discovery interval is not a number, or an integer too large for a float.
\<close>

theorem node_wellformed:
  assumes "run_reachable E pick N" and "\<And>xs. xs \<noteq> [] \<Longrightarrow> pick xs \<in> set xs"
  shows "conns_ok (dn_net N) \<and> length (ch_seen (dn_net N)) \<le> MAX_SEEN \<and> store_ok (dn_store N) \<and>
     map fst (dn_tasks N) \<in> {[], [BroadcastLoop, ConnectorLoop, MonitorLoop]} \<and>
     (\<forall>t e. (t, Died e) \<in> set (dn_tasks N) \<longrightarrow>
        t = ConnectorLoop \<or> (t = BroadcastLoop \<and> async_sleep (cf_discovery_interval (cf_network (dn_config N))) = Inl e))"
proof -
  obtain now cfg store N0 environ bind_tcp bind_udp where N: "node_init now cfg store = Inr N0" "store_ok store"
    "(run_step E pick)\<^sup>*\<^sup>* (snd (lifespan_up environ bind_tcp bind_udp N0)) N"
    using assms(1) by (auto simp: run_reachable_def)
  have "dist_ok N0" using N(1,2) by (auto simp: node_init_def new_node_def bindr_eq_Inr dist_ok_def conns_ok_def seen_ok_def)
  moreover have "dn_tasks N0 = []" using N(1) by (auto simp: node_init_def bindr_eq_Inr)
  ultimately have start: "dist_ok (snd (lifespan_up environ bind_tcp bind_udp N0))"
    by (auto simp: lifespan_up_def node_start_def start_server_def dist_ok_def conns_ok_def seen_ok_def Let_def
        split: sum.split)
  then have "dist_ok N" using well_formed.runs_keep [OF N(3)] assms(2) by blast
  then have "conns_ok (dn_net N) \<and> seen_ok (dn_net N) \<and> store_ok (dn_store N) \<and>
      map fst (dn_tasks N) \<in> {[], [BroadcastLoop, ConnectorLoop, MonitorLoop]}"
    and "\<And>t s e. (t, s) \<in> set (dn_tasks N) \<Longrightarrow> s = Died e \<Longrightarrow> may_die N t e"
    unfolding dist_ok_def by blast+
  then show ?thesis unfolding may_die_def seen_ok_def by blast
qed

subsection \<open>A task that dies\<close>

lemma died_stays:
  assumes "run_step E pick N N'" and "i < length (dn_tasks N)" and "dn_tasks N ! i = (t, Died e)"
  shows "i < length (dn_tasks N') \<and> dn_tasks N' ! i = (t, Died e)"
  using assms(1)
proof cases
  case (turns V j)
  have "dn_tasks N ! j \<noteq> (t', Running)" if "i = j" for t' using that assms(3) by simp
  then show ?thesis using turns(1) node_turn_tasks [of V j N] assms(2,3) by (cases "i = j") auto
next
  case stops
  then show ?thesis using assms(2,3) by (simp add: node_stop_def)
qed (use assms(2,3) in simp_all)

interpretation dead_task: invariant_system "run_step E pick" "\<lambda>N. i < length (dn_tasks N) \<and> dn_tasks N ! i = (t, Died e)" for E pick i t e
  by unfold_locales (use died_stays in blast)

text \<open>
  C39. One answer ends the search for peers. A peer that answers the handshake with a node identifier that is neither a string
  nor bytes makes the connector loop raise an exception that nothing catches: the task dies, and the node dials no
  discovered peer again.
\<close>

theorem connector_dies:
  assumes "i < length (dn_tasks N)" and "dn_tasks N ! i = (ConnectorLoop, Running)"
    and "yaml_num (cf_peer_timeout (cf_network (dn_config N))) = Some timeout"
    and "get_alive_peers (te_now V) timeout (nt_node (dn_net N)) = (nid, p) # rest"
    and "dict_get (nt_connections (dn_net N)) nid = None"
    and "te_dial V (pi_ip p) (pi_tcp_port p) = Some (Some ack)" and "has_type ''HANDSHAKE_ACK'' ack"
    and "dict_get ack ''node_id'' = Some v" and "\<forall>s. v \<noteq> VStr s" and "\<forall>b. v \<noteq> VBytes b"
    and "fits (ne_codec (te_net V)) (auth_handshake_msg (ne_hmac (te_net V)) (ns_node_id (nt_node (dn_net N))) (ne_swarm_key (te_net V)))"
    and "fits (ne_codec (te_net V)) (handshake_fields ''HANDSHAKE'' (dn_net N))"
    and "(run_step E pick)\<^sup>*\<^sup>* (node_turn V i N) N'"
  shows "dn_tasks N' ! i = (ConnectorLoop, Died TypeError) \<and> (\<forall>V'. node_turn V' i N' = N')"
proof -
  let ?C = "ne_codec (te_net V)" and ?S = "dn_net N"
  define S1 where "S1 = ?S\<lparr>nn_next := Suc (nn_next ?S), nt_open := (nt_open ?S)(nn_next ?S := True)\<rparr>"
  have same: "nt_node S1 = nt_node ?S" "nt_open S1 (nn_next ?S)" "nt_api_port S1 = nt_api_port ?S" by (simp_all add: S1_def)
  obtain f1 where f1: "send_frame ?C (auth_handshake_msg (ne_hmac (te_net V)) (ns_node_id (nt_node ?S)) (ne_swarm_key (te_net V))) = Inr f1"
    using fits_frame [OF assms(11)] by (elim exE)
  obtain f2 where f2: "send_frame ?C (handshake_fields ''HANDSHAKE'' ?S) = Inr f2"
    using fits_frame [OF assms(12)] by (elim exE)
  have "str_field ''node_id'' [] ack = Inl TypeError"
    using assms(8-10) by (cases v) (auto simp: str_field_def)
  then have "fst (connect_to_peer (te_net V) (te_now V) (Some (nn_next ?S, Some ack)) (pi_ip p) (pi_tcp_port p) S1) = Inl TypeError"
    using f1 f2 same assms(7) by (simp add: connect_to_peer_def conn_send_def handshake_fields_def)
  then have "fst (dial_peer (te_net V) (te_dial V) (te_now V) (pi_ip p) (pi_tcp_port p) ?S) = Inl TypeError"
    using assms(6) by (simp add: dial_peer_def S1_def)
  then obtain S2 where "connector_round (te_net V) (te_dial V) timeout (te_now V) ?S = (Inl TypeError, S2)"
    using assms(4,5)
    by (cases "dial_peer (te_net V) (te_dial V) (te_now V) (pi_ip p) (pi_tcp_port p) ?S") (auto simp: connector_round_def)
  then have turn: "i < length (dn_tasks (node_turn V i N)) \<and> dn_tasks (node_turn V i N) ! i = (ConnectorLoop, Died TypeError)"
    using assms(1-3) by (simp add: node_turn_def connector_turn_def)
  from dead_task.runs_keep [OF assms(13) turn] show ?thesis by (simp add: node_turn_def)
qed

text \<open>
  And a setting: with a discovery interval that is not a number (a key without a value in the file), the first turn of the
  broadcast loop, which still sends its HELLO, is the last.
\<close>

theorem blank_interval_stops_broadcasts:
  assumes "i < length (dn_tasks N)" and "dn_tasks N ! i = (BroadcastLoop, Running)"
    and "yaml_num (cf_discovery_interval (cf_network (dn_config N))) = None"
    and "(run_step E pick)\<^sup>*\<^sup>* (node_turn V i N) N'"
  shows "dn_tasks N' ! i = (BroadcastLoop, Died TypeError) \<and> (\<forall>V'. node_turn V' i N' = N')"
proof -
  have "async_sleep y = Inl TypeError" if "yaml_num y = None" for y using that by (cases y) simp_all
  then have turn: "i < length (dn_tasks (node_turn V i N)) \<and> dn_tasks (node_turn V i N) ! i = (BroadcastLoop, Died TypeError)"
    using assms(1-3) by (simp add: node_turn_def broadcast_turn_def)
  from dead_task.runs_keep [OF assms(4) turn] show ?thesis by (simp add: node_turn_def)
qed

subsection \<open>A node that is stopped\<close>

definition node_idle :: "dist_node \<Rightarrow> bool" where
  "node_idle N \<longleftrightarrow> \<not> dn_listening N \<and> (\<forall>(t, s) \<in> set (dn_tasks N). s \<noteq> Running)"

lemma idle_turn: "node_idle N \<Longrightarrow> node_turn V i N = N"
proof -
  assume "node_idle N"
  then have "\<not> (i < length (dn_tasks N) \<and> snd (dn_tasks N ! i) = Running)"
    using nth_mem [of i "dn_tasks N"] unfolding node_idle_def by (fastforce simp: case_prod_beta)
  then show "node_turn V i N = N" unfolding node_turn_def by (rule if_not_P)
qed

lemma stop_idle: "node_idle (node_stop N)"
  by (auto simp: node_idle_def node_stop_def split: if_splits)

text \<open>What an idle node keeps: all it has broadcast and stored, its discovery socket, and no handler where there was none.\<close>

definition stays_idle :: "dist_node \<Rightarrow> dist_node \<Rightarrow> bool" where
  "stays_idle N N' \<longleftrightarrow> node_idle N' \<and> dn_sent N' = dn_sent N \<and> dn_store N' = dn_store N \<and> dn_udp N' = dn_udp N \<and>
     (\<forall>h. nn_clients (dn_net N) h = None \<longrightarrow> nn_clients (dn_net N') h = None)"

lemma idle_step:
  assumes "run_step E pick N N'" and "node_idle N"
  shows "stays_idle N N'"
  using assms(1)
proof cases
  case (turns V i)
  then show ?thesis using assms(2) by (simp add: stays_idle_def idle_turn)
next
  case (hears D now data ip)
  obtain st where "snd (datagram_received D now data ip (dn_net N)) = (dn_net N)\<lparr>nt_node := st\<rparr>"
    using datagram_net by blast
  then show ?thesis using hears(1) assms(2) by (simp add: stays_idle_def node_idle_def)
next
  case (connects S)
  then show ?thesis using assms(2) by (auto simp: stays_idle_def node_idle_def)
next
  case stops
  then show ?thesis using stop_idle [of N] by (simp add: stays_idle_def node_stop_def stop_net)
qed

interpretation idle: invariant_system "run_step E pick" "stays_idle N0" for E pick N0
  by unfold_locales (use idle_step in \<open>auto simp: stays_idle_def\<close>)

text \<open>
  C34. A stopped node is quiet: no registered connection is left, those there were are closed, and whatever happens afterwards no
  task takes a turn, no HELLO is broadcast, no chunk is evicted and no new connection gets a handler (a turn that is under way when the node is stopped, such as
  an eviction in its thread, counts as one before the stop).
  But the discovery socket is not closed: a node that had started it still takes in every HELLO it hears.
\<close>

theorem stopped_node_quiet:
  assumes "(run_step E pick)\<^sup>*\<^sup>* (node_stop N) N'"
  shows "nt_connections (dn_net (node_stop N)) = [] \<and>
     (\<forall>nid h. (nid, h) \<in> set (nt_connections (dn_net N)) \<longrightarrow> \<not> nt_open (dn_net (node_stop N)) h) \<and>
     dn_sent N' = dn_sent N \<and> dn_store N' = dn_store N \<and> (\<forall>V i. node_turn V i N' = N') \<and>
     (\<forall>h. nn_clients (dn_net N) h = None \<longrightarrow> nn_clients (dn_net N') h = None) \<and>
     (dn_udp N \<longrightarrow> (\<forall>D now data ip. run_step E pick N' (N'\<lparr>dn_net := snd (datagram_received D now data ip (dn_net N'))\<rparr>)))"
proof -
  have "stays_idle (node_stop N) N'"
    by (rule idle.runs_keep [OF assms]) (simp add: stays_idle_def stop_idle)
  then have "node_idle N' \<and> dn_sent N' = dn_sent N \<and> dn_store N' = dn_store N \<and> dn_udp N' = dn_udp N \<and>
      (\<forall>h. nn_clients (dn_net N) h = None \<longrightarrow> nn_clients (dn_net N') h = None)"
    by (simp add: stays_idle_def node_stop_def stop_net)
  moreover have "\<not> nt_open (stop (dn_net N)) h" if "(nid, h) \<in> set (nt_connections (dn_net N))" for nid h
    using that by (force simp: stop_net)
  ultimately show ?thesis using idle_turn hears by (simp add: node_stop_def stop_net)
qed

subsection \<open>A browser's session (\<^verbatim>\<open>websocket_chat\<close>)\<close>

text \<open>
  The events of a web socket: a JSON object with its \<^verbatim>\<open>text\<close>, at a time and with a fresh identifier; the end of
  the connection; anything that makes the loop raise something else. Here nothing else runs in between.
\<close>

datatype ws_event = WsText real string "string option" | WsGone | WsBroken

fun ws_loop :: "codec \<Rightarrow> (string list \<Rightarrow> string) \<Rightarrow> nat \<Rightarrow> ws_event list \<Rightarrow> 'a chat_state_scheme \<Rightarrow> unit res \<times> 'a chat_state_scheme" where
  "ws_loop C pick ws [] S = (Inr (), S)"
| "ws_loop C pick ws (WsText now i data # es) S = ws_loop C pick ws es (websocket_message C pick now i data S)"
| "ws_loop C pick ws (WsGone # es) S = chat_disconnect ws S"
| "ws_loop C pick ws (WsBroken # es) S = (Inr (), snd (chat_disconnect ws S))"

definition websocket_chat ::
    "codec \<Rightarrow> (string list \<Rightarrow> string) \<Rightarrow> nat \<Rightarrow> ws_event list \<Rightarrow> 'a chat_state_scheme \<Rightarrow> unit res \<times> 'a chat_state_scheme" where
  "websocket_chat C pick ws es S = ws_loop C pick ws es (chat_connect ws S)"

text \<open>
  A browser that is lost while its own message is shown to it: the broadcast drops it from the list, and the
  disconnection that follows raises.
\<close>

theorem lost_browser_raises:
  fixes S :: node_net
  assumes "ws \<notin> set (ch_active S)" and "distinct (ch_active S)" and "\<not> ch_ws_ok S ws" and "strip (get_or [] data) \<noteq> []"
  shows "fst (websocket_chat C pick ws [WsText now i data, WsGone] S) = Inl (ValueError NotInList) \<and>
     fst (websocket_chat C pick ws [WsText now i data, WsBroken] S) = Inr ()"
proof -
  let ?T = "chat_connect ws S"
  let ?U = "websocket_message C pick now i data ?T"
  have U: "ch_active ?U = ch_active (chat_broadcast (said_payload now i (strip (get_or [] data)) ''local'' ?T) (?T\<lparr>ch_seen := remember pick i (ch_seen ?T)\<rparr>))"
    unfolding websocket_says [OF assms(4)]
    using broadcast_written [of C "said_msg now i (strip (get_or [] data)) ?T"
        "chat_broadcast (said_payload now i (strip (get_or [] data)) ''local'' ?T) (?T\<lparr>ch_seen := remember pick i (ch_seen ?T)\<rparr>)"]
    by auto
  have "ws \<notin> set (ch_active ?U)"
    unfolding U using assms(1-3) fold_remove1 [of "ch_active S @ [ws]"]
    by (simp add: chat_broadcast_def ws_send_loop_eq chat_connect_def)
  then show ?thesis by (simp add: websocket_chat_def chat_disconnect_def)
qed

theorem lost_browser_raises_witness:
  "fst (websocket_chat (table_codec []) hd 3 [WsText 0 ''1'' (Some ''hi''), WsGone] (chat_node\<lparr>ch_ws_ok := (\<lambda>ws. ws \<noteq> 3)\<rparr>)) =
     Inl (ValueError NotInList)"
  using lost_browser_raises [of 3 "chat_node\<lparr>ch_ws_ok := (\<lambda>ws. ws \<noteq> 3)\<rparr>" "Some ''hi''"] strip_hi
  by (simp add: chat_node_def)

subsection \<open>A concrete node\<close>

definition node_cfg :: app_config where
  "node_cfg = auto_id ''aa'' default_config"

definition up_node :: "dist_node \<Rightarrow> dist_node" where
  "up_node N = snd (lifespan_up (\<lambda>v. None) Inr (\<lambda>p. Inr ()) N)"

theorem node_wellformed_witness:
  "\<exists>N0. node_init 0 node_cfg example_store = Inr N0 \<and> conns_ok (dn_net (up_node N0)) \<and>
     length (ch_seen (dn_net (up_node N0))) \<le> MAX_SEEN \<and> store_ok (dn_store (up_node N0)) \<and>
     dn_tasks (up_node N0) = [(BroadcastLoop, Running), (ConnectorLoop, Running), (MonitorLoop, Running)]"
proof -
  have "\<exists>N0. node_init 0 node_cfg example_store = Inr N0 \<and> dn_tasks N0 = [] \<and> dn_config N0 = node_cfg"
    by (simp add: node_init_def new_node_def node_cfg_def auto_id_def default_config_def NodeConfig_def)
  then obtain N0 where N0: "node_init 0 node_cfg example_store = Inr N0" "dn_tasks N0 = []" "dn_config N0 = node_cfg" by (elim exE conjE)
  have "run_reachable talk_env hd (up_node N0)"
    using N0(1) example_store_ok unfolding run_reachable_def up_node_def by blast
  from node_wellformed [OF this] have w: "conns_ok (dn_net (up_node N0)) \<and>
     length (ch_seen (dn_net (up_node N0))) \<le> MAX_SEEN \<and> store_ok (dn_store (up_node N0))" by simp
  have "dn_tasks (up_node N0) = [(BroadcastLoop, Running), (ConnectorLoop, Running), (MonitorLoop, Running)]"
    using N0(2,3) by (simp add: up_node_def lifespan_up_def node_start_def env_int_def node_cfg_def auto_id_def default_config_def
        ApiConfig_def NetworkConfig_def)
  then show ?thesis using N0(1) w by blast
qed

definition lone_node :: dist_node where
  "lone_node = \<lparr>dn_config = node_cfg, dn_net = chat_node\<lparr>nt_node := (nt_node chat_node)\<lparr>ns_peers := [(''bb'', example_peer)]\<rparr>, nt_connections := [(''cc'', 4)]\<rparr>,
     dn_listening = True, dn_udp = True, dn_tasks = [(BroadcastLoop, Running), (ConnectorLoop, Running)],
     dn_store = example_store, dn_sent = []\<rparr>"

definition bad_turn :: turn_env where
  "bad_turn = \<lparr>te_net = dial_env, te_disc = hello_env, te_now = 0, te_health = idle_health, te_udp_up = True,
     te_dial = (\<lambda>ip port. Some (Some [(''type'', VStr ''HANDSHAKE_ACK''), (''node_id'', VInt 7)]))\<rparr>"

theorem connector_dies_witness:
  "dn_tasks (node_turn bad_turn 1 lone_node) ! 1 = (ConnectorLoop, Died TypeError) \<and>
   node_turn bad_turn 1 (node_turn bad_turn 1 lone_node) = node_turn bad_turn 1 lone_node"
proof -
  have alive: "get_alive_peers (te_now bad_turn) 15 (nt_node (dn_net lone_node)) = (''bb'', example_peer) # []"
    by (simp add: lone_node_def bad_turn_def get_alive_peers_def is_alive_def example_peer_def)
  have "ns_node_id (nt_node (dn_net lone_node)) = ''aa''" by (simp add: lone_node_def chat_node_def new_node_state_def)
  moreover have "handshake_fields ''HANDSHAKE'' (dn_net lone_node) = handshake_fields ''HANDSHAKE'' chat_node"
    by (rule handshake_fields_node) (simp_all add: lone_node_def)
  ultimately have fit: "fits (ne_codec (te_net bad_turn)) (auth_handshake_msg (ne_hmac (te_net bad_turn)) (ns_node_id (nt_node (dn_net lone_node))) (ne_swarm_key (te_net bad_turn)))"
    "fits (ne_codec (te_net bad_turn)) (handshake_fields ''HANDSHAKE'' (dn_net lone_node))"
    using dial_env_ok by (simp_all add: bad_turn_def)
  have "dn_tasks (node_turn bad_turn 1 lone_node) ! 1 = (ConnectorLoop, Died TypeError) \<and>
     (\<forall>V'. node_turn V' 1 (node_turn bad_turn 1 lone_node) = node_turn bad_turn 1 lone_node)"
    by (rule connector_dies [OF _ _ _ alive _ _ _ _ _ _ fit, where E = dial_env and pick = hd and v = "VInt 7"
        and ack = "[(''type'', VStr ''HANDSHAKE_ACK''), (''node_id'', VInt 7)]"])
      (simp_all add: lone_node_def bad_turn_def has_type_def node_cfg_def auto_id_def default_config_def NetworkConfig_def)
  then show ?thesis by blast
qed

theorem stopped_node_quiet_witness:
  "\<not> nt_open (dn_net (node_stop lone_node)) 4 \<and> node_turn bad_turn 0 (node_stop lone_node) = node_stop lone_node"
  using stopped_node_quiet [of dial_env hd lone_node "node_stop lone_node"] by (auto simp: lone_node_def)

text \<open>The same node with a discovery interval left blank.\<close>

definition blank_node :: dist_node where
  "blank_node = lone_node\<lparr>dn_config := node_cfg\<lparr>cf_network := (cf_network node_cfg)\<lparr>cf_discovery_interval := YNull\<rparr>\<rparr>\<rparr>"

theorem blank_interval_stops_broadcasts_witness:
  "dn_tasks (node_turn bad_turn 0 blank_node) ! 0 = (BroadcastLoop, Died TypeError) \<and>
   node_turn bad_turn 0 (node_turn bad_turn 0 blank_node) = node_turn bad_turn 0 blank_node"
proof -
  have "dn_tasks (node_turn bad_turn 0 blank_node) ! 0 = (BroadcastLoop, Died TypeError) \<and>
     (\<forall>V'. node_turn V' 0 (node_turn bad_turn 0 blank_node) = node_turn bad_turn 0 blank_node)"
    by (rule blank_interval_stops_broadcasts [where E = dial_env and pick = hd and N = blank_node and V = bad_turn])
      (simp_all add: blank_node_def lone_node_def)
  then show ?thesis by blast
qed

end
