(* ===== verification/Tools.thy ===== *)
theory Tools
  imports Api
begin

section \<open>The logger and the benchmark (backend/utils/logger.py, backend/benchmark/benchmark.py)\<close>

text \<open>
  The logger is the configuration of the root logger and its handlers; a record is what a handler gets.
  The format of a line and the files themselves are I/O. The benchmark composes the chunker, the store and the
  merger; its random data and the times it measures are parameters, the CSV file is the list of its rows.
\<close>

subsection \<open>\<^verbatim>\<open>setup_logging\<close>\<close>

datatype log_handler = Console int | LogFile string int

record log_state =
  lg_initialized :: bool
  lg_level :: int
  lg_propagate :: bool
  lg_handlers :: "log_handler list"

definition fresh_logging :: log_state where
  "fresh_logging = \<lparr>lg_initialized = False, lg_level = 0, lg_propagate = True, lg_handlers = []\<rparr>"

definition upper :: "string \<Rightarrow> string" where
  "upper s = List.map (\<lambda>c. let n = of_char c :: nat in if 97 \<le> n \<and> n \<le> 122 then char_of (n - 32) else c) s"

text \<open>\<^verbatim>\<open>getattr(logging, level.upper(), logging.DEBUG)\<close> for the names of levels and for names the module does not have.\<close>

definition log_level :: "string \<Rightarrow> int" where
  "log_level level =
     (let s = upper level
      in if s \<in> {''CRITICAL'', ''FATAL''} then 50 else if s = ''ERROR'' then 40
         else if s \<in> {''WARNING'', ''WARN''} then 30 else if s = ''INFO'' then 20
         else if s = ''NOTSET'' then 0 else 10)"

text \<open>\<open>open_log\<close>: the parent directory is made and the file opened, or the system refuses.\<close>

definition setup_logging :: "(string \<Rightarrow> unit res) \<Rightarrow> string \<Rightarrow> string option \<Rightarrow> log_state \<Rightarrow> unit res \<times> log_state" where
  "setup_logging open_log level log_file S =
     (if lg_initialized S then (Inr (), S)
      else
        let n = log_level level;
            S1 = S\<lparr>lg_initialized := True, lg_level := n, lg_propagate := False, lg_handlers := lg_handlers S @ [Console n]\<rparr>
        in case log_file of
             None \<Rightarrow> (Inr (), S1)
           | Some f \<Rightarrow>
               if f = [] then (Inr (), S1)
               else (case open_log f of
                       Inl e \<Rightarrow> (Inl e, S1)
                     | Inr _ \<Rightarrow> (Inr (), S1\<lparr>lg_handlers := lg_handlers S1 @ [LogFile f n]\<rparr>)))"

definition get_logger :: "string \<Rightarrow> string" where
  "get_logger name = ''distristore.'' @ name"

text \<open>Which handlers get a record of a level from a logger of the package.\<close>

fun handler_level :: "log_handler \<Rightarrow> int" where
  "handler_level (Console n) = n"
| "handler_level (LogFile f n) = n"

definition emitted :: "int \<Rightarrow> log_state \<Rightarrow> log_handler list" where
  "emitted n S = (if lg_level S \<le> n then filter (\<lambda>h. handler_level h \<le> n) (lg_handlers S) else [])"

lemma setup_level: "lg_initialized S = False \<Longrightarrow> lg_level (snd (setup_logging open_log level log_file S)) = log_level level"
  by (simp add: setup_logging_def Let_def split: option.split sum.split)

text \<open>
  The first call decides: no later call adds a handler or changes the level, whatever its arguments are, so that a
  record is written at most once to the console and at most once to the file; a first call whose log file cannot be opened
  leaves the console alone for good.
\<close>

theorem first_logging_setup_decides:
  "let S1 = snd (setup_logging open_log level log_file fresh_logging) in
     (\<forall>o' l' f'. setup_logging o' l' f' S1 = (Inr (), S1)) \<and>
     (\<forall>n. emitted n S1 =
        (if log_level level \<le> n
         then Console (log_level level) # (case log_file of
                Some f \<Rightarrow> if f \<noteq> [] \<and> (\<exists>u. open_log f = Inr u) then [LogFile f (log_level level)] else []
              | None \<Rightarrow> [])
         else []))"
  by (auto simp: setup_logging_def fresh_logging_def emitted_def Let_def split: option.split sum.split)

subsection \<open>\<^verbatim>\<open>run_benchmark\<close>\<close>

datatype bench_row =
    Measured nat nat real bool
  | Failed nat exn

text \<open>
  One test: the chunks of the file, stored with the manifest, loaded again and merged. \<open>ms\<close> is the time it
  takes, in milliseconds. A chunk that is not found makes the merger raise.
\<close>

fun load_all :: "string list \<Rightarrow> local_store \<Rightarrow> bytes option list \<times> local_store" where
  "load_all [] st = ([], st)"
| "load_all (h # hs) st = (let (d, st1) = load_chunk st h; (ds, st2) = load_all hs st1 in (d # ds, st2))"

definition present :: "bytes option \<Rightarrow> bytes res" where
  "present d = (case d of Some b \<Rightarrow> Inr b | None \<Rightarrow> Inl TypeError)"

definition bench_test ::
    "lib \<Rightarrow> string \<Rightarrow> string \<Rightarrow> bytes \<Rightarrow> real \<Rightarrow> rng \<Rightarrow> local_store \<Rightarrow> bench_row \<times> rng \<times> local_store" where
  "bench_test L password test_file data ms r st =
     (let size = length data;
          (res, r1) = chunk_file L [test_file \<mapsto> data] test_file (get_optimal_chunk_size (int size)) (Some password) r
      in case res of
           Inl e \<Rightarrow> (Failed size e, r1, st)
         | Inr (m, cs) \<Rightarrow>
             let st1 = fold (\<lambda>(c, b). save_chunk (ci_hash c) b) (zip (chunks m) cs) st;
                 st2 = snd (save_manifest (file_hash m) (to_dict m) st1);
                 (loaded, st3) = load_all (map ci_hash (chunks m)) st2
             in case bindr (mapr present loaded) (\<lambda>ds. merge_chunks L m ds (Some password)) of
                  Inl e \<Rightarrow> (Failed size e, r1, st3)
                | Inr restored \<Rightarrow> (Measured size (length cs) ms (sha256 L restored = sha256 L data), r1, st3))"

fun bench_tests ::
    "lib \<Rightarrow> string \<Rightarrow> (nat \<Rightarrow> string) \<Rightarrow> nat \<Rightarrow> (bytes \<times> real) list \<Rightarrow> rng \<Rightarrow> local_store \<Rightarrow> bench_row list" where
  "bench_tests L password name i [] r st = []"
| "bench_tests L password name i ((data, ms) # rest) r st =
     (let (row, r1, st1) = bench_test L password (name i) data ms r st
      in row # bench_tests L password name (Suc i) rest r1 st1)"

text \<open>
  The CSV file has the measured rows. The summary divides by their number: with none of them it raises
  \<^verbatim>\<open>ZeroDivisionError\<close>, after the file has been written.
\<close>

datatype bench_summary = Summary real bool | NoTests | ZeroDivision

fun measured :: "bench_row \<Rightarrow> bool" where
  "measured (Measured sz n ms ok) = True"
| "measured (Failed sz e) = False"

fun row_total :: "bench_row \<Rightarrow> real" where
  "row_total (Measured sz n ms ok) = ms"
| "row_total (Failed sz e) = 0"

fun row_pass :: "bench_row \<Rightarrow> bool" where
  "row_pass (Measured sz n ms ok) = ok"
| "row_pass (Failed sz e) = True"

definition csv_rows :: "bench_row list \<Rightarrow> bench_row list" where
  "csv_rows rows = filter measured rows"

definition bench_summary :: "bench_row list \<Rightarrow> bench_summary" where
  "bench_summary rows =
     (if rows = [] then NoTests
      else let n = length (filter measured rows)
           in if n = 0 then ZeroDivision
              else Summary (sum_list (map row_total (filter measured rows)) / real n) (list_all row_pass rows))"

definition run_benchmark ::
    "lib \<Rightarrow> string \<Rightarrow> (nat \<Rightarrow> string) \<Rightarrow> (bytes \<times> real) list \<Rightarrow> rng \<Rightarrow> local_store \<Rightarrow> bench_row list \<times> bench_summary" where
  "run_benchmark L password name tests r st =
     (let rows = bench_tests L password name 0 tests r st in (csv_rows rows, bench_summary rows))"

lemma load_all_values: "fst (load_all hs st) = map (chunk_view st) hs"
proof (induction hs arbitrary: st)
  case (Cons h hs)
  obtain d st1 where l: "load_chunk st h = (d, st1)" by fastforce
  have "chunk_view st1 = chunk_view st" using load_chunk_frame [of st h] l by (simp add: fun_eq_iff)
  then show ?case using load_chunk_value [of st h] Cons.IH [of st1] l by (auto split: prod.split)
qed simp

text \<open>
  A test of the benchmark passes: whatever the size of the data and whatever the store held before, what is loaded and merged
  has the hash of the data, and the row has the number of chunks, unless two different chunks of the test file collide.
\<close>

theorem benchmark_test_passes:
  assumes "lib_ok L"
  shows "\<exists>m es. fst (chunk_file L [test_file \<mapsto> data] test_file (get_optimal_chunk_size (int (length data))) (Some password) r) = Inr (m, es) \<and>
     (collision_in L (set es) \<or> fst (bench_test L password test_file data ms r st) = Measured (length data) (length es) ms True)"
proof -
  let ?csize = "get_optimal_chunk_size (int (length data))" and ?fs = "[test_file \<mapsto> data]"
  have cs: "?csize \<noteq> 0" using get_optimal_chunk_size_values [of "int (length data)"] by (auto simp: tier_defs)
  obtain es m r1 where f: "chunk_file L ?fs test_file ?csize (Some password) r = (Inr (m, es), r1)"
    and m: "stored_file L (Some password) data es m"
    and z: "zip (chunks m) es = tagged L (truthy (Some password)) (map fst (stream_chunks ?csize 0 data)) es"
    and len: "length (stream_chunks ?csize 0 data) = length es"
    using chunk_file_stored_file [of L ?fs test_file data ?csize "Some password" r, OF assms(1) _ cs] by auto
  let ?st1 = "fold (\<lambda>(c, b). save_chunk (ci_hash c) b) (zip (chunks m) es) st"
  let ?st2 = "snd (save_manifest (file_hash m) (to_dict m) ?st1)"
  have "fst (bench_test L password test_file data ms r st) = Measured (length data) (length es) ms True"
    if nc: "\<not> collision_in L (set es)"
  proof -
    have "?st1 = stored_chunks_of L es st" unfolding z by (rule save_fold) (simp add: len)
    then have "\<forall>e \<in> set es. chunk_view ?st2 (sha256 L e) = Some e" using stored_views [OF nc, of st] by simp
    moreover have "map ci_hash (chunks m) = map (sha256 L) es" by (rule stored_file_indices(3) [OF m])
    ultimately have "fst (load_all (map ci_hash (chunks m)) ?st2) = map Some es"
      by (simp add: load_all_values)
    moreover have "mapr present (map Some xs) = Inr xs" for xs by (induction xs) (simp_all add: present_def)
    moreover have "merge_chunks L m es (Some password) = Inr data"
      using chunk_file_merges(1) [OF assms(1) _ cs f, of data "chunks m" es] by simp
    ultimately show ?thesis
      using f by (cases "load_all (map ci_hash (chunks m)) ?st2") (simp add: bench_test_def Let_def)
  qed
  then show ?thesis using f by auto
qed

theorem benchmark_test_passes_witness:
  "fst (bench_test ref_lib ''pw'' ''test_0.bin'' [1, 2, 3] 7 ((\<lambda>i. 0), 0) example_store) = Measured 3 1 7 True"
proof -
  let ?n = "get_optimal_chunk_size (int (length [1, 2, 3 :: byte]))" and ?fs = "[''test_0.bin'' \<mapsto> [1, 2, 3 :: byte]]"
  have size: "length (stream_chunks ?n 0 [1, 2, 3 :: byte]) = 1" and n: "?n \<noteq> 0" and f: "?fs ''test_0.bin'' = Some [1, 2, 3]"
    by (simp_all add: get_optimal_chunk_size_def tier_defs stream_chunks.simps fread_def)
  obtain m es where e: "fst (chunk_file ref_lib ?fs ''test_0.bin'' ?n (Some ''pw'') ((\<lambda>i. 0), 0)) = Inr (m, es)"
    "collision_in ref_lib (set es) \<or> fst (bench_test ref_lib ''pw'' ''test_0.bin'' [1, 2, 3] 7 ((\<lambda>i. 0), 0) example_store) =
       Measured (length [1, 2, 3 :: byte]) (length es) 7 True"
    using benchmark_test_passes [OF ref_lib_ok, of "''test_0.bin''" "[1, 2, 3]" "''pw''" "((\<lambda>i. 0), 0)" 7 example_store] by blast
  obtain c where "es = [c]" using one_chunk_file [of ref_lib ?fs "''test_0.bin''" _ ?n, OF ref_lib_ok f n size e(1)] by blast
  then show ?thesis using e(2) by simp
qed

text \<open>
  The summary: an average and a verdict over the measured rows; without any measured row the division by their number
  raises, although the rows are there.
\<close>

theorem benchmark_summary_cases:
  "bench_summary rows = ZeroDivision \<longleftrightarrow> rows \<noteq> [] \<and> csv_rows rows = []"
  "bench_summary rows = Summary avg ok \<Longrightarrow> ok \<longleftrightarrow> (\<forall>row \<in> set (csv_rows rows). row_pass row)"
proof -
  have "row_pass row" if "\<not> measured row" for row using that by (cases row) simp_all
  then show "bench_summary rows = ZeroDivision \<longleftrightarrow> rows \<noteq> [] \<and> csv_rows rows = []"
    "bench_summary rows = Summary avg ok \<Longrightarrow> ok \<longleftrightarrow> (\<forall>row \<in> set (csv_rows rows). row_pass row)"
    by (auto simp: bench_summary_def csv_rows_def Let_def list_all_iff split: if_splits)
qed

end
