(* ===== verification/Boot.thy ===== *)
theory Boot
  imports Node Tools
begin

section \<open>Booting a process (\<^verbatim>\<open>_init\<close> of backend/main.py)\<close>

text \<open>
  What runs when the module is imported: the configuration is loaded and overridden in place, the logger set up, and the node, its store,
  its routing table and its download manager are created. The cached configuration and the logger are the
  state of the process; they keep what was done before an exception. The storage directory is a parameter:
  \<open>open_store\<close> gives the chunk store, \<open>found\<close> the resume files that are in it.
\<close>

record app =
  ap_config :: app_config
  ap_node :: dist_node
  ap_routing :: routing_table
  ap_downloads :: dl_system

record process_state =
  pr_config :: "app_config option"
  pr_logging :: log_state

fun log_file_of :: "yaml \<Rightarrow> string option res" where
  "log_file_of YNull = Inr None"
| "log_file_of (YStr s) = Inr (Some s)"
| "log_file_of (YBool b) = (if b then Inl TypeError else Inr None)"
| "log_file_of (YInt n) = (if n \<noteq> 0 then Inl TypeError else Inr None)"
| "log_file_of (YFloat x) = (if x \<noteq> 0 then Inl TypeError else Inr None)"
| "log_file_of (YList xs) = (if xs \<noteq> [] then Inl TypeError else Inr None)"
| "log_file_of (YMap kvs) = (if kvs \<noteq> [] then Inl TypeError else Inr None)"

text \<open>
  \<^verbatim>\<open>setup_logging\<close> on the values of the configuration: a level that is not a string has no \<^verbatim>\<open>upper\<close>,
  a log file that is no path fails after the console handler is added. In both cases the logger counts as
  initialised.
\<close>

definition setup_from_config :: "(string \<Rightarrow> unit res) \<Rightarrow> logging_config \<Rightarrow> log_state \<Rightarrow> unit res \<times> log_state" where
  "setup_from_config open_log c S =
     (if lg_initialized S then (Inr (), S)
      else case yaml_str (cf_level c) of
             Inl e \<Rightarrow> (Inl AttributeError, S\<lparr>lg_initialized := True\<rparr>)
           | Inr level \<Rightarrow>
               (case log_file_of (cf_file c) of
                  Inl e \<Rightarrow> (Inl e, snd (setup_logging open_log level None S))
                | Inr f \<Rightarrow> setup_logging open_log level f S))"

text \<open>\<^verbatim>\<open>DistriNode()\<close> reads the cached configuration and sets the logger up again, which does nothing.\<close>

definition init_app ::
    "config_env \<Rightarrow> string \<Rightarrow> string \<Rightarrow> (string \<Rightarrow> string option) \<Rightarrow> (string \<Rightarrow> unit res) \<Rightarrow> (string \<Rightarrow> local_store res) \<Rightarrow>
     filesys \<Rightarrow> (string, resume_dict option) dict \<Rightarrow> real \<Rightarrow> process_state \<Rightarrow> app res \<times> process_state" where
  "init_app E token fresh environ open_log open_store files found now P =
     (let (r, cache) = get_config E token None (pr_config P); P1 = P\<lparr>pr_config := cache\<rparr>
      in case r of
           Inl e \<Rightarrow> (Inl e, P1)
         | Inr cfg0 \<Rightarrow>
             (case env_overrides environ fresh cfg0 of
                Inl e \<Rightarrow> (Inl e, P1)
              | Inr cfg \<Rightarrow>
                  let (r2, lg) = setup_from_config open_log (cf_logging cfg) (pr_logging P1);
                      P2 = \<lparr>pr_config = Some cfg, pr_logging = lg\<rparr>
                  in (bindr r2 (\<lambda>_.
                      bindr (yaml_str (cf_chunk_dir (cf_storage cfg))) (\<lambda>dir.
                      bindr (open_store dir) (\<lambda>store.
                      bindr (node_init now cfg store) (\<lambda>N.
                      Inr \<lparr>ap_config = cfg, ap_node = N, ap_routing = empty_routing,
                           ap_downloads = new_manager \<lparr>aw_node = nt_node (dn_net N), aw_store = store, aw_requests = 0\<rparr> files found\<rparr>)))), P2)))"

lemma setup_from_config_done: "lg_initialized (snd (setup_from_config open_log c S))"
  by (auto simp: setup_from_config_def setup_logging_def Let_def split: sum.split option.split)

lemma init_app_result:
  assumes "init_app E token fresh environ open_log open_store files found now P = (Inr A, P')"
  obtains cfg0 dir store where
    "fst (get_config E token None (pr_config P)) = Inr cfg0" "env_overrides environ fresh cfg0 = Inr (ap_config A)"
    "P' = \<lparr>pr_config = Some (ap_config A), pr_logging = snd (setup_from_config open_log (cf_logging (ap_config A)) (pr_logging P))\<rparr>"
    "open_store dir = Inr store" "node_init now (ap_config A) store = Inr (ap_node A)"
  using assms by (auto simp: init_app_def Let_def bindr_eq_Inr split: prod.splits sum.splits)

text \<open>
  What is created is what is kept: the configuration that later calls of \<^verbatim>\<open>get_config\<close> return is the overridden
  one, the logger is not configured again, and a node whose ports can be bound comes up under the name of the
  environment, on the ports of the environment, with its three tasks and every peer of its database.
\<close>

theorem booted_node_comes_up:
  assumes "init_app E token fresh environ open_log open_store files found now P = (Inr A, P')"
    and "environ ''DS_NAME'' = Some name" and "environ ''DS_TCP_PORT'' = Some tcp" and "environ ''DS_UDP_PORT'' = Some udp"
    and "environ ''DS_API_PORT'' = Some api"
    and "int10 tcp = Inr tcp_port" and "int10 udp = Inr udp_port" and "int10 api = Inr api_port"
    and "bind_tcp tcp_port = Inr port" and "bind_udp udp_port = Inr ()"
  shows "(\<forall>E' token'. get_config E' token' None (pr_config P') = (Inr (ap_config A), pr_config P')) \<and>
     (\<forall>o' c. setup_from_config o' c (pr_logging P') = (Inr (), pr_logging P')) \<and>
     (\<exists>N. lifespan_up environ bind_tcp bind_udp (ap_node A) = (Inr (), N) \<and>
        ns_name (nt_node (dn_net N)) = name \<and> ns_tcp_port (nt_node (dn_net N)) = port \<and> nt_api_port (dn_net N) = api_port \<and>
        dn_listening N \<and> dn_udp N \<and> map fst (dn_tasks N) = [BroadcastLoop, ConnectorLoop, MonitorLoop] \<and>
        ns_peers (nt_node (dn_net N)) =
          ns_peers (load_peers_from_db (set_database (ls_db (dn_store N)) (nt_node (dn_net (ap_node A))))))"
proof -
  obtain cfg0 dir store where i: "env_overrides environ fresh cfg0 = Inr (ap_config A)"
    "P' = \<lparr>pr_config = Some (ap_config A), pr_logging = snd (setup_from_config open_log (cf_logging (ap_config A)) (pr_logging P))\<rparr>"
    "node_init now (ap_config A) store = Inr (ap_node A)"
    by (rule init_app_result [OF assms(1)])
  have cfg: "cf_name (cf_node (ap_config A)) = YStr name" "cf_tcp_port (cf_network (ap_config A)) = YInt tcp_port"
    "cf_discovery_port (cf_network (ap_config A)) = YInt udp_port"
    using i(1) assms(2-4,6,7) by (auto simp: env_overrides_def env_int_def Let_def split: if_splits dest!: sym [of _ "ap_config A"])
  have N: "ns_name (nt_node (dn_net (ap_node A))) = name" "dn_tasks (ap_node A) = []"
    "dn_config (ap_node A) = ap_config A"
    using i(3) cfg(1) by (auto simp: node_init_def new_node_def bindr_eq_Inr new_node_state_def dest!: sym [of _ "ap_node A"])
  have "ns_name (load_peers_from_db (set_database db st)) = ns_name st" for db st
    by (simp add: load_peers_from_db_def set_database_def Let_def split: option.split)
  then have "\<exists>N. lifespan_up environ bind_tcp bind_udp (ap_node A) = (Inr (), N) \<and>
        ns_name (nt_node (dn_net N)) = name \<and> ns_tcp_port (nt_node (dn_net N)) = port \<and> nt_api_port (dn_net N) = api_port \<and>
        dn_listening N \<and> dn_udp N \<and> map fst (dn_tasks N) = [BroadcastLoop, ConnectorLoop, MonitorLoop] \<and>
        ns_peers (nt_node (dn_net N)) =
          ns_peers (load_peers_from_db (set_database (ls_db (dn_store N)) (nt_node (dn_net (ap_node A)))))"
    using assms(5,8-10) cfg(2,3) N
    by (simp add: lifespan_up_def node_start_def env_int_def start_server_def)
  then show ?thesis using i(2) setup_from_config_done by (simp add: get_config_def setup_from_config_def)
qed

text \<open>A process whose configuration is the default one, started with the environment of a second node.\<close>

definition second_env :: "string \<Rightarrow> string option" where
  "second_env v =
     (if v = ''DS_NAME'' then Some ''beta'' else if v = ''DS_TCP_PORT'' then Some ''50003''
      else if v = ''DS_UDP_PORT'' then Some ''50000'' else if v = ''DS_API_PORT'' then Some ''8001'' else None)"

definition plain_process :: process_state where
  "plain_process = \<lparr>pr_config = Some node_cfg, pr_logging = fresh_logging\<rparr>"

theorem booted_node_comes_up_witness:
  "\<exists>A P' N. init_app E ''t'' ''bb'' second_env (\<lambda>f. Inr ()) (\<lambda>d. Inr example_store) Map.empty [] 0 plain_process = (Inr A, P') \<and>
     lifespan_up second_env Inr (\<lambda>p. Inr ()) (ap_node A) = (Inr (), N) \<and>
     ns_name (nt_node (dn_net N)) = ''beta'' \<and> ns_tcp_port (nt_node (dn_net N)) = 50003 \<and> nt_api_port (dn_net N) = 8001"
proof -
  have ports: "int10 ''50003'' = Inr 50003" "int10 ''50000'' = Inr 50000" "int10 ''8001'' = Inr 8001" by code_simp+
  have "\<exists>A P'. init_app E ''t'' ''bb'' second_env (\<lambda>f. Inr ()) (\<lambda>d. Inr example_store) Map.empty [] 0 plain_process = (Inr A, P')"
    by (simp add: init_app_def plain_process_def get_config_def env_overrides_def env_int_def second_env_def ports node_cfg_def
        auto_id_def default_config_def NodeConfig_def NetworkConfig_def StorageConfig_def LoggingConfig_def setup_from_config_def
        setup_logging_def fresh_logging_def node_init_def new_node_def Let_def)
  then obtain A P' where A: "init_app E ''t'' ''bb'' second_env (\<lambda>f. Inr ()) (\<lambda>d. Inr example_store) Map.empty [] 0 plain_process = (Inr A, P')"
    by blast
  from booted_node_comes_up [OF A _ _ _ _ ports, of "''beta''" Inr 50003 "\<lambda>p. Inr ()"]
  show ?thesis using A by (force simp: second_env_def)
qed

end
