(* ===== verification/Spec2Isabelle.thy ===== *)
theory Spec2Isabelle
  imports Merging Eviction Downloads SlidingWindow Api Heartbeat Config Client Mesh Swarm StoreSpec Node Tools Boot
begin

text \<open>
  DistriStore is a peer-to-peer store for files. A node cuts a file into chunks, compresses and
  encrypts them, keeps them in a directory, records a manifest in an SQLite database, and copies the
  chunks to other nodes; a file is found by its SHA-256 hash and put together from the chunks of
  any node. This library models the Python backend (\<^verbatim>\<open>backend/\<close>) and proves what makes its parts correct,
  and where they are not. Each theory names the files it models; every definition keeps the name of the
  function, method or class it translates, with a prefix or suffix where two would clash.

  The parts, bottom up:

  \<^item> \<open>Prelude\<close>: bytes as 8-bit words, exceptions as values of a sum type (\<open>exn\<close>, \<open>bindr\<close>, \<open>mapr\<close>), Python
    slices, dictionaries as association lists, the random number source.
  \<^item> \<open>Steps\<close>: the locales of a step relation with an invariant and of one that comes to rest, interpreted
    on the registry, the download manager, the windowed sender, a node's network, the orchestrator and the gossip of a swarm.
  \<^item> \<open>External\<close>: the libraries the code calls (SHA-256, PBKDF2, AES-GCM, zstandard) as a record of
    functions, with their documented laws as the predicate \<open>lib_ok\<close> and a small instance that satisfies them.
    Nothing is assumed about SHA-256. Where a theorem depends on it, its other case is \<open>collision_in L X\<close>: two different
    members of the finite set \<open>X\<close>, which the theorem names, have one hash.
  \<^item> \<open>Crypto\<close>, \<open>Codec\<close> (\<^verbatim>\<open>file_engine/crypto.py\<close>): the format of an encrypted chunk, the three ways to
    decrypt it, batches. The locale of a codec states the round trip once for all pairs of functions.
  \<^item> \<open>Merkle\<close>, \<open>Manifest\<close>, \<open>Chunker\<close>, \<open>Merging\<close> (\<^verbatim>\<open>file_engine/chunker.py\<close>): hash trees and proofs, manifests
    and their dictionaries, the chunkers, the mergers into memory and to disk. Proved: proofs are
    complete and sound, equal roots mean equal lists, chunking and merging give the file back, what is merged has
    the hash of the manifest, and the disk merger refines the one in memory.
  \<^item> \<open>Storage\<close>, \<open>Eviction\<close> (\<^verbatim>\<open>storage/\<close>, \<^verbatim>\<open>advanced/garbage_collector.py\<close>): the database, the chunk files, the
    eviction of the least recently used, the monitor that restores the quota.
  \<^item> \<open>StoreSpec\<close>: the contract of the chunk store, a map from hashes to bytes with the steps \<open>map_step\<close>, and
    the proof that every operation of the store refines it.
  \<^item> \<open>NodeState\<close>, \<open>Dht\<close> (\<^verbatim>\<open>node/state.py\<close>, \<^verbatim>\<open>dht/\<close>): the registry of peers and its mirror in the database (an
    invariant of all reachable states), XOR distances, closest peers, holders of chunks.
  \<^item> \<open>Pipeline\<close>, \<open>Loader\<close>, \<open>Downloads\<close> (\<^verbatim>\<open>file_engine/pipeline.py\<close>, \<^verbatim>\<open>api/download_manager.py\<close>): the streaming
    pipeline, which equals the batch chunker and merger; chunk loaders that fall back to peers; resumable downloads as
    a step relation, whose bookkeeping is an invariant and which complete in an honest swarm.
    The locale of a chunk source states what a loader promises; it is interpreted on the local store and on the
    store with peers.
  \<^item> \<open>Wire\<close>, \<open>Network\<close>, \<open>Chat\<close> (\<^verbatim>\<open>network/protocol.py\<close>, \<^verbatim>\<open>network/connection.py\<close>, \<^verbatim>\<open>node/node.py\<close>, the chat
    of \<^verbatim>\<open>api/routes.py\<close>): messages and frames, the handlers of connections as state machines, and a running node
    as the step relation \<open>net_step\<close>, with the invariant of its connections.
  \<^item> \<open>Mesh\<close>: several such nodes and the messages on their way, delivered in any order. While the memories of identifiers have room, chat
    messages reach every node over links that are read and the flood ends; a HELLO leads to a link. What keeps each
    from holding in general is proved beside it.
  \<^item> \<open>Discovery\<close> (\<^verbatim>\<open>network/discovery.py\<close>): the signed broadcast by which nodes find each other.
  \<^item> \<open>Replication\<close>, \<open>SlidingWindow\<close>, \<open>Heartbeat\<close> (\<^verbatim>\<open>strategies/\<close>, \<^verbatim>\<open>advanced/\<close>): the choice of peers,
    replication and healing over the network state, the windowed sender as the step relation \<open>sw_step\<close> of its three tasks,
    and the heartbeat.
  \<^item> \<open>Node\<close> (\<^verbatim>\<open>node/node.py\<close>, \<^verbatim>\<open>lifespan\<close> of \<^verbatim>\<open>main.py\<close>): a node with its background tasks, from its constructor to
    its stop, as the step relation \<open>run_step\<close>; its invariant, the death of a task, and what stopping does not stop.
    Its settings keep the types YAML gives them.
  \<^item> \<open>Api\<close> (\<^verbatim>\<open>api/routes.py\<close>): every HTTP handler. An uploaded file is downloaded again unchanged.
  \<^item> \<open>Swarm\<close>: the same across nodes, where the answers of peers are the handlers of their own states.
  \<^item> \<open>Config\<close>, \<open>Client\<close> (\<^verbatim>\<open>utils/config.py\<close>, \<^verbatim>\<open>main.py\<close>, \<^verbatim>\<open>framework/client.py\<close>): configuration, start-up, the
    Python client.
  \<^item> \<open>Tools\<close>, \<open>Boot\<close> (\<^verbatim>\<open>utils/logger.py\<close>, \<^verbatim>\<open>benchmark/benchmark.py\<close>, \<^verbatim>\<open>_init\<close> of \<^verbatim>\<open>main.py\<close>): the logger, the benchmark, the
    boot of a process.

  State is passed explicitly: a node's network state is the record \<open>net_state\<close>, extended by the chat
  (\<open>chat_state\<close>), the running handlers (\<open>node_net\<close>), and the store and holder table of the replication
  engine (\<open>repl_state\<close>). A task that waits is modelled between its suspensions, so that steps of different tasks
  interleave; what an \<^verbatim>\<open>ensure_future\<close> starts is run at once. Clock readings, random bytes, fresh names, the answers of
  peers and the order in which concurrent requests finish are arguments, over which the theorems quantify.

  No definition needs fuel. Loops are structural, or end by a measure: block reads and frame
  parsing shorten their input, the climb of a Merkle tree halves its level. Tasks that run for ever are step
  relations, or one round is modelled. The bounds are those of the code: frames of 8 MB, windows of 20 chunks with 5 retries, 500
  remembered chat identifiers, eleven ports.

  Floats are real numbers, so that \<^verbatim>\<open>.nan\<close> and \<^verbatim>\<open>.inf\<close> as settings are left out. Where the code rounds, the rounding is an
  arbitrary function; sums and quotients are exact.

  Not modelled: the web frontend (JavaScript), the creation of process pools, sockets and the FastAPI application, the
  headers of HTTP responses, the text of log lines and of the benchmark's report, and the 503 answers before the node is
  injected.

  Simplifications. A field of a received message or broadcast whose type is not the one the protocol gives it is
  taken to raise at once (\<open>accept_handshake\<close>, \<open>connect_to_peer\<close>, \<open>handle_tcp_chat\<close>), where Python fails at its first
  use, if at all: a number as an identifier is registered before the slice of the log line raises, bytes are accepted. In the same way
  a configured identifier or name that is not a string is refused by \<open>new_node\<close>. SQLite's limit of 64 bits on stored
  ports (\<open>persist_peer\<close>) is left out. File paths are compared as they are written: a joined name may be absolute
  (\<open>path_join\<close>), \<^verbatim>\<open>..\<close> is not resolved, and writing does not fail. A node's stop falls between two turns of its tasks; an
  eviction in its thread belongs to the turn that started it.

  Theorems that show that the code does less than it says: \<open>replicated_chunk_not_stored\<close>, \<open>window_never_slides\<close>,
  \<open>heartbeat_removes\<close>, \<open>handshake_identity_unbound\<close>, \<open>peer_manifest_not_bound\<close>, \<open>dialled_link_unhandled\<close>,
  \<open>connector_dies\<close>, \<open>full_memory_gossip_loops\<close>, \<open>stopped_node_quiet\<close>. Others that are not among the listed
  properties stand in their theories: \<open>returned_statistics\<close>, \<open>heuristic_never_decides\<close>,
  \<open>disk_merge_ignores_chunk_hashes\<close>, \<open>swarmed_download_discards_chunks\<close>, \<open>pause_overwrites_completion\<close>,
  \<open>cleared_failure_is_stuck\<close>, \<open>streaming_chunks_unmergeable\<close>, \<open>disk_merge_failure_cleanup\<close>,
  \<open>peer_chunk_cached_unchecked\<close>, \<open>fallback_port_not_announced\<close>, \<open>merkle_root_repeat_last\<close>,
  \<open>lost_browser_raises\<close>, \<open>benchmark_summary_cases\<close>, \<open>blank_interval_stops_broadcasts\<close>, \<open>absolute_upload_name\<close>.
\<close>

end
